(* ===== verification/Prelude.thy ===== *)
theory Prelude
  imports Main "HOL-Library.Word" "HOL-Library.Multiset"
begin

text \<open>
  What every component shares: the outcome of a Go call that may panic, the Go \<open>for range\<close>
  loop over a slice, iteration over a Go map in an arbitrary order, Go integers and times, and
  the fact collections the component proofs use.
\<close>

named_theorems go_defs \<open>definitions of modelled operations, unfolded together\<close>
named_theorems inv_defs \<open>definitions of the invariants\<close>
named_theorems frame_simps \<open>what an operation leaves unchanged\<close>

subsection \<open>Machine types\<close>

type_synonym byte = "8 word"
type_synonym bytes = "8 word list"
type_synonym uint8 = "8 word"
type_synonym int32 = "32 word"
type_synonym uint32 = "32 word"
type_synonym int64 = "64 word"
type_synonym uint64 = "64 word"

text \<open>
  A \<open>time.Time\<close> is the number of nanoseconds since the zero time (January 1, year 1 UTC), so
  \<open>IsZero\<close> is \<open>t = 0\<close>; a \<open>time.Duration\<close> is a number of nanoseconds. The difference of two
  times saturates at the ends of the int64 range, as \<open>Time.Sub\<close> does.
\<close>

type_synonym gtime = int
type_synonym duration = int

definition nanos_per_second :: int where
  "nanos_per_second = 1000000000"

definition unix_epoch :: gtime where
  "unix_epoch = 62135596800 * nanos_per_second"

definition time_Unix :: "int \<Rightarrow> gtime" where
  "time_Unix sec = unix_epoch + sec * nanos_per_second"

definition to_Unix :: "gtime \<Rightarrow> int" where
  "to_Unix t = (t - unix_epoch) div nanos_per_second"

definition time_Sub :: "gtime \<Rightarrow> gtime \<Rightarrow> duration" where
  "time_Sub t u = max (- (2 ^ 63)) (min (2 ^ 63 - 1) (t - u))"

lemma to_Unix_time_Unix [simp]: "to_Unix (time_Unix s) = s"
  by (simp add: to_Unix_def time_Unix_def nanos_per_second_def)

lemma time_Sub_mono: "t \<le> t' \<Longrightarrow> time_Sub t u \<le> time_Sub t' u"
  unfolding time_Sub_def by linarith

lemma time_Sub_exact: "0 \<le> t - u \<Longrightarrow> t - u < 2 ^ 63 \<Longrightarrow> time_Sub t u = t - u"
  unfolding time_Sub_def by linarith

subsection \<open>Outcomes: a call returns or panics\<close>

text \<open>
  A run-time panic (nil dereference, slice bounds out of range) ends the process, so it carries
  no state. An ordinary Go error is a value: \<open>Inl e\<close> of a sum, or \<open>Some e\<close> in the error
  position of the results.
\<close>

datatype 'a outcome = Done 'a | Panic

fun outcome_bind :: "'a outcome \<Rightarrow> ('a \<Rightarrow> 'b outcome) \<Rightarrow> 'b outcome" where
  "outcome_bind (Done x) f = f x"
| "outcome_bind Panic f = Panic"

primrec the_Done :: "'a outcome \<Rightarrow> 'a" where
  "the_Done (Done x) = x"

fun outcome_all :: "('a \<Rightarrow> bool) \<Rightarrow> 'a outcome \<Rightarrow> bool" where
  "outcome_all P (Done x) = P x"
| "outcome_all P Panic = False"

lemma outcome_bind_eq_Done:
  "outcome_bind m f = Done y \<longleftrightarrow> (\<exists>x. m = Done x \<and> f x = Done y)"
  by (cases m) auto

lemma outcome_all_iff: "outcome_all P m \<longleftrightarrow> (\<exists>x. m = Done x \<and> P x)"
  by (cases m) auto

lemma outcome_all_bind:
  "outcome_all P m \<Longrightarrow> (\<And>x. P x \<Longrightarrow> outcome_all Q (f x)) \<Longrightarrow> outcome_all Q (outcome_bind m f)"
  by (cases m) auto

lemma outcome_all_mono: "outcome_all P m \<Longrightarrow> (\<And>x. P x \<Longrightarrow> Q x) \<Longrightarrow> outcome_all Q m"
  by (cases m) auto

subsection \<open>The for-range loop over a slice\<close>

text \<open>The body is one iteration; \<open>continue\<close> ends it, a panic ends the loop.\<close>

fun for_range :: "('a \<Rightarrow> 's \<Rightarrow> 's outcome) \<Rightarrow> 'a list \<Rightarrow> 's \<Rightarrow> 's outcome" where
  "for_range body [] s = Done s"
| "for_range body (x # xs) s = outcome_bind (body x s) (for_range body xs)"

lemma for_range_append:
  "for_range body (xs @ ys) s = outcome_bind (for_range body xs s) (for_range body ys)"
proof (induction xs arbitrary: s)
  case Nil
  then show ?case by simp
next
  case (Cons x xs)
  then show ?case by (cases "body x s") auto
qed

text \<open>
  The loop rule: the invariant may speak of the elements still to come, and gives that no
  iteration panics.
\<close>

lemma for_range_inv:
  assumes "I xs s"
    and "\<And>y ys t. I (y # ys) t \<Longrightarrow> outcome_all (I ys) (body y t)"
  shows "outcome_all (I []) (for_range body xs s)"
  using assms(1)
proof (induction xs arbitrary: s)
  case Nil
  then show ?case by simp
next
  case (Cons x xs)
  from assms(2) [OF Cons.prems] have "outcome_all (I xs) (body x s)" .
  then show ?case using Cons.IH by (auto intro: outcome_all_bind)
qed

lemma for_range_inv_partial:
  assumes "for_range body xs s = Done t" and "P s"
    and "\<And>x s t. x \<in> set xs \<Longrightarrow> P s \<Longrightarrow> body x s = Done t \<Longrightarrow> P t"
  shows "P t"
  using assms
proof (induction xs arbitrary: s)
  case Nil
  then show ?case by simp
next
  case (Cons x xs)
  from Cons.prems(1) obtain u where u: "body x s = Done u" and r: "for_range body xs u = Done t"
    by (auto simp: outcome_bind_eq_Done)
  have "P u" using Cons.prems(2,3) u by (metis list.set_intros(1))
  then show ?case using Cons.IH r Cons.prems(3) by (metis list.set_intros(2))
qed

subsection \<open>Go maps\<close>

text \<open>
  A Go map is a partial function. Ranging over it visits every key once in an order the run time
  chooses, so an operation that ranges takes the order as a list of keys, and a property about it
  holds for every list with \<open>key_order\<close>.
\<close>

definition key_order :: "('k \<rightharpoonup> 'v) \<Rightarrow> 'k list \<Rightarrow> bool" where
  "key_order m ks \<longleftrightarrow> distinct ks \<and> set ks = dom m"

fun entries :: "'k list \<Rightarrow> ('k \<rightharpoonup> 'v) \<Rightarrow> ('k \<times> 'v) list" where
  "entries [] m = []"
| "entries (k # ks) m = (case m k of None \<Rightarrow> entries ks m | Some v \<Rightarrow> (k, v) # entries ks m)"

definition map_values :: "'k list \<Rightarrow> ('k \<rightharpoonup> 'v) \<Rightarrow> 'v list" where
  "map_values ks m = List.map snd (entries ks m)"

lemma set_entries: "set (entries ks m) = {(k, v). k \<in> set ks \<and> m k = Some v}"
  by (induction ks) (auto split: option.splits)

lemma set_map_values: "set (map_values ks m) = {v. \<exists>k \<in> set ks. m k = Some v}"
  by (force simp: map_values_def set_entries)

lemma entries_fst: "List.map fst (entries ks m) = filter (\<lambda>k. k \<in> dom m) ks"
  by (induction ks) (auto split: option.splits simp: domIff)

lemma entries_distinct: "distinct ks \<Longrightarrow> distinct (List.map fst (entries ks m))"
  by (simp add: entries_fst)

lemma key_order_values: "key_order m ks \<Longrightarrow> set (map_values ks m) = ran m"
  by (auto simp: key_order_def set_map_values ran_def)

lemma key_order_length: "key_order m ks \<Longrightarrow> length (entries ks m) = card (dom m)"
proof -
  assume o: "key_order m ks"
  have "length (entries ks m) = length (List.map fst (entries ks m))" by simp
  also have "\<dots> = length ks" using o by (simp add: entries_fst key_order_def)
  also have "\<dots> = card (dom m)" using o distinct_card by (metis key_order_def)
  finally show ?thesis .
qed

lemma key_order_finite: "key_order m ks \<Longrightarrow> finite (dom m)"
  by (metis List.finite_set key_order_def)

definition map_delete :: "'k \<Rightarrow> ('k \<rightharpoonup> 'v) \<Rightarrow> ('k \<rightharpoonup> 'v)" where
  "map_delete k m = m(k := None)"

lemma map_delete_apply [simp]: "map_delete k m k' = (if k' = k then None else m k')"
  by (simp add: map_delete_def)

lemma dom_map_delete [simp]: "dom (map_delete k m) = dom m - {k}"
  by (auto simp: dom_def)

end
