(* ===== verification/GoValues.thy ===== *)
theory GoValues
  imports Prelude
begin

text \<open>
  The dynamic values the code passes through Go's empty interface \<open>any\<close>: transaction
  parameters (txm, pkg/abi) and the values go-ethereum's ABI decoder puts into a result map
  (reader, ocr2). One constructor per concrete type that some type assertion or type switch of
  the code tells apart; \<open>GOther\<close> stands for every other concrete type.
\<close>

datatype goval =
    GNil                          \<comment> \<open>the nil interface\<close>
  | GString string
  | GStrings "string list"        \<comment> \<open>[]string\<close>
  | GAddress bytes                \<comment> \<open>address.Address\<close>
  | GAddresses "bytes list"       \<comment> \<open>[]address.Address\<close>
  | GEthAddress bytes             \<comment> \<open>go-ethereum common.Address\<close>
  | GEthAddresses "bytes list"    \<comment> \<open>[]common.Address\<close>
  | GBytes bytes                  \<comment> \<open>[]byte\<close>
  | GFixedBytes bytes             \<comment> \<open>[N]byte, N the length\<close>
  | GFixedBytesList "bytes list"  \<comment> \<open>[][N]byte or [M][N]byte\<close>
  | GInt nat int                  \<comment> \<open>intN, the first argument is N\<close>
  | GUint nat int                 \<comment> \<open>uintN\<close>
  | GBigInt "int option"          \<comment> \<open>*big.Int, None is the nil pointer\<close>
  | GBigInts "int option list"    \<comment> \<open>[]*big.Int\<close>
  | GBool bool
  | GOther nat

fun is_GString :: "goval \<Rightarrow> bool" where
  "is_GString (GString s) = True"
| "is_GString _ = False"

text \<open>Type assertions \<open>v.(T)\<close> with the comma-ok form: \<open>None\<close> is \<open>ok = false\<close>.\<close>

fun as_string :: "goval \<Rightarrow> string option" where
  "as_string (GString s) = Some s"
| "as_string _ = None"

fun as_uint :: "nat \<Rightarrow> goval \<Rightarrow> int option" where
  "as_uint w (GUint w' n) = (if w = w' then Some n else None)"
| "as_uint w _ = None"

fun as_bytes32 :: "goval \<Rightarrow> bytes option" where
  "as_bytes32 (GFixedBytes b) = (if length b = 32 then Some b else None)"
| "as_bytes32 _ = None"

fun as_bytes :: "goval \<Rightarrow> bytes option" where
  "as_bytes (GBytes b) = Some b"
| "as_bytes _ = None"

fun as_bigint :: "goval \<Rightarrow> int option option" where
  "as_bigint (GBigInt n) = Some n"
| "as_bigint _ = None"

fun as_eth_addresses :: "goval \<Rightarrow> bytes list option" where
  "as_eth_addresses (GEthAddresses xs) = Some xs"
| "as_eth_addresses _ = None"

end
