(* ===== verification/TxStore.thy ===== *)
theory TxStore
  imports Prelude GoValues
begin

text \<open>
  relayer/txm/tx.go and the \<open>TxStore\<close> of relayer/txm/txstore.go: the per-account tables of
  pending, unconfirmed, confirmed and finished transactions.

  The tables hold pointers to \<open>TronTx\<close> objects that the broadcast channel and the confirm loop
  share, so the objects live in an explicit heap; every operation takes and returns the heap
  with the tables. Each operation runs under the store's lock, so it is one atomic step.
\<close>

subsection \<open>Data\<close>

datatype TxState = Pending | Errored | FatallyErrored | Broadcasted | Confirmed | Finalized

text \<open>The constants are numbered by \<open>iota\<close>; the order of the constants is the order of the type.\<close>

primrec iota :: "TxState \<Rightarrow> nat" where
  "iota Pending = 0"
| "iota Errored = 1"
| "iota FatallyErrored = 2"
| "iota Broadcasted = 3"
| "iota Confirmed = 4"
| "iota Finalized = 5"

lemma iota_inject: "iota a = iota b \<longleftrightarrow> a = b"
  by (cases a; cases b) simp_all

instantiation TxState :: linorder
begin

definition less_eq_TxState :: "TxState \<Rightarrow> TxState \<Rightarrow> bool" where
  "less_eq_TxState a b \<longleftrightarrow> iota a \<le> iota b"

definition less_TxState :: "TxState \<Rightarrow> TxState \<Rightarrow> bool" where
  "less_TxState a b \<longleftrightarrow> iota a < iota b"

instance
  by standard (auto simp: less_eq_TxState_def less_TxState_def iota_inject)

end

record TronTx =
  FromAddress :: bytes
  ContractAddress :: bytes
  Method :: string
  Params :: "goval list"
  Attempt :: uint64
  OutOfTimeErrors :: uint64
  EnergyBumpTimes :: uint32
  ID :: string
  State :: TxState
  CreateTs :: gtime

type_synonym txref = nat
type_synonym heap = "txref \<Rightarrow> TronTx"

record InflightTx =
  inf_Hash :: string
  inf_ExpirationMs :: int64
  inf_Tx :: txref

record FinishedTx =
  fin_Hash :: string
  fin_Tx :: txref
  fin_RetentionTs :: gtime

record TxStore =
  hashToId :: "string \<rightharpoonup> string"
  pendingTxs :: "string \<rightharpoonup> txref"
  unconfirmedTxs :: "string \<rightharpoonup> InflightTx"
  confirmedTxs :: "string \<rightharpoonup> InflightTx"
  finishedTxs :: "string \<rightharpoonup> FinishedTx"

type_synonym store_state = "heap \<times> TxStore"

datatype store_error =
    RetryDoesNotExist string
  | NotPending string
  | AlreadyExists string
  | HashAlreadyExists string
  | NoSuchPending string
  | NoSuchUnconfirmed string
  | NotBroadcasted TxState string
  | NoSuchUnconfirmedOrConfirmed string
  | NoSuchConfirmed string

definition NewTxStore :: TxStore where
  "NewTxStore = \<lparr>hashToId = Map.empty, pendingTxs = Map.empty, unconfirmedTxs = Map.empty,
     confirmedTxs = Map.empty, finishedTxs = Map.empty\<rparr>"

text \<open>The assignment \<open>tx.State = st\<close> through the pointer \<open>r\<close>.\<close>

definition set_State :: "txref \<Rightarrow> TxState \<Rightarrow> heap \<Rightarrow> heap" where
  "set_State r st h = h(r := (h r)\<lparr>State := st\<rparr>)"

subsection \<open>Operations\<close>

text \<open>
  The tail of \<open>OnPending\<close>, after the retry branch: the two guards and the insertion.
\<close>

definition insert_pending :: "txref \<Rightarrow> store_state \<Rightarrow> store_state \<times> store_error option" where
  "insert_pending r = (\<lambda>(h, s).
     let tx = h r in
     if State tx \<noteq> Pending then ((h, s), Some (NotPending (ID tx)))
     else if pendingTxs s (ID tx) \<noteq> None then ((h, s), Some (AlreadyExists (ID tx)))
     else ((h, s\<lparr>pendingTxs := (pendingTxs s)(ID tx \<mapsto> r)\<rparr>), None))"

text \<open>
  In the retry branch the code reads \<open>pt.Hash\<close> before it tests \<open>txExists\<close>: with no unconfirmed
  entry \<open>pt\<close> is the nil pointer and the read panics.
\<close>

definition OnPending :: "txref \<Rightarrow> bool \<Rightarrow> store_state \<Rightarrow> (store_state \<times> store_error option) outcome" where
  "OnPending r retry = (\<lambda>(h, s).
     if retry then
       (case unconfirmedTxs s (ID (h r)) of
          None \<Rightarrow> Panic
        | Some pt \<Rightarrow>
            if hashToId s (inf_Hash pt) = None
            then Done ((h, s), Some (RetryDoesNotExist (ID (h r))))
            else Done (insert_pending r
                   (h, s\<lparr>hashToId := map_delete (inf_Hash pt) (hashToId s),
                        unconfirmedTxs := map_delete (ID (h r)) (unconfirmedTxs s)\<rparr>)))
     else Done (insert_pending r (h, s)))"

definition OnBroadcasted :: "string \<Rightarrow> int64 \<Rightarrow> txref \<Rightarrow> store_state \<Rightarrow> store_state \<times> store_error option" where
  "OnBroadcasted hash expirationMs r = (\<lambda>(h, s).
     if hashToId s hash \<noteq> None then ((h, s), Some (HashAlreadyExists (ID (h r))))
     else if pendingTxs s (ID (h r)) = None then ((h, s), Some (NoSuchPending (ID (h r))))
     else
       ((set_State r Broadcasted h,
         s\<lparr>hashToId := (hashToId s)(hash \<mapsto> ID (h r)),
           unconfirmedTxs := (unconfirmedTxs s)
             (ID (h r) \<mapsto> \<lparr>inf_Hash = hash, inf_ExpirationMs = expirationMs, inf_Tx = r\<rparr>),
           pendingTxs := map_delete (ID (h r)) (pendingTxs s)\<rparr>), None))"

definition OnConfirmed :: "string \<Rightarrow> store_state \<Rightarrow> store_state \<times> store_error option" where
  "OnConfirmed i = (\<lambda>(h, s).
     case unconfirmedTxs s i of
       None \<Rightarrow> ((h, s), Some (NoSuchUnconfirmed i))
     | Some tx \<Rightarrow>
         if State (h (inf_Tx tx)) \<noteq> Broadcasted
         then ((h, s), Some (NotBroadcasted (State (h (inf_Tx tx))) i))
         else
           ((set_State (inf_Tx tx) Confirmed h,
             s\<lparr>unconfirmedTxs := map_delete i (unconfirmedTxs s),
               confirmedTxs := (confirmedTxs s)(i \<mapsto> tx)\<rparr>), None))"

definition finish :: "gtime \<Rightarrow> InflightTx \<Rightarrow> FinishedTx" where
  "finish now pt = \<lparr>fin_Hash = inf_Hash pt, fin_Tx = inf_Tx pt, fin_RetentionTs = now\<rparr>"

definition OnErrored :: "gtime \<Rightarrow> string \<Rightarrow> store_state \<Rightarrow> store_state \<times> store_error option" where
  "OnErrored now i = (\<lambda>(h, s).
     case unconfirmedTxs s i of
       Some pt \<Rightarrow>
         ((set_State (inf_Tx pt) Errored h,
           s\<lparr>hashToId := map_delete (inf_Hash pt) (hashToId s),
             unconfirmedTxs := map_delete i (unconfirmedTxs s),
             finishedTxs := (finishedTxs s)(i \<mapsto> finish now pt)\<rparr>), None)
     | None \<Rightarrow>
         (case confirmedTxs s i of
            Some pt \<Rightarrow>
              ((set_State (inf_Tx pt) Errored h,
                s\<lparr>confirmedTxs := map_delete i (confirmedTxs s),
                  hashToId := map_delete (inf_Hash pt) (hashToId s),
                  finishedTxs := (finishedTxs s)(i \<mapsto> finish now pt)\<rparr>), None)
          | None \<Rightarrow> ((h, s), Some (NoSuchUnconfirmedOrConfirmed i))))"

definition OnFatalError :: "gtime \<Rightarrow> string \<Rightarrow> store_state \<Rightarrow> store_state \<times> store_error option" where
  "OnFatalError now i = (\<lambda>(h, s).
     case unconfirmedTxs s i of
       Some pt \<Rightarrow>
         ((set_State (inf_Tx pt) FatallyErrored h,
           s\<lparr>unconfirmedTxs := map_delete i (unconfirmedTxs s),
             finishedTxs := (finishedTxs s)(i \<mapsto> finish now pt)\<rparr>), None)
     | None \<Rightarrow>
         (case confirmedTxs s i of
            Some pt \<Rightarrow>
              ((set_State (inf_Tx pt) FatallyErrored h,
                s\<lparr>confirmedTxs := map_delete i (confirmedTxs s),
                  finishedTxs := (finishedTxs s)(i \<mapsto> finish now pt)\<rparr>), None)
          | None \<Rightarrow> ((h, s), Some (NoSuchUnconfirmedOrConfirmed i))))"

definition OnReorg :: "string \<Rightarrow> store_state \<Rightarrow> store_state \<times> store_error option" where
  "OnReorg i = (\<lambda>(h, s).
     case confirmedTxs s i of
       None \<Rightarrow> ((h, s), Some (NoSuchConfirmed i))
     | Some pt \<Rightarrow>
         ((set_State (inf_Tx pt) Pending h,
           s\<lparr>confirmedTxs := map_delete i (confirmedTxs s),
             hashToId := map_delete (inf_Hash pt) (hashToId s),
             pendingTxs := (pendingTxs s)(i \<mapsto> inf_Tx pt)\<rparr>), None))"

definition OnFinalized :: "gtime \<Rightarrow> string \<Rightarrow> store_state \<Rightarrow> store_state \<times> store_error option" where
  "OnFinalized now i = (\<lambda>(h, s).
     case confirmedTxs s i of
       None \<Rightarrow> ((h, s), Some (NoSuchConfirmed i))
     | Some pt \<Rightarrow>
         ((set_State (inf_Tx pt) Finalized h,
           s\<lparr>confirmedTxs := map_delete i (confirmedTxs s),
             finishedTxs := (finishedTxs s)(i \<mapsto> finish now pt)\<rparr>), None))"

fun DeleteFinishedTxs :: "string list \<Rightarrow> TxStore \<Rightarrow> TxStore \<times> nat" where
  "DeleteFinishedTxs [] s = (s, 0)"
| "DeleteFinishedTxs (i # ids) s =
     (case finishedTxs s i of
        Some ft \<Rightarrow>
          (let (s', n) = DeleteFinishedTxs ids
                 (s\<lparr>finishedTxs := map_delete i (finishedTxs s),
                    hashToId := map_delete (fin_Hash ft) (hashToId s)\<rparr>)
           in (s', Suc n))
      | None \<Rightarrow> DeleteFinishedTxs ids s)"

subsection \<open>Queries\<close>

text \<open>
  \<open>sort.Slice\<close> is not stable and \<open>maps.Values\<close> has no fixed order: a stable sort over an
  arbitrary key order \<open>ks\<close> yields every result they can.
\<close>

definition GetUnconfirmed :: "string list \<Rightarrow> TxStore \<Rightarrow> InflightTx list" where
  "GetUnconfirmed ks s = sort_key (\<lambda>a. sint (inf_ExpirationMs a)) (map_values ks (unconfirmedTxs s))"

definition GetConfirmed :: "string list \<Rightarrow> TxStore \<Rightarrow> InflightTx list" where
  "GetConfirmed ks s = sort_key (\<lambda>a. sint (inf_ExpirationMs a)) (map_values ks (confirmedTxs s))"

definition GetFinished :: "string list \<Rightarrow> TxStore \<Rightarrow> FinishedTx list" where
  "GetFinished ks s = sort_key fin_RetentionTs (map_values ks (finishedTxs s))"

definition Has :: "string \<Rightarrow> TxStore \<Rightarrow> bool" where
  "Has i s \<longleftrightarrow> pendingTxs s i \<noteq> None \<or> unconfirmedTxs s i \<noteq> None
     \<or> confirmedTxs s i \<noteq> None \<or> finishedTxs s i \<noteq> None"

definition InflightCount :: "TxStore \<Rightarrow> nat" where
  "InflightCount s = card (dom (unconfirmedTxs s))"

definition FinishedCount :: "TxStore \<Rightarrow> nat" where
  "FinishedCount s = card (dom (finishedTxs s))"

definition GetStatus :: "string \<Rightarrow> store_state \<Rightarrow> TxState option" where
  "GetStatus i = (\<lambda>(h, s).
     case pendingTxs s i of Some r \<Rightarrow> Some (State (h r))
     | None \<Rightarrow> (case unconfirmedTxs s i of Some pt \<Rightarrow> Some (State (h (inf_Tx pt)))
     | None \<Rightarrow> (case confirmedTxs s i of Some pt \<Rightarrow> Some (State (h (inf_Tx pt)))
     | None \<Rightarrow> (case finishedTxs s i of Some ft \<Rightarrow> Some (State (h (fin_Tx ft)))
     | None \<Rightarrow> None))))"

end
