(* ===== verification/TxStore_Inv.thy ===== *)
theory TxStore_Inv
  imports TxStore
begin

text \<open>
  The invariant of one \<open>TxStore\<close> and its preservation by every operation.

  \<open>id_ok\<close> is the part about one ID: it is in at most one table, its entry's transaction has that
  ID and a \<open>State\<close> field that names the table, the hash of an in-flight entry is registered under
  the ID, and the hash of a finished entry is not registered for another ID. \<open>no_stray_hash\<close>: every
  registered hash belongs to an entry of the ID it is registered for.
\<close>

subsection \<open>The invariant\<close>

definition holds_in :: "heap \<Rightarrow> TxState set \<Rightarrow> string \<Rightarrow> txref \<Rightarrow> bool" where
  "holds_in h S i r \<longleftrightarrow> ID (h r) = i \<and> State (h r) \<in> S"

definition finished_states :: "TxState set" where
  "finished_states = {Errored, FatallyErrored, Finalized}"

definition id_ok :: "heap \<Rightarrow> TxStore \<Rightarrow> string \<Rightarrow> bool" where
  "id_ok h s i \<longleftrightarrow>
     (\<forall>r. pendingTxs s i = Some r \<longrightarrow> holds_in h {Pending} i r
        \<and> unconfirmedTxs s i = None \<and> confirmedTxs s i = None \<and> finishedTxs s i = None)
   \<and> (\<forall>p. unconfirmedTxs s i = Some p \<longrightarrow> holds_in h {Broadcasted} i (inf_Tx p)
        \<and> confirmedTxs s i = None \<and> finishedTxs s i = None
        \<and> hashToId s (inf_Hash p) = Some i)
   \<and> (\<forall>p. confirmedTxs s i = Some p \<longrightarrow> holds_in h {Confirmed} i (inf_Tx p)
        \<and> finishedTxs s i = None \<and> hashToId s (inf_Hash p) = Some i)
   \<and> (\<forall>f. finishedTxs s i = Some f \<longrightarrow> holds_in h finished_states i (fin_Tx f)
        \<and> hashToId s (fin_Hash f) \<in> {None, Some i})"

definition carries_hash :: "TxStore \<Rightarrow> string \<Rightarrow> string \<Rightarrow> bool" where
  "carries_hash s hash i \<longleftrightarrow>
     (\<exists>p. unconfirmedTxs s i = Some p \<and> inf_Hash p = hash)
   \<or> (\<exists>p. confirmedTxs s i = Some p \<and> inf_Hash p = hash)
   \<or> (\<exists>f. finishedTxs s i = Some f \<and> fin_Hash f = hash)"

definition no_stray_hash :: "TxStore \<Rightarrow> bool" where
  "no_stray_hash s \<longleftrightarrow> (\<forall>hash i. hashToId s hash = Some i \<longrightarrow> carries_hash s hash i)"

fun store_inv :: "store_state \<Rightarrow> bool" where
  "store_inv (h, s) \<longleftrightarrow> (\<forall>i. id_ok h s i) \<and> no_stray_hash s"

declare store_inv.simps [simp del]

lemma store_inv_id_ok: "store_inv (h, s) \<Longrightarrow> id_ok h s i"
  unfolding store_inv.simps by blast

lemma store_inv_no_stray: "store_inv (h, s) \<Longrightarrow> hashToId s x = Some i \<Longrightarrow> carries_hash s x i"
  unfolding store_inv.simps no_stray_hash_def by blast

lemma store_invI:
  "(\<And>i. id_ok h s i) \<Longrightarrow> (\<And>x i. hashToId s x = Some i \<Longrightarrow> carries_hash s x i) \<Longrightarrow> store_inv (h, s)"
  unfolding store_inv.simps no_stray_hash_def by blast

lemmas store_inv_defs [inv_defs] =
  id_ok_def carries_hash_def holds_in_def finished_states_def

text \<open>The transactions a store refers to; an operation writes to no other part of the heap.\<close>

definition store_refs :: "TxStore \<Rightarrow> txref set" where
  "store_refs s = ran (pendingTxs s) \<union> inf_Tx ` ran (unconfirmedTxs s)
     \<union> inf_Tx ` ran (confirmedTxs s) \<union> fin_Tx ` ran (finishedTxs s)"

subsection \<open>Heap updates\<close>

lemma set_State_same [simp]: "State (set_State r st h r) = st"
  by (simp add: set_State_def)

lemma set_State_other [simp]: "r' \<noteq> r \<Longrightarrow> set_State r st h r' = h r'"
  by (simp add: set_State_def)

lemma set_State_State: "State (set_State r st h r') = (if r' = r then st else State (h r'))"
  by (simp add: set_State_def)

lemma set_State_ID [simp]: "ID (set_State r st h r') = ID (h r')"
  by (simp add: set_State_def)

lemma set_State_FromAddress [simp]: "FromAddress (set_State r st h r') = FromAddress (h r')"
  by (simp add: set_State_def)

lemma set_State_Attempt [simp]: "Attempt (set_State r st h r') = Attempt (h r')"
  by (simp add: set_State_def)

lemma set_State_OutOfTimeErrors [simp]:
  "OutOfTimeErrors (set_State r st h r') = OutOfTimeErrors (h r')"
  by (simp add: set_State_def)

lemma set_State_EnergyBumpTimes [simp]:
  "EnergyBumpTimes (set_State r st h r') = EnergyBumpTimes (h r')"
  by (simp add: set_State_def)

subsection \<open>Framing\<close>

text \<open>
  An operation on one ID leaves the part of the invariant about every other ID alone, if it
  leaves that ID's entries, its transactions and its hashes alone.
\<close>

lemma id_ok_frame:
  assumes "id_ok h s j"
    and "pendingTxs s' j = pendingTxs s j" "unconfirmedTxs s' j = unconfirmedTxs s j"
    and "confirmedTxs s' j = confirmedTxs s j" "finishedTxs s' j = finishedTxs s j"
    and "\<And>r. ID (h r) = j \<Longrightarrow> ID (h' r) = j \<and> State (h' r) = State (h r)"
    and "\<And>x. hashToId s x = Some j \<Longrightarrow> hashToId s' x = Some j"
    and "\<And>f. finishedTxs s j = Some f \<Longrightarrow> hashToId s (fin_Hash f) = None \<Longrightarrow>
           hashToId s' (fin_Hash f) \<in> {None, Some j}"
  shows "id_ok h' s' j"
  using assms unfolding id_ok_def holds_in_def by (metis insert_iff singletonD)

lemma carries_hash_frame:
  assumes "unconfirmedTxs s' j = unconfirmedTxs s j" "confirmedTxs s' j = confirmedTxs s j"
    "finishedTxs s' j = finishedTxs s j"
  shows "carries_hash s' x j \<longleftrightarrow> carries_hash s x j"
  using assms by (simp add: carries_hash_def)

text \<open>The invariant looks at the ID and State fields of the transactions the store refers to.\<close>

lemma store_inv_heap_cong:
  assumes "\<And>r. r \<in> store_refs s \<Longrightarrow> ID (h' r) = ID (h r) \<and> State (h' r) = State (h r)"
    and "store_inv (h, s)"
  shows "store_inv (h', s)"
proof -
  have "id_ok h' s i" if ok: "id_ok h s i" for i
  proof -
    have "r \<in> store_refs s" if "pendingTxs s i = Some r" for r
      using that by (auto simp: store_refs_def ran_def)
    moreover have "inf_Tx p \<in> store_refs s"
      if "unconfirmedTxs s i = Some p \<or> confirmedTxs s i = Some p" for p
      using that unfolding store_refs_def ran_def by blast
    moreover have "fin_Tx f \<in> store_refs s" if "finishedTxs s i = Some f" for f
      using that unfolding store_refs_def ran_def by blast
    ultimately show ?thesis using ok assms(1) by (simp add: id_ok_def holds_in_def)
  qed
  then show ?thesis using assms(2)
    by (blast intro: store_invI dest: store_inv_id_ok store_inv_no_stray)
qed

subsection \<open>Preservation, operation by operation\<close>

lemma store_inv_New: "store_inv (h, NewTxStore)"
  by (rule store_invI) (simp_all add: NewTxStore_def store_inv_defs)

text \<open>
  The shape shared by all operations: they change the entries of one ID \<open>i\<close> and the state of
  transactions with that ID.
\<close>

lemma store_inv_update:
  assumes inv: "store_inv (h, s)"
    and tables: "\<And>j. j \<noteq> i \<Longrightarrow> pendingTxs s' j = pendingTxs s j \<and> unconfirmedTxs s' j = unconfirmedTxs s j
           \<and> confirmedTxs s' j = confirmedTxs s j \<and> finishedTxs s' j = finishedTxs s j"
    and heap: "\<And>r. ID (h r) \<noteq> i \<Longrightarrow> h' r = h r"
    and keep: "\<And>x j. j \<noteq> i \<Longrightarrow> hashToId s x = Some j \<Longrightarrow> hashToId s' x = Some j"
    and new: "\<And>x j. hashToId s' x = Some j \<Longrightarrow> hashToId s x \<noteq> Some j \<Longrightarrow>
           j = i \<and> (\<forall>k f. k \<noteq> i \<longrightarrow> finishedTxs s k = Some f \<longrightarrow> fin_Hash f \<noteq> x)"
    and own: "id_ok h' s' i"
    and carries: "\<And>x. hashToId s' x = Some i \<Longrightarrow> carries_hash s' x i"
  shows "store_inv (h', s')"
proof -
  have "id_ok h' s' j" if "j \<noteq> i" for j
  proof (rule id_ok_frame)
    show "id_ok h s j" using inv by (rule store_inv_id_ok)
    show "ID (h' r) = j \<and> State (h' r) = State (h r)" if "ID (h r) = j" for r
      using that \<open>j \<noteq> i\<close> heap [of r] by simp
    show "hashToId s' (fin_Hash f) \<in> {None, Some j}"
      if "finishedTxs s j = Some f" "hashToId s (fin_Hash f) = None" for f
      using that \<open>j \<noteq> i\<close> new [of "fin_Hash f"] by (cases "hashToId s' (fin_Hash f)") auto
  qed (use that tables keep in auto)
  moreover have "carries_hash s' x j" if "hashToId s' x = Some j" for x j
  proof (cases "j = i")
    case True
    then show ?thesis using carries that by simp
  next
    case False
    then have "hashToId s x = Some j" using new that by blast
    then have "carries_hash s x j" using inv by (simp add: store_inv_no_stray)
    then show ?thesis using tables [OF False] carries_hash_frame by blast
  qed
  ultimately show ?thesis using own by (metis store_invI)
qed

text \<open>The two shapes of the hash table that occur: unchanged, or with a hash of \<open>i\<close> removed.\<close>

lemma store_inv_update_same:
  assumes "store_inv (h, s)"
    and "\<And>j. j \<noteq> i \<Longrightarrow> pendingTxs s' j = pendingTxs s j \<and> unconfirmedTxs s' j = unconfirmedTxs s j
           \<and> confirmedTxs s' j = confirmedTxs s j \<and> finishedTxs s' j = finishedTxs s j"
    and "\<And>r. ID (h r) \<noteq> i \<Longrightarrow> h' r = h r"
    and "hashToId s' = hashToId s"
    and "id_ok h' s' i"
    and "\<And>x. hashToId s x = Some i \<Longrightarrow> carries_hash s' x i"
  shows "store_inv (h', s')"
  using assms(4) by (intro store_inv_update [OF assms(1-3) _ _ assms(5)]) (simp_all add: assms(6))

lemma store_inv_update_delete:
  assumes "store_inv (h, s)"
    and "\<And>j. j \<noteq> i \<Longrightarrow> pendingTxs s' j = pendingTxs s j \<and> unconfirmedTxs s' j = unconfirmedTxs s j
           \<and> confirmedTxs s' j = confirmedTxs s j \<and> finishedTxs s' j = finishedTxs s j"
    and "\<And>r. ID (h r) \<noteq> i \<Longrightarrow> h' r = h r"
    and "hashToId s' = map_delete y (hashToId s)" and "hashToId s y \<in> {None, Some i}"
    and "id_ok h' s' i"
    and "\<And>x. hashToId s x = Some i \<Longrightarrow> x \<noteq> y \<Longrightarrow> carries_hash s' x i"
  shows "store_inv (h', s')"
  using assms(4,5) by (intro store_inv_update [OF assms(1-3) _ _ assms(6)]) (auto simp: assms(7) split: if_splits)

lemma set_State_only: "ID (h r0) = i \<Longrightarrow> ID (h r) \<noteq> i \<Longrightarrow> set_State r0 st h r = h r"
  by (auto simp: set_State_def)

lemmas store_inv_move_same =
  store_inv_update_same [where h' = "set_State r0 st h" for r0 st h, OF _ _ set_State_only]

lemmas store_inv_move_delete =
  store_inv_update_delete [where h' = "set_State r0 st h" for r0 st h, OF _ _ set_State_only]

text \<open>What the invariant says of the ID of an entry, one fact per table.\<close>

lemma pending_facts:
  assumes "store_inv (h, s)" and "pendingTxs s i = Some r"
  shows "ID (h r) = i" "State (h r) = Pending" "unconfirmedTxs s i = None" "confirmedTxs s i = None"
    "finishedTxs s i = None" "hashToId s x \<noteq> Some i"
  using store_inv_id_ok [OF assms(1), of i] store_inv_no_stray [OF assms(1), of x i] assms(2)
  by (auto simp: id_ok_def holds_in_def carries_hash_def)

lemma unconfirmed_facts:
  assumes "store_inv (h, s)" and "unconfirmedTxs s i = Some p"
  shows "ID (h (inf_Tx p)) = i" "State (h (inf_Tx p)) = Broadcasted" "pendingTxs s i = None"
    "confirmedTxs s i = None" "finishedTxs s i = None"
    "hashToId s (inf_Hash p) = Some i"
  using store_inv_id_ok [OF assms(1), of i] assms(2)
  by (auto simp: id_ok_def holds_in_def carries_hash_def)

lemma confirmed_facts:
  assumes "store_inv (h, s)" and "confirmedTxs s i = Some p"
  shows "ID (h (inf_Tx p)) = i" "State (h (inf_Tx p)) = Confirmed" "pendingTxs s i = None"
    "unconfirmedTxs s i = None" "finishedTxs s i = None"
    "hashToId s (inf_Hash p) = Some i"
  using store_inv_id_ok [OF assms(1), of i] assms(2)
  by (auto simp: id_ok_def holds_in_def carries_hash_def)

lemma finished_facts:
  assumes "store_inv (h, s)" and "finishedTxs s i = Some f"
  shows "ID (h (fin_Tx f)) = i" "State (h (fin_Tx f)) \<in> finished_states" "pendingTxs s i = None"
    "unconfirmedTxs s i = None" "confirmedTxs s i = None"
    "hashToId s (fin_Hash f) \<in> {None, Some i}"
  using store_inv_id_ok [OF assms(1), of i] assms(2)
  by (auto simp: id_ok_def holds_in_def carries_hash_def)

lemma entry_hash_unique:
  assumes "store_inv (h, s)" and "hashToId s x = Some i"
  shows "unconfirmedTxs s i = Some p \<Longrightarrow> x = inf_Hash p"
    and "confirmedTxs s i = Some p \<Longrightarrow> x = inf_Hash p"
    and "finishedTxs s i = Some f \<Longrightarrow> x = fin_Hash f"
  using store_inv_no_stray [OF assms] store_inv_id_ok [OF assms(1), of i]
  by (auto simp: carries_hash_def id_ok_def)

lemma untracked_facts:
  assumes "store_inv (h, s)" and "\<not> Has i s"
  shows "pendingTxs s i = None" "unconfirmedTxs s i = None" "confirmedTxs s i = None"
    "finishedTxs s i = None" "hashToId s x \<noteq> Some i"
  using store_inv_no_stray [OF assms(1), of x i] assms(2)
  by (auto simp: Has_def carries_hash_def)

lemmas store_inv_entry_simps = store_inv_defs set_State_def finish_def

lemma store_inv_OnConfirmed:
  assumes "store_inv (h, s)"
  shows "store_inv (fst (OnConfirmed i (h, s)))"
proof (cases "unconfirmedTxs s i")
  case None
  then show ?thesis using assms by (simp add: OnConfirmed_def)
next
  case (Some p)
  note facts = unconfirmed_facts [OF assms Some]
  show ?thesis
    using Some facts
    by (simp add: OnConfirmed_def, intro store_inv_move_same [OF assms, of i])
      (auto simp: store_inv_entry_simps dest: entry_hash_unique [OF assms])
qed

lemma store_inv_OnFinalized:
  assumes "store_inv (h, s)"
  shows "store_inv (fst (OnFinalized now i (h, s)))"
proof (cases "confirmedTxs s i")
  case None
  then show ?thesis using assms by (simp add: OnFinalized_def)
next
  case (Some p)
  note facts = confirmed_facts [OF assms Some]
  show ?thesis
    using Some facts
    by (simp add: OnFinalized_def, intro store_inv_move_same [OF assms, of i])
      (auto simp: store_inv_entry_simps dest: entry_hash_unique [OF assms])
qed

lemma store_inv_OnReorg:
  assumes "store_inv (h, s)"
  shows "store_inv (fst (OnReorg i (h, s)))"
proof (cases "confirmedTxs s i")
  case None
  then show ?thesis using assms by (simp add: OnReorg_def)
next
  case (Some p)
  note facts = confirmed_facts [OF assms Some]
  show ?thesis
    using Some facts
    by (simp add: OnReorg_def, intro store_inv_move_delete [OF assms, of i])
      (auto simp: store_inv_entry_simps dest: entry_hash_unique [OF assms])
qed

lemma store_inv_OnErrored:
  assumes "store_inv (h, s)"
  shows "store_inv (fst (OnErrored now i (h, s)))"
proof (cases "unconfirmedTxs s i")
  case (Some p)
  note facts = unconfirmed_facts [OF assms Some]
  show ?thesis
    using Some facts
    by (simp add: OnErrored_def, intro store_inv_move_delete [OF assms, of i])
      (auto simp: store_inv_entry_simps dest: entry_hash_unique [OF assms])
next
  case None
  note unconfirmed = None
  show ?thesis
  proof (cases "confirmedTxs s i")
    case None
    then show ?thesis using assms unconfirmed by (simp add: OnErrored_def)
  next
    case (Some p)
    note facts = confirmed_facts [OF assms Some]
    show ?thesis
      using unconfirmed Some facts
    by (simp add: OnErrored_def, intro store_inv_move_delete [OF assms, of i])
      (auto simp: store_inv_entry_simps dest: entry_hash_unique [OF assms])
  qed
qed

lemma store_inv_OnFatalError:
  assumes "store_inv (h, s)"
  shows "store_inv (fst (OnFatalError now i (h, s)))"
proof (cases "unconfirmedTxs s i")
  case (Some p)
  note facts = unconfirmed_facts [OF assms Some]
  show ?thesis
    using Some facts
    by (simp add: OnFatalError_def, intro store_inv_move_same [OF assms, of i])
      (auto simp: store_inv_entry_simps dest: entry_hash_unique [OF assms])
next
  case None
  note unconfirmed = None
  show ?thesis
  proof (cases "confirmedTxs s i")
    case None
    then show ?thesis using assms unconfirmed by (simp add: OnFatalError_def)
  next
    case (Some p)
    note facts = confirmed_facts [OF assms Some]
    show ?thesis
      using unconfirmed Some facts
    by (simp add: OnFatalError_def, intro store_inv_move_same [OF assms, of i])
      (auto simp: store_inv_entry_simps dest: entry_hash_unique [OF assms])
  qed
qed

text \<open>
  The two operations with a client obligation. A new pending transaction must not carry an ID
  the store already tracks in another table (\<open>OnPending\<close> itself looks at the pending table only);
  the hash of a broadcast transaction must not be the hash of a finished one (\<open>OnErrored\<close> has
  unregistered that hash already, so \<open>OnBroadcasted\<close> cannot see it).
\<close>

definition hash_fresh :: "TxStore \<Rightarrow> string \<Rightarrow> bool" where
  "hash_fresh s x \<longleftrightarrow> (\<forall>i f. finishedTxs s i = Some f \<longrightarrow> fin_Hash f \<noteq> x)"

lemma store_inv_OnPending:
  assumes "store_inv (h, s)" and "\<not> Has (ID (h r)) s" and "State (h r) = Pending"
  shows "OnPending r False (h, s) = Done ((h, s\<lparr>pendingTxs := (pendingTxs s)(ID (h r) \<mapsto> r)\<rparr>), None)"
    and "store_inv (h, s\<lparr>pendingTxs := (pendingTxs s)(ID (h r) \<mapsto> r)\<rparr>)"
proof -
  note facts = untracked_facts [OF assms(1,2)]
  show "OnPending r False (h, s) = Done ((h, s\<lparr>pendingTxs := (pendingTxs s)(ID (h r) \<mapsto> r)\<rparr>), None)"
    using facts assms(3) by (simp add: OnPending_def insert_pending_def)
  show "store_inv (h, s\<lparr>pendingTxs := (pendingTxs s)(ID (h r) \<mapsto> r)\<rparr>)"
    using facts assms(3)
    by (auto simp: store_inv_entry_simps intro!: store_inv_update [OF assms(1), of "ID (h r)"])
qed

lemma store_inv_OnBroadcasted:
  assumes "store_inv (h, s)" and "pendingTxs s i = Some r" and "hash_fresh s x"
  shows "store_inv (fst (OnBroadcasted x e r (h, s)))"
proof (cases "hashToId s x = None")
  case False
  then show ?thesis using assms by (simp add: OnBroadcasted_def)
next
  case True
  note facts = pending_facts [OF assms(1,2)]
  have other: "ID (h r') \<noteq> i \<Longrightarrow> set_State r Broadcasted h r' = h r'" for r'
    using facts(1) by (rule set_State_only)
  show ?thesis
    using True assms(2,3) facts
    by (simp add: OnBroadcasted_def, intro store_inv_update [OF assms(1), of i] other)
      (auto simp: hash_fresh_def store_inv_entry_simps split: if_splits)
qed

text \<open>
  \<open>maybeRetry\<close> sets the state to \<open>Pending\<close> before it calls \<open>OnPending\<close>; the two together keep the
  invariant, succeed and do not panic.
\<close>

definition retried :: "string \<Rightarrow> InflightTx \<Rightarrow> TxStore \<Rightarrow> TxStore" where
  "retried i p s = s\<lparr>hashToId := map_delete (inf_Hash p) (hashToId s),
     unconfirmedTxs := map_delete i (unconfirmedTxs s),
     pendingTxs := (pendingTxs s)(i \<mapsto> inf_Tx p)\<rparr>"

lemma OnPending_retry:
  assumes "store_inv (h, s)" and "unconfirmedTxs s i = Some p"
    and "ID (h' (inf_Tx p)) = i" and "State (h' (inf_Tx p)) = Pending"
  shows "OnPending (inf_Tx p) True (h', s) = Done ((h', retried i p s), None)"
proof -
  note facts = unconfirmed_facts [OF assms(1,2)]
  show ?thesis using facts assms by (simp add: OnPending_def insert_pending_def retried_def)
qed

lemma store_inv_retry:
  assumes "store_inv (h, s)" and "unconfirmedTxs s i = Some p"
    and "ID (h' (inf_Tx p)) = i" and "State (h' (inf_Tx p)) = Pending"
    and "\<And>r. r \<noteq> inf_Tx p \<Longrightarrow> h' r = h r"
  shows "store_inv (h', retried i p s)"
proof -
  note facts = unconfirmed_facts [OF assms(1,2)]
  have other: "ID (h r) \<noteq> i \<Longrightarrow> h' r = h r" for r using assms(5) [of r] facts(1) by blast
  show ?thesis
    unfolding retried_def using facts assms(2-4)
    by (intro store_inv_update_delete [OF assms(1), of i] other)
      (auto simp: store_inv_entry_simps dest: entry_hash_unique(1) [OF assms(1)])
qed

lemma store_inv_reap_one:
  assumes "store_inv (h, s)" and "finishedTxs s i = Some f"
  shows "store_inv (h, s\<lparr>finishedTxs := map_delete i (finishedTxs s),
    hashToId := map_delete (fin_Hash f) (hashToId s)\<rparr>)"
proof -
  note facts = finished_facts [OF assms]
  show ?thesis using facts assms(2)
    by (intro store_inv_update_delete [OF assms(1), of i])
      (auto simp: store_inv_entry_simps dest: entry_hash_unique(3) [OF assms(1)])
qed

lemma store_inv_DeleteFinishedTxs:
  "store_inv (h, s) \<Longrightarrow> store_inv (h, fst (DeleteFinishedTxs ids s))"
proof (induction ids arbitrary: s)
  case Nil
  then show ?case by simp
next
  case (Cons i ids)
  then show ?case
    by (cases "finishedTxs s i") (auto simp: split_beta Let_def dest: store_inv_reap_one)
qed

end
