(* ===== verification/TxStore_Spec.thy ===== *)
theory TxStore_Spec
  imports TxStore_Inv
begin

text \<open>
  What a \<open>TxStore\<close> promises: one lifecycle state per transaction ID, moved by events. The
  locale \<open>lifecycle_store\<close> is the interface the transaction manager relies on; it is interpreted
  on the operations of \<open>TxStore\<close>, whose laws are the simulation lemmas of this theory.
\<close>

subsection \<open>The abstract lifecycle\<close>

text \<open>
  The keys are transaction IDs for one \<open>TxStore\<close>, and pairs of an account and an ID for the
  \<open>AccountStore\<close>.
\<close>

datatype lifecycle_event =
  Submit | Broadcast | Confirm | Retry | Fail | Fatal | Reorg | Finalize | Reap

text \<open>\<open>None\<close> is a refused event; \<open>Some None\<close> is an ID that is no longer tracked.\<close>

fun lifecycle :: "lifecycle_event \<Rightarrow> TxState option \<Rightarrow> TxState option option" where
  "lifecycle Submit None = Some (Some Pending)"
| "lifecycle Broadcast (Some Pending) = Some (Some Broadcasted)"
| "lifecycle Confirm (Some Broadcasted) = Some (Some Confirmed)"
| "lifecycle Retry (Some Broadcasted) = Some (Some Pending)"
| "lifecycle Fail (Some Broadcasted) = Some (Some Errored)"
| "lifecycle Fail (Some Confirmed) = Some (Some Errored)"
| "lifecycle Fatal (Some Broadcasted) = Some (Some FatallyErrored)"
| "lifecycle Fatal (Some Confirmed) = Some (Some FatallyErrored)"
| "lifecycle Reorg (Some Confirmed) = Some (Some Pending)"
| "lifecycle Finalize (Some Confirmed) = Some (Some Finalized)"
| "lifecycle Reap (Some Errored) = Some None"
| "lifecycle Reap (Some FatallyErrored) = Some None"
| "lifecycle Reap (Some Finalized) = Some None"
| "lifecycle _ _ = None"

definition spec_status :: "lifecycle_event \<Rightarrow> 'k \<Rightarrow> ('k \<rightharpoonup> TxState) \<Rightarrow> ('k \<rightharpoonup> TxState)" where
  "spec_status e i m = (case lifecycle e (m i) of None \<Rightarrow> m | Some v \<Rightarrow> m(i := v))"

definition spec_accepts :: "lifecycle_event \<Rightarrow> 'k \<Rightarrow> ('k \<rightharpoonup> TxState) \<Rightarrow> bool" where
  "spec_accepts e i m \<longleftrightarrow> lifecycle e (m i) \<noteq> None"

fun_cases lifecycle_SomeE: "lifecycle e st = Some v"

text \<open>The same, one equation per event.\<close>

lemma lifecycle_eqs:
  "lifecycle Submit x = (if x = None then Some (Some Pending) else None)"
  "lifecycle Broadcast x = (if x = Some Pending then Some (Some Broadcasted) else None)"
  "lifecycle Confirm x = (if x = Some Broadcasted then Some (Some Confirmed) else None)"
  "lifecycle Retry x = (if x = Some Broadcasted then Some (Some Pending) else None)"
  "lifecycle Fail x = (if x = Some Broadcasted \<or> x = Some Confirmed then Some (Some Errored) else None)"
  "lifecycle Fatal x =
     (if x = Some Broadcasted \<or> x = Some Confirmed then Some (Some FatallyErrored) else None)"
  "lifecycle Reorg x = (if x = Some Confirmed then Some (Some Pending) else None)"
  "lifecycle Finalize x = (if x = Some Confirmed then Some (Some Finalized) else None)"
  "lifecycle Reap x = (if x \<in> Some ` finished_states then Some None else None)"
  by (cases x; cases "the x"; simp add: finished_states_def)+

lemma spec_status_other: "j \<noteq> i \<Longrightarrow> spec_status e i m j = m j"
  by (simp add: spec_status_def split: option.splits)

lemma lifecycle_finished:
  "a \<in> finished_states \<Longrightarrow> e \<noteq> Reap \<Longrightarrow> lifecycle e (Some a) = None"
  by (cases e) (auto simp: finished_states_def)

lemma spec_status_finished:
  assumes "m j = Some a" and "a \<in> finished_states" and "e \<noteq> Reap"
  shows "spec_status e i m j = Some a"
proof (cases "j = i")
  case True
  then show ?thesis using assms lifecycle_finished [OF assms(2,3)] by (simp add: spec_status_def)
next
  case False
  then show ?thesis using assms(1) by (simp add: spec_status_other)
qed

lemma spec_status_confirmed_from:
  assumes "spec_status e i m j = Some Confirmed"
  shows "m j \<in> {Some Confirmed, Some Broadcasted}"
proof (cases "j = i \<and> lifecycle e (m i) \<noteq> None")
  case True
  then obtain v where "lifecycle e (m i) = Some v" and "v = Some Confirmed"
    using assms by (auto simp: spec_status_def)
  then show ?thesis using True by (auto elim: lifecycle_SomeE)
next
  case False
  then show ?thesis using assms by (auto simp: spec_status_def split: option.splits if_splits)
qed

lemma spec_status_finalized_from:
  assumes "spec_status e i m j = Some Finalized"
  shows "m j \<in> {Some Finalized, Some Confirmed}"
proof (cases "j = i \<and> lifecycle e (m i) \<noteq> None")
  case True
  then obtain v where "lifecycle e (m i) = Some v" and "v = Some Finalized"
    using assms by (auto simp: spec_status_def)
  then show ?thesis using True by (auto elim: lifecycle_SomeE)
next
  case False
  then show ?thesis using assms by (auto simp: spec_status_def split: option.splits if_splits)
qed

subsection \<open>The interface\<close>

text \<open>A run of operations each of which meets its obligation when it is called.\<close>

fun run_allowed :: "('op \<Rightarrow> 'st \<Rightarrow> bool) \<Rightarrow> ('op \<Rightarrow> 'st \<Rightarrow> 'st outcome) \<Rightarrow> 'op list \<Rightarrow> 'st \<Rightarrow> bool" where
  "run_allowed allowed step [] st = True"
| "run_allowed allowed step (x # xs) st =
     (allowed x st \<and> (case step x st of Done st' \<Rightarrow> run_allowed allowed step xs st' | Panic \<Rightarrow> True))"

locale lifecycle_store =
  fixes inv :: "'st \<Rightarrow> bool"
    and status :: "'st \<Rightarrow> 'k \<rightharpoonup> TxState"
    and allowed :: "'op \<Rightarrow> 'st \<Rightarrow> bool"
    and step :: "'op \<Rightarrow> 'st \<Rightarrow> 'st outcome"
    and event :: "'op \<Rightarrow> lifecycle_event"
    and target :: "'op \<Rightarrow> 'st \<Rightarrow> 'k"
  assumes step_total: "inv st \<Longrightarrow> allowed x st \<Longrightarrow> \<exists>st'. step x st = Done st' \<and> inv st'"
    and step_status: "inv st \<Longrightarrow> allowed x st \<Longrightarrow> step x st = Done st' \<Longrightarrow>
      status st' = spec_status (event x) (target x st) (status st)"
    and no_reap: "event x \<noteq> Reap"
begin

lemma run_total:
  "inv st \<Longrightarrow> run_allowed allowed step xs st \<Longrightarrow> \<exists>st'. for_range step xs st = Done st' \<and> inv st'"
proof (induction xs arbitrary: st)
  case Nil
  then show ?case by simp
next
  case (Cons x xs)
  then obtain st1 where "step x st = Done st1" "inv st1" using step_total [of st x] by auto
  then show ?case using Cons by simp
qed

lemma run_invariant:
  assumes "inv st" and "run_allowed allowed step xs st" and "P (status st)"
    and keep: "\<And>x st. inv st \<Longrightarrow> allowed x st \<Longrightarrow> P (status st) \<Longrightarrow>
      P (spec_status (event x) (target x st) (status st))"
    and "for_range step xs st = Done st'"
  shows "P (status st')"
  using assms(1-3,5)
proof (induction xs arbitrary: st)
  case Nil
  then show ?case by simp
next
  case (Cons x xs)
  then obtain st1 where st1: "step x st = Done st1" "inv st1"
    using step_total [of st x] by auto
  moreover have "P (status st1)"
    using keep [of st x] step_status [of st x st1] Cons.prems st1 by simp
  ultimately show ?case using Cons by simp
qed

lemma finished_is_final:
  assumes "inv st" and "run_allowed allowed step xs st" and "for_range step xs st = Done st'"
    and "status st i = Some a" and "a \<in> finished_states"
  shows "status st' i = Some a"
  using run_invariant [OF assms(1,2), of "\<lambda>m. m i = Some a"] assms(3-5)
  by (simp add: spec_status_finished no_reap)

lemma finalized_was_confirmed:
  assumes "inv st" and "allowed x st" and "step x st = Done st'" and "status st' i = Some Finalized"
  shows "status st i \<in> {Some Finalized, Some Confirmed}"
  using assms(4) step_status [OF assms(1-3)]
    spec_status_finalized_from [of "event x" "target x st" "status st" i] by simp

end

subsection \<open>The status map of a store\<close>

definition status :: "store_state \<Rightarrow> string \<rightharpoonup> TxState" where
  "status st i = GetStatus i st"

lemma status_pending:
  "store_inv (h, s) \<Longrightarrow> pendingTxs s i = Some r \<Longrightarrow> status (h, s) i = Some Pending"
  using pending_facts [of h s i r] by (simp add: status_def GetStatus_def)

lemma status_unconfirmed:
  "store_inv (h, s) \<Longrightarrow> unconfirmedTxs s i = Some p \<Longrightarrow> status (h, s) i = Some Broadcasted"
  using unconfirmed_facts [of h s i p] by (simp add: status_def GetStatus_def)

lemma status_confirmed:
  "store_inv (h, s) \<Longrightarrow> confirmedTxs s i = Some p \<Longrightarrow> status (h, s) i = Some Confirmed"
  using confirmed_facts [of h s i p] by (simp add: status_def GetStatus_def)

lemma status_finished:
  "store_inv (h, s) \<Longrightarrow> finishedTxs s i = Some f \<Longrightarrow>
     status (h, s) i = Some (State (h (fin_Tx f))) \<and> State (h (fin_Tx f)) \<in> finished_states"
  using finished_facts [of h s i f] by (simp add: status_def GetStatus_def)

lemma status_untracked: "status (h, s) i = None \<longleftrightarrow> \<not> Has i s"
  by (auto simp: status_def GetStatus_def Has_def split: option.splits)

lemmas status_of_entry = status_pending status_unconfirmed status_confirmed

text \<open>The status names the table, and the table the status.\<close>

lemma status_table_all:
  assumes "store_inv (h, s)"
  shows "(status (h, s) i = Some Pending \<longleftrightarrow> pendingTxs s i \<noteq> None)
    \<and> (status (h, s) i = Some Broadcasted \<longleftrightarrow> unconfirmedTxs s i \<noteq> None)
    \<and> (status (h, s) i = Some Confirmed \<longleftrightarrow> confirmedTxs s i \<noteq> None)
    \<and> (status (h, s) i \<in> Some ` finished_states \<longleftrightarrow> finishedTxs s i \<noteq> None)"
proof -
  consider (p) r where "pendingTxs s i = Some r" | (u) p where "unconfirmedTxs s i = Some p"
    | (c) p where "confirmedTxs s i = Some p" | (f) f where "finishedTxs s i = Some f"
    | (n) "\<not> Has i s"
    by (cases "pendingTxs s i"; cases "unconfirmedTxs s i"; cases "confirmedTxs s i";
        cases "finishedTxs s i") (auto simp: Has_def)
  then show ?thesis
  proof cases
    case p
    then show ?thesis using pending_facts [OF assms p] status_pending [OF assms p]
      by (auto simp: finished_states_def)
  next
    case u
    then show ?thesis using unconfirmed_facts [OF assms u] status_unconfirmed [OF assms u]
      by (auto simp: finished_states_def)
  next
    case c
    then show ?thesis using confirmed_facts [OF assms c] status_confirmed [OF assms c]
      by (auto simp: finished_states_def)
  next
    case f
    then show ?thesis using finished_facts [OF assms f] status_finished [OF assms f]
      by (auto simp: finished_states_def)
  next
    case n
    then show ?thesis using status_untracked [of h s i] by (auto simp: Has_def)
  qed
qed

lemmas status_table =
  status_table_all [THEN conjunct1] status_table_all [THEN conjunct2, THEN conjunct1]
  status_table_all [THEN conjunct2, THEN conjunct2, THEN conjunct1]
  status_table_all [THEN conjunct2, THEN conjunct2, THEN conjunct2]

subsection \<open>Each operation simulates its lifecycle event\<close>

text \<open>
  Two stores agree outside \<open>i\<close> if no other ID's entry and no transaction with another ID changed;
  then no other ID's status changed.
\<close>

lemma GetStatus_frame:
  assumes "store_inv (h, s)"
    and "pendingTxs s' j = pendingTxs s j" "unconfirmedTxs s' j = unconfirmedTxs s j"
    and "confirmedTxs s' j = confirmedTxs s j" "finishedTxs s' j = finishedTxs s j"
    and "\<And>r. ID (h r) = j \<Longrightarrow> State (h' r) = State (h r)"
  shows "status (h', s') j = status (h, s) j"
  using assms(2-5) store_inv_id_ok [OF assms(1), of j] assms(6)
  by (auto simp: status_def GetStatus_def id_ok_def holds_in_def split: option.splits)

lemma simulates_refused: "lifecycle e (m i) = None \<Longrightarrow> m = spec_status e i m \<and> \<not> spec_accepts e i m"
  by (simp add: spec_status_def spec_accepts_def)

lemma simulates_accepted:
  assumes "store_inv (h, s)" and "lifecycle e (status (h, s) i) = Some (status (h', s') i)"
    and "\<And>j. j \<noteq> i \<Longrightarrow> pendingTxs s' j = pendingTxs s j \<and> unconfirmedTxs s' j = unconfirmedTxs s j
           \<and> confirmedTxs s' j = confirmedTxs s j \<and> finishedTxs s' j = finishedTxs s j"
    and "\<And>r. ID (h r) \<noteq> i \<Longrightarrow> h' r = h r"
  shows "status (h', s') = spec_status e i (status (h, s)) \<and> spec_accepts e i (status (h, s))"
proof -
  have "status (h', s') j = spec_status e i (status (h, s)) j" for j
  proof (cases "j = i")
    case True
    then show ?thesis using assms(2) by (simp add: spec_status_def)
  next
    case False
    then have "status (h', s') j = status (h, s) j"
      using assms(3) [OF False] assms(4) by (intro GetStatus_frame [OF assms(1)]) auto
    then show ?thesis using False by (simp add: spec_status_other)
  qed
  then show ?thesis using assms(2) by (auto simp: spec_accepts_def)
qed

definition simulates :: "lifecycle_event \<Rightarrow> string \<Rightarrow> store_state \<Rightarrow> store_state \<times> store_error option \<Rightarrow> bool" where
  "simulates e i st res \<longleftrightarrow>
     status (fst res) = spec_status e i (status st)
   \<and> (snd res = None \<longleftrightarrow> spec_accepts e i (status st))"

lemma simulates_refusedI:
  "lifecycle e (status st i) = None \<Longrightarrow> simulates e i st (st, Some err)"
  using simulates_refused [of e "status st" i] by (simp add: simulates_def)

lemma simulates_acceptedI:
  assumes "store_inv (h, s)" and "lifecycle e (status (h, s) i) = Some (status (h', s') i)"
    and "\<And>j. j \<noteq> i \<Longrightarrow> pendingTxs s' j = pendingTxs s j \<and> unconfirmedTxs s' j = unconfirmedTxs s j
           \<and> confirmedTxs s' j = confirmedTxs s j \<and> finishedTxs s' j = finishedTxs s j"
    and "\<And>r. ID (h r) \<noteq> i \<Longrightarrow> h' r = h r"
  shows "simulates e i (h, s) ((h', s'), None)"
  using simulates_accepted [OF assms] by (simp add: simulates_def)

lemmas status_unfold = status_def GetStatus_def

lemma OnConfirmed_simulates:
  assumes "store_inv (h, s)"
  shows "simulates Confirm i (h, s) (OnConfirmed i (h, s))"
proof (cases "unconfirmedTxs s i")
  case None
  then show ?thesis using status_table(2) [OF assms, of i]
    by (auto simp: OnConfirmed_def lifecycle_eqs intro: simulates_refusedI)
next
  case (Some p)
  note facts = unconfirmed_facts [OF assms Some]
  show ?thesis using Some facts status_unconfirmed [OF assms Some]
    by (simp add: OnConfirmed_def, intro simulates_acceptedI [OF assms] set_State_only)
      (auto simp: lifecycle_eqs status_unfold)
qed

lemma OnFinalized_simulates:
  assumes "store_inv (h, s)"
  shows "simulates Finalize i (h, s) (OnFinalized now i (h, s))"
proof (cases "confirmedTxs s i")
  case None
  then show ?thesis using status_table(3) [OF assms, of i]
    by (auto simp: OnFinalized_def lifecycle_eqs intro: simulates_refusedI)
next
  case (Some p)
  note facts = confirmed_facts [OF assms Some]
  show ?thesis using Some facts status_confirmed [OF assms Some]
    by (simp add: OnFinalized_def, intro simulates_acceptedI [OF assms] set_State_only)
      (auto simp: lifecycle_eqs status_unfold finish_def)
qed

lemma OnReorg_simulates:
  assumes "store_inv (h, s)"
  shows "simulates Reorg i (h, s) (OnReorg i (h, s))"
proof (cases "confirmedTxs s i")
  case None
  then show ?thesis using status_table(3) [OF assms, of i]
    by (auto simp: OnReorg_def lifecycle_eqs intro: simulates_refusedI)
next
  case (Some p)
  note facts = confirmed_facts [OF assms Some]
  show ?thesis using Some facts status_confirmed [OF assms Some]
    by (simp add: OnReorg_def, intro simulates_acceptedI [OF assms] set_State_only)
      (auto simp: lifecycle_eqs status_unfold finish_def)
qed

lemma OnErrored_simulates:
  assumes "store_inv (h, s)"
  shows "simulates Fail i (h, s) (OnErrored now i (h, s))"
proof (cases "unconfirmedTxs s i")
  case (Some p)
  note facts = unconfirmed_facts [OF assms Some]
  show ?thesis using Some facts status_unconfirmed [OF assms Some]
    by (simp add: OnErrored_def, intro simulates_acceptedI [OF assms] set_State_only)
      (auto simp: lifecycle_eqs status_unfold finish_def)
next
  case None
  note unconfirmed = None
  show ?thesis
  proof (cases "confirmedTxs s i")
    case None
    then show ?thesis
      using unconfirmed status_table(2) [OF assms, of i] status_table(3) [OF assms, of i]
      by (auto simp: OnErrored_def lifecycle_eqs intro: simulates_refusedI)
  next
    case (Some p)
    note facts = confirmed_facts [OF assms Some]
    show ?thesis using unconfirmed Some facts status_confirmed [OF assms Some]
      by (simp add: OnErrored_def, intro simulates_acceptedI [OF assms] set_State_only)
        (auto simp: lifecycle_eqs status_unfold finish_def)
  qed
qed

lemma OnFatalError_simulates:
  assumes "store_inv (h, s)"
  shows "simulates Fatal i (h, s) (OnFatalError now i (h, s))"
proof (cases "unconfirmedTxs s i")
  case (Some p)
  note facts = unconfirmed_facts [OF assms Some]
  show ?thesis using Some facts status_unconfirmed [OF assms Some]
    by (simp add: OnFatalError_def, intro simulates_acceptedI [OF assms] set_State_only)
      (auto simp: lifecycle_eqs status_unfold finish_def)
next
  case None
  note unconfirmed = None
  show ?thesis
  proof (cases "confirmedTxs s i")
    case None
    then show ?thesis
      using unconfirmed status_table(2) [OF assms, of i] status_table(3) [OF assms, of i]
      by (auto simp: OnFatalError_def lifecycle_eqs intro: simulates_refusedI)
  next
    case (Some p)
    note facts = confirmed_facts [OF assms Some]
    show ?thesis using unconfirmed Some facts status_confirmed [OF assms Some]
      by (simp add: OnFatalError_def, intro simulates_acceptedI [OF assms] set_State_only)
        (auto simp: lifecycle_eqs status_unfold finish_def)
  qed
qed

lemma OnBroadcasted_simulates:
  assumes "store_inv (h, s)" and "pendingTxs s i = Some r" and "hashToId s x = None"
  shows "simulates Broadcast i (h, s) (OnBroadcasted x e r (h, s))"
proof -
  note facts = pending_facts [OF assms(1,2)]
  show ?thesis using assms(2,3) facts status_pending [OF assms(1,2)]
    by (simp add: OnBroadcasted_def, intro simulates_acceptedI [OF assms(1)] set_State_only)
      (auto simp: lifecycle_eqs status_unfold)
qed

lemma OnPending_simulates:
  assumes "store_inv (h, s)" and "State (h r) = Pending"
    and "Has (ID (h r)) s \<Longrightarrow> pendingTxs s (ID (h r)) \<noteq> None"
  shows "\<exists>res. OnPending r False (h, s) = Done res \<and> simulates Submit (ID (h r)) (h, s) res
    \<and> store_inv (fst res)"
proof (cases "Has (ID (h r)) s")
  case True
  then have "status (h, s) (ID (h r)) \<noteq> None" using status_untracked [of h s "ID (h r)"] by simp
  then show ?thesis using True assms
    by (auto simp: OnPending_def insert_pending_def lifecycle_eqs intro: simulates_refusedI)
next
  case False
  note ok = store_inv_OnPending [OF assms(1) False assms(2)]
  have "simulates Submit (ID (h r)) (h, s)
      ((h, s\<lparr>pendingTxs := (pendingTxs s)(ID (h r) \<mapsto> r)\<rparr>), None)"
    using status_untracked [of h s "ID (h r)"] False assms(2)
    by (intro simulates_acceptedI [OF assms(1)]) (auto simp: lifecycle_eqs status_unfold)
  then show ?thesis using ok by simp
qed

lemma retry_simulates:
  assumes "store_inv (h, s)" and "unconfirmedTxs s i = Some p"
    and "ID (h' (inf_Tx p)) = i" and "State (h' (inf_Tx p)) = Pending"
    and "\<And>r. r \<noteq> inf_Tx p \<Longrightarrow> h' r = h r"
  shows "simulates Retry i (h, s) ((h', retried i p s), None)"
proof -
  note facts = unconfirmed_facts [OF assms(1,2)]
  have other: "ID (h r) \<noteq> i \<Longrightarrow> h' r = h r" for r using assms(5) [of r] facts(1) by blast
  show ?thesis using facts assms(3,4) status_unconfirmed [OF assms(1,2)]
    by (intro simulates_acceptedI [OF assms(1)] other)
      (auto simp: lifecycle_eqs status_unfold retried_def)
qed

text \<open>Reaping forgets the finished IDs it is given, and counts them.\<close>

lemma DeleteFinishedTxs_tables:
  "pendingTxs (fst (DeleteFinishedTxs ids s)) = pendingTxs s
   \<and> unconfirmedTxs (fst (DeleteFinishedTxs ids s)) = unconfirmedTxs s
   \<and> confirmedTxs (fst (DeleteFinishedTxs ids s)) = confirmedTxs s
   \<and> finishedTxs (fst (DeleteFinishedTxs ids s)) = finishedTxs s |` (- set ids)"
proof (induction ids arbitrary: s)
  case Nil
  then show ?case by (simp add: restrict_map_def)
next
  case (Cons i ids)
  then show ?case
    by (cases "finishedTxs s i") (auto simp: split_beta Let_def restrict_map_def fun_eq_iff)
qed

lemma DeleteFinishedTxs_count:
  "snd (DeleteFinishedTxs ids s) = card (set ids \<inter> dom (finishedTxs s))"
proof (induction ids arbitrary: s)
  case Nil
  then show ?case by simp
next
  case (Cons i ids)
  show ?case
  proof (cases "finishedTxs s i")
    case None
    then show ?thesis using Cons by (simp add: domIff)
  next
    case (Some f)
    have "insert i (set ids) \<inter> dom (finishedTxs s) = insert i (set ids \<inter> (dom (finishedTxs s) - {i}))"
      using Some by auto
    then have "card (insert i (set ids) \<inter> dom (finishedTxs s))
        = Suc (card (set ids \<inter> (dom (finishedTxs s) - {i})))"
      by simp
    moreover have "snd (DeleteFinishedTxs ids
        (s\<lparr>finishedTxs := map_delete i (finishedTxs s),
           hashToId := map_delete (fin_Hash f) (hashToId s)\<rparr>))
        = card (set ids \<inter> (dom (finishedTxs s) - {i}))"
      by (subst Cons.IH) simp
    ultimately show ?thesis using Some by (simp add: split_beta Let_def)
  qed
qed

lemma DeleteFinishedTxs_status:
  assumes "store_inv (h, s)"
  shows "status (h, fst (DeleteFinishedTxs ids s)) i =
    (if i \<in> set ids \<and> status (h, s) i \<in> Some ` finished_states then None else status (h, s) i)"
proof -
  let ?s = "fst (DeleteFinishedTxs ids s)"
  have tabs: "pendingTxs ?s = pendingTxs s" "unconfirmedTxs ?s = unconfirmedTxs s"
    "confirmedTxs ?s = confirmedTxs s" "finishedTxs ?s = finishedTxs s |` (- set ids)"
    using DeleteFinishedTxs_tables [of ids s] by simp_all
  show ?thesis
  proof (cases "finishedTxs s i")
    case None
    then have "status (h, ?s) i = status (h, s) i"
      by (intro GetStatus_frame [OF assms]) (simp_all add: tabs restrict_map_def)
    then show ?thesis using None status_table(4) [OF assms, of i] by simp
  next
    case (Some f)
    note facts = finished_facts [OF assms Some] status_finished [OF assms Some]
    show ?thesis
    proof (cases "i \<in> set ids")
      case True
      then show ?thesis using facts by (simp add: status_unfold tabs restrict_map_def)
    next
      case False
      then have "status (h, ?s) i = status (h, s) i"
        by (intro GetStatus_frame [OF assms]) (simp_all add: tabs restrict_map_def)
      then show ?thesis using False by simp
    qed
  qed
qed

subsection \<open>The interface on \<open>TxStore\<close>\<close>

text \<open>
  The calls the transaction manager makes, as data, so that a run of them is a list. \<open>OpRetry\<close> is
  the pair of statements of \<open>maybeRetry\<close> that set the state to \<open>Pending\<close> and call \<open>OnPending\<close>.
\<close>

datatype store_op =
    OpPending txref
  | OpRetry txref
  | OpBroadcasted string int64 txref
  | OpConfirmed string
  | OpErrored gtime string
  | OpFatalError gtime string
  | OpReorg string
  | OpFinalized gtime string

fun call_store :: "store_op \<Rightarrow> store_state \<Rightarrow> (store_state \<times> store_error option) outcome" where
  "call_store (OpPending r) st = OnPending r False st"
| "call_store (OpRetry r) st = OnPending r True (set_State r Pending (fst st), snd st)"
| "call_store (OpBroadcasted x e r) st = Done (OnBroadcasted x e r st)"
| "call_store (OpConfirmed i) st = Done (OnConfirmed i st)"
| "call_store (OpErrored now i) st = Done (OnErrored now i st)"
| "call_store (OpFatalError now i) st = Done (OnFatalError now i st)"
| "call_store (OpReorg i) st = Done (OnReorg i st)"
| "call_store (OpFinalized now i) st = Done (OnFinalized now i st)"

definition run_store_op :: "store_op \<Rightarrow> store_state \<Rightarrow> store_state outcome" where
  "run_store_op x st = outcome_bind (call_store x st) (\<lambda>res. Done (fst res))"

fun store_event :: "store_op \<Rightarrow> lifecycle_event" where
  "store_event (OpPending r) = Submit"
| "store_event (OpRetry r) = Retry"
| "store_event (OpBroadcasted x e r) = Broadcast"
| "store_event (OpConfirmed i) = Confirm"
| "store_event (OpErrored now i) = Fail"
| "store_event (OpFatalError now i) = Fatal"
| "store_event (OpReorg i) = Reorg"
| "store_event (OpFinalized now i) = Finalize"

fun store_target :: "store_op \<Rightarrow> store_state \<Rightarrow> string" where
  "store_target (OpPending r) st = ID (fst st r)"
| "store_target (OpRetry r) st = ID (fst st r)"
| "store_target (OpBroadcasted x e r) st = ID (fst st r)"
| "store_target (OpConfirmed i) st = i"
| "store_target (OpErrored now i) st = i"
| "store_target (OpFatalError now i) st = i"
| "store_target (OpReorg i) st = i"
| "store_target (OpFinalized now i) st = i"

text \<open>
  What the caller owes. A new transaction is in state \<open>Pending\<close> with an ID that is not tracked
  beyond the pending table. A broadcast transaction is the pending one under its ID, with a hash
  the store has not seen. A retried one is the unconfirmed one under its ID.
\<close>

fun store_allowed :: "store_op \<Rightarrow> store_state \<Rightarrow> bool" where
  "store_allowed (OpPending r) (h, s) \<longleftrightarrow>
     State (h r) = Pending \<and> (Has (ID (h r)) s \<longrightarrow> pendingTxs s (ID (h r)) \<noteq> None)"
| "store_allowed (OpRetry r) (h, s) \<longleftrightarrow>
     (case unconfirmedTxs s (ID (h r)) of None \<Rightarrow> False | Some p \<Rightarrow> inf_Tx p = r)"
| "store_allowed (OpBroadcasted x e r) (h, s) \<longleftrightarrow>
     pendingTxs s (ID (h r)) = Some r \<and> hashToId s x = None \<and> hash_fresh s x"
| "store_allowed _ _ \<longleftrightarrow> True"

lemma call_store_ok:
  assumes "store_inv (h, s)" and "store_allowed x (h, s)"
  shows "\<exists>res. call_store x (h, s) = Done res \<and> store_inv (fst res)
    \<and> simulates (store_event x) (store_target x (h, s)) (h, s) res"
proof (cases x)
  case (OpPending r)
  then show ?thesis using OnPending_simulates [OF assms(1), of r] assms(2) by auto
next
  case (OpRetry r)
  then obtain p where p: "unconfirmedTxs s (ID (h r)) = Some p" "inf_Tx p = r"
    using assms(2) by (auto split: option.splits)
  let ?h = "set_State (inf_Tx p) Pending h"
  have "OnPending (inf_Tx p) True (?h, s) = Done ((?h, retried (ID (h r)) p s), None)"
    using OnPending_retry [OF assms(1) p(1), of ?h] p(2) by simp
  moreover have "store_inv (?h, retried (ID (h r)) p s)"
    using store_inv_retry [OF assms(1) p(1), of ?h] p(2) by simp
  moreover have "simulates Retry (ID (h r)) (h, s) ((?h, retried (ID (h r)) p s), None)"
    using retry_simulates [OF assms(1) p(1), of ?h] p(2) by simp
  ultimately show ?thesis using OpRetry p(2) by simp
next
  case (OpBroadcasted y e r)
  then show ?thesis
    using assms store_inv_OnBroadcasted [OF assms(1), of _ r y e]
      OnBroadcasted_simulates [OF assms(1), of _ r y e] by auto
next
  case (OpConfirmed i)
  then show ?thesis using store_inv_OnConfirmed [OF assms(1)] OnConfirmed_simulates [OF assms(1)]
    by auto
next
  case (OpErrored now i)
  then show ?thesis using store_inv_OnErrored [OF assms(1)] OnErrored_simulates [OF assms(1)]
    by auto
next
  case (OpFatalError now i)
  then show ?thesis
    using store_inv_OnFatalError [OF assms(1)] OnFatalError_simulates [OF assms(1)] by auto
next
  case (OpReorg i)
  then show ?thesis using store_inv_OnReorg [OF assms(1)] OnReorg_simulates [OF assms(1)] by auto
next
  case (OpFinalized now i)
  then show ?thesis using store_inv_OnFinalized [OF assms(1)] OnFinalized_simulates [OF assms(1)]
    by auto
qed

lemma run_store_op_ok:
  assumes "store_inv st" and "store_allowed x st"
  shows "\<exists>st'. run_store_op x st = Done st' \<and> store_inv st'
    \<and> status st' = spec_status (store_event x) (store_target x st) (status st)"
proof -
  obtain h s where st: "st = (h, s)" by (cases st)
  from call_store_ok [OF assms [unfolded st]] show ?thesis
    by (auto simp: st run_store_op_def simulates_def)
qed

interpretation txstore: lifecycle_store store_inv status store_allowed run_store_op store_event store_target
proof (unfold_locales, goal_cases)
  case (1 st x)
  then show ?case using run_store_op_ok by blast
next
  case (2 st x st')
  then show ?case using run_store_op_ok [of st x] by auto
next
  case (3 x)
  then show ?case by (cases x) simp_all
qed

subsection \<open>Properties of the store\<close>

text \<open>
  C16. Refinement: from a store state that satisfies the invariant, every
  call its contract allows returns (no panic), keeps the invariant, moves the status of the
  transaction it names exactly as the lifecycle prescribes and of no other, and reports an error
  exactly when the lifecycle refuses the event.
\<close>

theorem store_refines_lifecycle:
  assumes "store_inv (h, s)" and "store_allowed x (h, s)"
  shows "\<exists>h' s' err. call_store x (h, s) = Done ((h', s'), err) \<and> store_inv (h', s')
    \<and> status (h', s') = spec_status (store_event x) (store_target x (h, s)) (status (h, s))
    \<and> (err = None \<longleftrightarrow> spec_accepts (store_event x) (store_target x (h, s)) (status (h, s)))"
  using call_store_ok [OF assms] by (auto simp: simulates_def)

text \<open>A concrete store to evaluate: one transaction, submitted.\<close>

definition sample_tx :: "string \<Rightarrow> TxState \<Rightarrow> TronTx" where
  "sample_tx i st = \<lparr>FromAddress = [0x41], ContractAddress = [0x41], Method = ''foo()'',
     Params = [], Attempt = 1, OutOfTimeErrors = 0, EnergyBumpTimes = 0, ID = i, State = st,
     CreateTs = 0\<rparr>"

definition sample_heap :: heap where
  "sample_heap = (\<lambda>r. sample_tx ''id1'' Pending)"

definition sample_store :: TxStore where
  "sample_store = NewTxStore\<lparr>pendingTxs := [''id1'' \<mapsto> 0]\<rparr>"

lemma sample_store_inv: "store_inv (sample_heap, sample_store)"
  using store_inv_OnPending(2) [OF store_inv_New, of sample_heap 0]
  by (simp add: sample_store_def sample_heap_def sample_tx_def NewTxStore_def Has_def)

lemma sample_allowed:
  "store_allowed (OpBroadcasted ''h1'' 1000 0) (sample_heap, sample_store)"
  by (simp add: sample_store_def sample_heap_def sample_tx_def NewTxStore_def hash_fresh_def)

lemma sample_status: "status (sample_heap, sample_store) ''id1'' = Some Pending"
  by (simp add: sample_store_def sample_heap_def sample_tx_def NewTxStore_def status_unfold)

lemma sample_ID: "ID (sample_heap 0) = ''id1''"
  by (simp add: sample_heap_def sample_tx_def)

theorem store_refines_lifecycle_witness:
  "\<exists>h' s' err. call_store (OpBroadcasted ''h1'' 1000 0) (sample_heap, sample_store) = Done ((h', s'), err)
     \<and> status (h', s') ''id1'' = Some Broadcasted \<and> err = None"
  using store_refines_lifecycle [OF sample_store_inv sample_allowed]
  by (fastforce simp: spec_status_def spec_accepts_def sample_ID sample_status)

text \<open>
  Safety: over any run of allowed calls, a transaction that has
  errored, fatally errored or been finalized keeps that status.
\<close>

theorem store_finished_is_final:
  assumes "store_inv st" and "run_allowed store_allowed run_store_op xs st"
    and "for_range run_store_op xs st = Done st'"
    and "status st i = Some a" and "a \<in> {Errored, FatallyErrored, Finalized}"
  shows "status st' i = Some a"
  using txstore.finished_is_final [OF assms(1-4)] assms(5) by (simp add: finished_states_def)

definition sample_finished :: "store_state" where
  "sample_finished = (\<lambda>r. sample_tx ''id1'' Finalized,
     NewTxStore\<lparr>finishedTxs := [''id1'' \<mapsto> \<lparr>fin_Hash = ''h1'', fin_Tx = 0, fin_RetentionTs = 5\<rparr>]\<rparr>)"

lemma sample_finished_inv: "store_inv sample_finished"
  unfolding sample_finished_def
  by (rule store_invI) (auto simp: store_inv_defs NewTxStore_def sample_tx_def)

lemma sample_finished_status: "status sample_finished ''id1'' = Some Finalized"
  by (simp add: sample_finished_def status_unfold NewTxStore_def sample_tx_def)

theorem store_finished_is_final_witness:
  "status (the_Done (for_range run_store_op [OpConfirmed ''id1'', OpFatalError 9 ''id1''] sample_finished)) ''id1''
     = Some Finalized"
proof -
  have run: "for_range run_store_op [OpConfirmed ''id1'', OpFatalError 9 ''id1''] sample_finished
      = Done sample_finished"
    by (simp add: run_store_op_def OnConfirmed_def OnFatalError_def sample_finished_def NewTxStore_def)
  have allowed: "run_allowed store_allowed run_store_op
      [OpConfirmed ''id1'', OpFatalError 9 ''id1''] sample_finished"
    by (simp add: run_store_op_def OnConfirmed_def OnFatalError_def sample_finished_def NewTxStore_def)
  show ?thesis
    using store_finished_is_final [OF sample_finished_inv allowed run sample_finished_status] run by simp
qed

text \<open>
  Error paths: a call that reports an error leaves the heap and every
  table as they were. (The retry call is the exception: it removes the unconfirmed entry before it
  tests the state.)
\<close>

theorem store_error_unchanged:
  assumes "call_store x st = Done (st', Some e)" and "\<And>r. x \<noteq> OpRetry r"
  shows "st' = st"
proof -
  obtain h s where st: "st = (h, s)" by (cases st)
  show ?thesis
    using assms unfolding st
    by (cases x)
      (auto simp: OnPending_def insert_pending_def OnBroadcasted_def OnConfirmed_def OnErrored_def
         OnFatalError_def OnReorg_def OnFinalized_def Let_def split: option.splits if_splits)
qed

theorem store_error_unchanged_witness:
  "fst (the_Done (call_store (OpConfirmed ''id2'') (sample_heap, sample_store))) = (sample_heap, sample_store)"
proof -
  have "call_store (OpConfirmed ''id2'') (sample_heap, sample_store)
      = Done ((sample_heap, sample_store), Some (NoSuchUnconfirmed ''id2''))"
    by (simp add: OnConfirmed_def sample_store_def NewTxStore_def)
  from store_error_unchanged [OF this] this show ?thesis by simp
qed

text \<open>
  The retry branch of \<open>OnPending\<close> panics on a nil pointer exactly when the ID
  has no unconfirmed entry: its own \<open>txExists\<close> guard is never reached in that case.
\<close>

theorem store_retry_nil:
  "OnPending r True (h, s) = Panic \<longleftrightarrow> unconfirmedTxs s (ID (h r)) = None"
  by (simp add: OnPending_def split: option.splits)

text \<open>
  Reaping a list of IDs forgets exactly the finished ones among them, leaves
  every other status alone, keeps the invariant and returns how many it forgot.
\<close>

theorem store_reap_exact:
  assumes "store_inv (h, s)"
  shows "store_inv (h, fst (DeleteFinishedTxs ids s))
    \<and> status (h, fst (DeleteFinishedTxs ids s)) =
        (\<lambda>i. if i \<in> set ids \<and> status (h, s) i \<in> {Some Errored, Some FatallyErrored, Some Finalized}
             then None else status (h, s) i)
    \<and> snd (DeleteFinishedTxs ids s) =
        card {i \<in> set ids. status (h, s) i \<in> {Some Errored, Some FatallyErrored, Some Finalized}}"
proof -
  have fin: "Some ` finished_states = {Some Errored, Some FatallyErrored, Some Finalized}"
    by (simp add: finished_states_def)
  have "set ids \<inter> dom (finishedTxs s) = {i \<in> set ids. status (h, s) i \<in> Some ` finished_states}"
    using status_table(4) [OF assms] by auto
  then show ?thesis
    using store_inv_DeleteFinishedTxs [OF assms] DeleteFinishedTxs_count [of ids s]
    by (simp add: fun_eq_iff DeleteFinishedTxs_status [OF assms] fin)
qed

theorem store_reap_exact_witness:
  "status (fst sample_finished, fst (DeleteFinishedTxs [''id2'', ''id1''] (snd sample_finished))) ''id1'' = None
   \<and> snd (DeleteFinishedTxs [''id2'', ''id1''] (snd sample_finished)) = 1"
proof -
  have inv: "store_inv (fst sample_finished, snd sample_finished)" using sample_finished_inv by simp
  have "{i \<in> set [''id2'', ''id1'']. status sample_finished i
      \<in> {Some Errored, Some FatallyErrored, Some Finalized}} = {''id1''}"
    by (auto simp: sample_finished_def status_unfold NewTxStore_def sample_tx_def)
  then show ?thesis
    using store_reap_exact [OF inv, of "[''id2'', ''id1'']"] sample_finished_status by simp
qed

text \<open>
  No hash is leaked: once nothing is in flight and every finished entry has
  been reaped, the hash table is empty.
\<close>

theorem store_no_hash_leak:
  assumes "store_inv (h, s)" and "unconfirmedTxs s = Map.empty" and "confirmedTxs s = Map.empty"
    and "dom (finishedTxs s) \<subseteq> set ids"
  shows "hashToId (fst (DeleteFinishedTxs ids s)) = Map.empty"
proof
  fix x
  let ?s = "fst (DeleteFinishedTxs ids s)"
  have fin: "finishedTxs ?s i = None" for i
    using DeleteFinishedTxs_tables [of ids s] assms(4)
    by (cases "finishedTxs s i") (auto simp: restrict_map_def dom_def)
  have "\<not> carries_hash ?s x i" for i
    using DeleteFinishedTxs_tables [of ids s] assms(2,3) fin by (simp add: carries_hash_def)
  then show "hashToId ?s x = None"
    using store_inv_no_stray [OF store_inv_DeleteFinishedTxs [OF assms(1)]]
    by (cases "hashToId ?s x") auto
qed

theorem store_no_hash_leak_witness:
  "hashToId (fst (DeleteFinishedTxs [''id1''] (snd sample_finished))) = Map.empty"
  using store_no_hash_leak [of "fst sample_finished" "snd sample_finished" "[''id1'']"] sample_finished_inv
  by (simp add: sample_finished_def NewTxStore_def)

text \<open>
  Whatever order the map is ranged over, \<open>GetUnconfirmed\<close> returns every
  unconfirmed transaction once, ordered by expiration time.
\<close>

theorem GetUnconfirmed_sorted:
  assumes "key_order (unconfirmedTxs s) ks"
  shows "sorted (List.map (\<lambda>p. sint (inf_ExpirationMs p)) (GetUnconfirmed ks s))
    \<and> set (GetUnconfirmed ks s) = ran (unconfirmedTxs s)
    \<and> length (GetUnconfirmed ks s) = InflightCount s"
  using key_order_values [OF assms] key_order_length [OF assms]
  by (simp add: GetUnconfirmed_def InflightCount_def map_values_def)

definition sample_two :: TxStore where
  "sample_two = NewTxStore\<lparr>unconfirmedTxs :=
     [''a'' \<mapsto> \<lparr>inf_Hash = ''ha'', inf_ExpirationMs = 2000, inf_Tx = 0\<rparr>,
      ''b'' \<mapsto> \<lparr>inf_Hash = ''hb'', inf_ExpirationMs = 1000, inf_Tx = 1\<rparr>]\<rparr>"

theorem GetUnconfirmed_sorted_witness:
  "List.map inf_Tx (GetUnconfirmed [''a'', ''b''] sample_two) = [1, 0]
   \<and> length (GetUnconfirmed [''a'', ''b''] sample_two) = InflightCount sample_two"
proof -
  have "key_order (unconfirmedTxs sample_two) [''a'', ''b'']"
    by (auto simp: key_order_def sample_two_def NewTxStore_def)
  from GetUnconfirmed_sorted [OF this] show ?thesis
    by (simp add: GetUnconfirmed_def sample_two_def NewTxStore_def map_values_def sort_key_def)
qed

end
