(* ===== verification/AccountStore.thy ===== *)
theory AccountStore
  imports TxStore_Spec
begin

text \<open>
  The \<open>AccountStore\<close> of relayer/txm/txstore.go: one \<open>TxStore\<close> per account address. The stores are
  reached through pointers that are never removed, so a store is named by its address and an
  operation on it writes the updated tables back under that address. The queries that range over
  the Go map take the order of the addresses (and, per address, of the IDs) as arguments.
\<close>

record AccountStore =
  store :: "string \<rightharpoonup> TxStore"

definition NewAccountStore :: AccountStore where
  "NewAccountStore = \<lparr>store = Map.empty\<rparr>"

text \<open>
  The second look under the write lock sees what another caller may have inserted since the first;
  within one atomic step the two looks agree.
\<close>

definition GetTxStore :: "string \<Rightarrow> AccountStore \<Rightarrow> AccountStore \<times> TxStore" where
  "GetTxStore fromAddress c =
     (case store c fromAddress of
        Some s \<Rightarrow> (c, s)
      | None \<Rightarrow> (c\<lparr>store := (store c)(fromAddress \<mapsto> NewTxStore)\<rparr>, NewTxStore))"

type_synonym account_state = "heap \<times> AccountStore"

text \<open>A call on the store of an address, through the pointer \<open>GetTxStore\<close> returned.\<close>

definition put_store :: "string \<Rightarrow> store_state \<Rightarrow> AccountStore \<Rightarrow> account_state" where
  "put_store a st c = (fst st, c\<lparr>store := (store c)(a \<mapsto> snd st)\<rparr>)"

definition on_store ::
  "string \<Rightarrow> (store_state \<Rightarrow> store_state \<times> 'e) \<Rightarrow> account_state \<Rightarrow> account_state \<times> 'e" where
  "on_store a f = (\<lambda>(h, c).
     let (c1, s) = GetTxStore a c; (st, err) = f (h, s) in (put_store a st c1, err))"

definition on_store_outcome ::
  "string \<Rightarrow> (store_state \<Rightarrow> (store_state \<times> 'e) outcome) \<Rightarrow> account_state \<Rightarrow> (account_state \<times> 'e) outcome" where
  "on_store_outcome a f = (\<lambda>(h, c).
     let (c1, s) = GetTxStore a c
     in outcome_bind (f (h, s)) (\<lambda>(st, err). Done (put_store a st c1, err)))"

definition GetTotalInflightCount :: "string list \<Rightarrow> AccountStore \<Rightarrow> nat" where
  "GetTotalInflightCount accs c = sum_list (List.map InflightCount (map_values accs (store c)))"

definition GetTotalFinishedCount :: "string list \<Rightarrow> AccountStore \<Rightarrow> nat" where
  "GetTotalFinishedCount accs c = sum_list (List.map FinishedCount (map_values accs (store c)))"

text \<open>Later stores overwrite the entries of earlier ones.\<close>

definition GetHashToIdMap :: "string list \<Rightarrow> AccountStore \<Rightarrow> (string \<rightharpoonup> string)" where
  "GetHashToIdMap accs c = foldl (\<lambda>m s. m ++ hashToId s) Map.empty (map_values accs (store c))"

definition GetAllUnconfirmed ::
  "(string \<Rightarrow> string list) \<Rightarrow> AccountStore \<Rightarrow> (string \<rightharpoonup> InflightTx list)" where
  "GetAllUnconfirmed ids c = (\<lambda>a. map_option (GetUnconfirmed (ids a)) (store c a))"

definition GetAllConfirmed ::
  "(string \<Rightarrow> string list) \<Rightarrow> AccountStore \<Rightarrow> (string \<rightharpoonup> InflightTx list)" where
  "GetAllConfirmed ids c = (\<lambda>a. map_option (GetConfirmed (ids a)) (store c a))"

definition GetAllFinished ::
  "(string \<Rightarrow> string list) \<Rightarrow> AccountStore \<Rightarrow> (string \<rightharpoonup> FinishedTx list)" where
  "GetAllFinished ids c = (\<lambda>a. map_option (GetFinished (ids a)) (store c a))"

text \<open>The argument is the map \<open>accountTxIds\<close>, given as its entries in the order they are ranged over.\<close>

fun DeleteAllFinishedTxs :: "(string \<times> string list) list \<Rightarrow> AccountStore \<Rightarrow> AccountStore \<times> nat" where
  "DeleteAllFinishedTxs [] c = (c, 0)"
| "DeleteAllFinishedTxs ((acc, txIds) # rest) c =
     (case store c acc of
        None \<Rightarrow> DeleteAllFinishedTxs rest c
      | Some s \<Rightarrow>
          (let (s', deletedCount) = DeleteFinishedTxs txIds s;
               (c', total) = DeleteAllFinishedTxs rest (c\<lparr>store := (store c)(acc \<mapsto> s')\<rparr>)
           in (c', deletedCount + total)))"

text \<open>The first store, in the order of the range, that knows the ID answers.\<close>

fun first_status :: "string \<Rightarrow> heap \<Rightarrow> TxStore list \<Rightarrow> TxState option" where
  "first_status i h [] = None"
| "first_status i h (s # ss) =
     (case GetStatus i (h, s) of Some st \<Rightarrow> Some st | None \<Rightarrow> first_status i h ss)"

definition GetStatusAll :: "string list \<Rightarrow> string \<Rightarrow> account_state \<Rightarrow> TxState option" where
  "GetStatusAll accs i = (\<lambda>(h, c). first_status i h (map_values accs (store c)))"

subsection \<open>The invariant over all accounts\<close>

text \<open>
  Every store satisfies its invariant, and the transactions of the store of account \<open>a\<close> belong to
  \<open>a\<close>: \<open>owner\<close> is the address string \<open>tx.FromAddress.String()\<close> the transaction manager looks the
  store up with. Transactions of different stores are therefore different objects.
\<close>

definition owned_by :: "(bytes \<Rightarrow> string) \<Rightarrow> heap \<Rightarrow> string \<Rightarrow> TxStore \<Rightarrow> bool" where
  "owned_by owner h a s \<longleftrightarrow> (\<forall>r \<in> store_refs s. owner (FromAddress (h r)) = a)"

definition account_inv :: "(bytes \<Rightarrow> string) \<Rightarrow> account_state \<Rightarrow> bool" where
  "account_inv owner = (\<lambda>(h, c). \<forall>a s. store c a = Some s \<longrightarrow> store_inv (h, s) \<and> owned_by owner h a s)"

lemma account_invD:
  "account_inv owner (h, c) \<Longrightarrow> store c a = Some s \<Longrightarrow> store_inv (h, s)"
  "account_inv owner (h, c) \<Longrightarrow> store c a = Some s \<Longrightarrow> owned_by owner h a s"
  by (auto simp: account_inv_def)

lemma account_inv_New: "account_inv owner (h, NewAccountStore)"
  by (simp add: account_inv_def NewAccountStore_def)

lemma owned_by_New: "owned_by owner h a NewTxStore"
  by (simp add: owned_by_def store_refs_def NewTxStore_def)

lemma GetTxStore_inv:
  assumes "account_inv owner (h, c)" and "GetTxStore a c = (c1, s)"
  shows "account_inv owner (h, c1)" and "store c1 a = Some s"
    and "store_inv (h, s)" and "owned_by owner h a s"
  using assms
  by (auto simp: GetTxStore_def account_inv_def store_inv_New owned_by_New split: option.splits if_splits)

lemma GetTxStore_existing: "store c a = Some s \<Longrightarrow> GetTxStore a c = (c, s)"
  by (simp add: GetTxStore_def)

text \<open>
  A step on the store of \<open>a\<close> that keeps that store's invariant and touches only transactions of
  \<open>a\<close> keeps the invariant of all accounts.
\<close>

lemma account_inv_put:
  assumes inv: "account_inv owner (h, c)"
    and "store_inv (h', s')" and "owned_by owner h' a s'"
    and heap: "\<And>r. owner (FromAddress (h r)) \<noteq> a \<Longrightarrow> h' r = h r"
  shows "account_inv owner (put_store a (h', s') c)"
proof -
  have "store_inv (h', t) \<and> owned_by owner h' b t" if "store c b = Some t" and "b \<noteq> a" for b t
  proof -
    have inv': "store_inv (h, t)" and own: "owned_by owner h b t"
      using account_invD [OF inv that(1)] by auto
    have same: "h' r = h r" if "r \<in> store_refs t" for r
      using own that \<open>b \<noteq> a\<close> heap [of r] by (auto simp: owned_by_def)
    have "store_inv (h', t)" using store_inv_heap_cong [OF _ inv', of h'] same by simp
    then show ?thesis using own same by (simp add: owned_by_def)
  qed
  then show ?thesis using assms(2,3) by (auto simp: account_inv_def put_store_def)
qed

lemma store_refs_entry:
  "pendingTxs s i = Some r \<Longrightarrow> r \<in> store_refs s"
  "unconfirmedTxs s i = Some p \<Longrightarrow> inf_Tx p \<in> store_refs s"
  "confirmedTxs s i = Some p \<Longrightarrow> inf_Tx p \<in> store_refs s"
  "finishedTxs s i = Some f \<Longrightarrow> fin_Tx f \<in> store_refs s"
  by (auto simp: store_refs_def intro: ranI)

lemma store_refs_cases:
  "r \<in> store_refs s \<longleftrightarrow> (\<exists>i. pendingTxs s i = Some r) \<or> (\<exists>i p. unconfirmedTxs s i = Some p \<and> inf_Tx p = r)
     \<or> (\<exists>i p. confirmedTxs s i = Some p \<and> inf_Tx p = r) \<or> (\<exists>i f. finishedTxs s i = Some f \<and> fin_Tx f = r)"
  by (auto simp: store_refs_def ran_def)

text \<open>
  What every allowed store call leaves alone: transactions the store does not refer to, the owner
  of every transaction; and the store refers to no new transaction but the one submitted.
\<close>

fun new_refs :: "store_op \<Rightarrow> txref set" where
  "new_refs (OpPending r) = {r}"
| "new_refs _ = {}"

lemma call_store_heap:
  assumes "store_allowed x (h, s)" and "call_store x (h, s) = Done ((h', s'), err)"
  shows "h' = h \<or> (\<exists>r st. r \<in> store_refs s \<and> h' = set_State r st h)"
proof (cases x)
  case (OpPending r)
  then show ?thesis using assms(2)
    by (auto simp: OnPending_def insert_pending_def Let_def split: if_splits)
next
  case (OpRetry r)
  then obtain p where "unconfirmedTxs s (ID (h r)) = Some p" "inf_Tx p = r"
    using assms(1) by (auto split: option.splits)
  then have "r \<in> store_refs s" using store_refs_entry(2) by metis
  moreover have "h' = set_State r Pending h"
    using OpRetry assms(2)
    by (auto simp: OnPending_def insert_pending_def Let_def split: option.splits if_splits)
  ultimately show ?thesis by blast
next
  case (OpBroadcasted y e r)
  then have "h' = h \<or> h' = set_State r Broadcasted h"
    using assms(2) by (auto simp: OnBroadcasted_def split: if_splits)
  moreover have "r \<in> store_refs s"
    using assms(1) OpBroadcasted store_refs_entry(1) by auto
  ultimately show ?thesis by blast
next
  case (OpConfirmed i)
  then have "h' = h \<or> (\<exists>p. unconfirmedTxs s i = Some p \<and> h' = set_State (inf_Tx p) Confirmed h)"
    using assms(2) by (auto simp: OnConfirmed_def split: option.splits if_splits)
  then show ?thesis using store_refs_entry(2) by metis
next
  case (OpErrored now i)
  then have "h' = h \<or> (\<exists>p. unconfirmedTxs s i = Some p \<and> h' = set_State (inf_Tx p) Errored h)
      \<or> (\<exists>p. confirmedTxs s i = Some p \<and> h' = set_State (inf_Tx p) Errored h)"
    using assms(2) by (auto simp: OnErrored_def split: option.splits if_splits)
  then show ?thesis using store_refs_entry(2,3) by metis
next
  case (OpFatalError now i)
  then have "h' = h \<or> (\<exists>p. unconfirmedTxs s i = Some p \<and> h' = set_State (inf_Tx p) FatallyErrored h)
      \<or> (\<exists>p. confirmedTxs s i = Some p \<and> h' = set_State (inf_Tx p) FatallyErrored h)"
    using assms(2) by (auto simp: OnFatalError_def split: option.splits if_splits)
  then show ?thesis using store_refs_entry(2,3) by metis
next
  case (OpReorg i)
  then have "h' = h \<or> (\<exists>p. confirmedTxs s i = Some p \<and> h' = set_State (inf_Tx p) Pending h)"
    using assms(2) by (auto simp: OnReorg_def split: option.splits if_splits)
  then show ?thesis using store_refs_entry(3) by metis
next
  case (OpFinalized now i)
  then have "h' = h \<or> (\<exists>p. confirmedTxs s i = Some p \<and> h' = set_State (inf_Tx p) Finalized h)"
    using assms(2) by (auto simp: OnFinalized_def split: option.splits if_splits)
  then show ?thesis using store_refs_entry(3) by metis
qed

lemma ran_map_delete: "ran (map_delete i m) \<subseteq> ran m"
  by (auto simp: ran_def split: if_splits)

lemma in_ran_upd: "x \<in> ran (m(i \<mapsto> v)) \<Longrightarrow> x = v \<or> x \<in> ran m"
  by (auto simp: ran_def split: if_splits)

lemma in_ran_delete: "x \<in> ran (map_delete i m) \<Longrightarrow> x \<in> ran m"
  by (auto simp: ran_def split: if_splits)

lemmas ran_dests = in_ran_upd in_ran_delete

lemma store_refs_in_ran:
  "r \<in> ran (pendingTxs s) \<Longrightarrow> r \<in> store_refs s"
  "p \<in> ran (unconfirmedTxs s) \<Longrightarrow> inf_Tx p \<in> store_refs s"
  "p \<in> ran (confirmedTxs s) \<Longrightarrow> inf_Tx p \<in> store_refs s"
  "f \<in> ran (finishedTxs s) \<Longrightarrow> fin_Tx f \<in> store_refs s"
  by (auto simp: store_refs_def)

lemma store_refsE:
  assumes "r \<in> store_refs s"
  obtains "r \<in> ran (pendingTxs s)" | p where "p \<in> ran (unconfirmedTxs s)" "r = inf_Tx p"
  | p where "p \<in> ran (confirmedTxs s)" "r = inf_Tx p" | f where "f \<in> ran (finishedTxs s)" "r = fin_Tx f"
  using assms by (auto simp: store_refs_def)

lemma call_store_refs:
  assumes "store_allowed x (h, s)" and "call_store x (h, s) = Done ((h', s'), err)"
  shows "store_refs s' \<subseteq> store_refs s \<union> new_refs x"
proof (cases x)
  case (OpPending r)
  then have "s' = s \<or> s' = s\<lparr>pendingTxs := (pendingTxs s)(ID (h r) \<mapsto> r)\<rparr>"
    using assms(2) by (auto simp: OnPending_def insert_pending_def Let_def split: if_splits)
  then show ?thesis using OpPending
    by (elim disjE) (auto elim!: store_refsE dest!: ran_dests simp: store_refs_in_ran)
next
  case (OpRetry r)
  then obtain p where p: "unconfirmedTxs s (ID (h r)) = Some p" "inf_Tx p = r"
    using assms(1) by (auto split: option.splits)
  let ?s = "s\<lparr>hashToId := map_delete (inf_Hash p) (hashToId s),
                unconfirmedTxs := map_delete (ID (h r)) (unconfirmedTxs s)\<rparr>"
  have "s' = s \<or> s' = ?s \<or> s' = ?s\<lparr>pendingTxs := (pendingTxs s)(ID (h r) \<mapsto> r)\<rparr>"
    using OpRetry assms(2) p
    by (auto simp: OnPending_def insert_pending_def Let_def split: if_splits)
  then show ?thesis using store_refs_entry(2) [OF p(1)] p(2)
    by (elim disjE) (auto elim!: store_refsE dest!: ran_dests simp: store_refs_in_ran)
next
  case (OpBroadcasted y e r)
  then have "s' = s \<or> s' = s\<lparr>hashToId := (hashToId s)(y \<mapsto> ID (h r)),
           unconfirmedTxs := (unconfirmedTxs s)
             (ID (h r) \<mapsto> \<lparr>inf_Hash = y, inf_ExpirationMs = e, inf_Tx = r\<rparr>),
           pendingTxs := map_delete (ID (h r)) (pendingTxs s)\<rparr>"
    using assms(2) by (auto simp: OnBroadcasted_def split: if_splits)
  moreover have "r \<in> store_refs s"
    using assms(1) OpBroadcasted store_refs_entry(1) by auto
  ultimately show ?thesis
    by (elim disjE) (auto elim!: store_refsE dest!: ran_dests simp: store_refs_in_ran)
next
  case (OpConfirmed i)
  then show ?thesis using assms(2) store_refs_entry(2) [of s i]
    by (auto simp: OnConfirmed_def split: option.splits if_splits
      elim!: store_refsE dest!: ran_dests simp: store_refs_in_ran)
next
  case (OpErrored now i)
  then show ?thesis using assms(2) store_refs_entry(2,3) [of s i]
    by (auto simp: OnErrored_def finish_def split: option.splits if_splits
      elim!: store_refsE dest!: ran_dests simp: store_refs_in_ran)
next
  case (OpFatalError now i)
  then show ?thesis using assms(2) store_refs_entry(2,3) [of s i]
    by (auto simp: OnFatalError_def finish_def split: option.splits if_splits
      elim!: store_refsE dest!: ran_dests simp: store_refs_in_ran)
next
  case (OpReorg i)
  then show ?thesis using assms(2) store_refs_entry(3) [of s i]
    by (auto simp: OnReorg_def split: option.splits if_splits
      elim!: store_refsE dest!: ran_dests simp: store_refs_in_ran)
next
  case (OpFinalized now i)
  then show ?thesis using assms(2) store_refs_entry(3) [of s i]
    by (auto simp: OnFinalized_def finish_def split: option.splits if_splits
      elim!: store_refsE dest!: ran_dests simp: store_refs_in_ran)
qed

subsection \<open>The interface on \<open>AccountStore\<close>\<close>

text \<open>
  A call on the store of an account, as the transaction manager makes it through \<open>GetTxStore\<close>.
  The status of the pair of an account and an ID is what that account's store reports.
\<close>

type_synonym account_op = "string \<times> store_op"

fun account_status :: "account_state \<Rightarrow> string \<times> string \<rightharpoonup> TxState" where
  "account_status (h, c) (a, i) = (case store c a of None \<Rightarrow> None | Some s \<Rightarrow> GetStatus i (h, s))"

fun run_account_op :: "account_op \<Rightarrow> account_state \<Rightarrow> account_state outcome" where
  "run_account_op (a, x) st =
     outcome_bind (on_store_outcome a (call_store x) st) (\<lambda>(st', err). Done st')"

fun account_allowed :: "(bytes \<Rightarrow> string) \<Rightarrow> account_op \<Rightarrow> account_state \<Rightarrow> bool" where
  "account_allowed owner (a, x) (h, c) \<longleftrightarrow>
     store_allowed x (h, snd (GetTxStore a c)) \<and> (\<forall>r \<in> new_refs x. owner (FromAddress (h r)) = a)"

definition account_event :: "account_op \<Rightarrow> lifecycle_event" where
  "account_event x = store_event (snd x)"

fun account_target :: "account_op \<Rightarrow> account_state \<Rightarrow> string \<times> string" where
  "account_target (a, x) (h, c) = (a, store_target x (h, snd (GetTxStore a c)))"

lemma status_heap_cong:
  assumes "\<And>r. r \<in> store_refs s \<Longrightarrow> h' r = h r"
  shows "GetStatus i (h', s) = GetStatus i (h, s)"
  using assms store_refs_entry [of s i]
  by (auto simp: GetStatus_def split: option.splits)

lemma account_status_New: "NewTxStore = s \<Longrightarrow> GetStatus i (h, s) = None"
  by (auto simp: GetStatus_def NewTxStore_def)

lemma account_status_GetTxStore:
  "GetStatus i (h, snd (GetTxStore a c)) = account_status (h, c) (a, i)"
  by (auto simp: GetTxStore_def account_status_New split: option.splits)

lemma store_GetTxStore:
  "store (fst (GetTxStore a c)) b = (if b = a then Some (snd (GetTxStore a c)) else store c b)"
  by (auto simp: GetTxStore_def split: option.splits)

lemma call_store_FromAddress:
  assumes "store_allowed x (h, s)" and "call_store x (h, s) = Done ((h', s'), err)"
  shows "FromAddress (h' r) = FromAddress (h r)" and "r \<notin> store_refs s \<Longrightarrow> h' r = h r"
  using call_store_heap [OF assms] by (auto, metis set_State_other)

text \<open>One call on the store of \<open>a\<close>: what it returns, and what it leaves alone.\<close>

lemma account_call:
  assumes inv: "account_inv owner (h, c)" and allowed: "account_allowed owner (a, x) (h, c)"
  shows "\<exists>h' c' s' err. on_store_outcome a (call_store x) (h, c) = Done ((h', c'), err)
    \<and> account_inv owner (h', c')
    \<and> call_store x (h, snd (GetTxStore a c)) = Done ((h', s'), err)
    \<and> simulates (store_event x) (store_target x (h, snd (GetTxStore a c))) (h, snd (GetTxStore a c)) ((h', s'), err)
    \<and> store c' = (store c)(a \<mapsto> s')
    \<and> (\<forall>r. owner (FromAddress (h r)) \<noteq> a \<longrightarrow> h' r = h r)"
proof -
  obtain c1 s where G: "GetTxStore a c = (c1, s)" by fastforce
  note get = GetTxStore_inv [OF inv G]
  have al: "store_allowed x (h, s)" using allowed G by simp
  obtain h' s' err where call: "call_store x (h, s) = Done ((h', s'), err)" and inv': "store_inv (h', s')"
    and sim: "simulates (store_event x) (store_target x (h, s)) (h, s) ((h', s'), err)"
    using call_store_ok [OF get(3) al] by (metis surj_pair fst_conv)
  note frame = call_store_FromAddress [OF al call]
  have own: "owned_by owner h' a s'"
    using call_store_refs [OF al call] get(4) allowed frame(1)
    by (fastforce simp: owned_by_def)
  have heap: "owner (FromAddress (h r)) \<noteq> a \<Longrightarrow> h' r = h r" for r
    using frame(2) get(4) by (auto simp: owned_by_def)
  have upd: "store (snd (put_store a (h', s') c1)) = (store c)(a \<mapsto> s')"
    using store_GetTxStore [of a c] G by (auto simp: put_store_def fun_eq_iff)
  have "on_store_outcome a (call_store x) (h, c) = Done ((h', snd (put_store a (h', s') c1)), err)"
    using G call by (simp add: on_store_outcome_def put_store_def)
  moreover have "account_inv owner (h', snd (put_store a (h', s') c1))"
    using account_inv_put [OF get(1) inv' own heap] by (simp add: put_store_def)
  ultimately show ?thesis using upd call sim heap G by auto
qed

lemma account_status_call:
  assumes inv: "account_inv owner (h, c)" and upd: "store c' = (store c)(a \<mapsto> s')"
    and heap: "\<And>r. owner (FromAddress (h r)) \<noteq> a \<Longrightarrow> h' r = h r"
  shows "account_status (h', c') (b, j) = (if b = a then status (h', s') j else account_status (h, c) (b, j))"
proof (cases "b = a \<or> store c b = None")
  case True
  then show ?thesis using upd by (auto simp: status_def)
next
  case False
  then obtain t where t: "store c b = Some t" by auto
  have "h' r = h r" if "r \<in> store_refs t" for r
    using account_invD(2) [OF inv t] that False heap [of r] by (auto simp: owned_by_def)
  then have "GetStatus j (h', t) = GetStatus j (h, t)" by (rule status_heap_cong)
  then show ?thesis using t upd False by simp
qed

lemma run_account_op_ok:
  assumes inv: "account_inv owner st" and allowed: "account_allowed owner x st"
  shows "\<exists>st'. run_account_op x st = Done st' \<and> account_inv owner st'
    \<and> account_status st' = spec_status (account_event x) (account_target x st) (account_status st)"
proof -
  obtain h c a y where p: "st = (h, c)" "x = (a, y)" by (cases st, cases x)
  let ?s = "snd (GetTxStore a c)"
  obtain h' c' s' err where res: "on_store_outcome a (call_store y) (h, c) = Done ((h', c'), err)"
    "account_inv owner (h', c')" "store c' = (store c)(a \<mapsto> s')"
    and sim: "simulates (store_event y) (store_target y (h, ?s)) (h, ?s) ((h', s'), err)"
    and heap: "\<And>r. owner (FromAddress (h r)) \<noteq> a \<Longrightarrow> h' r = h r"
    using account_call [OF inv [unfolded p] allowed [unfolded p]] by blast
  have st: "status (h, ?s) = (\<lambda>i. account_status (h, c) (a, i))"
    by (auto simp: status_def account_status_GetTxStore fun_eq_iff simp del: account_status.simps)
  have "account_status (h', c') (b, j)
      = spec_status (store_event y) (a, store_target y (h, ?s)) (account_status (h, c)) (b, j)" for b j
    using account_status_call [OF inv [unfolded p] res(3), of h' b j] heap sim
    by (auto simp: simulates_def st spec_status_def simp del: account_status.simps split: option.splits)
  then show ?thesis using res(1,2)
    by (auto simp: p account_event_def fun_eq_iff simp del: account_status.simps)
qed

interpretation accounts: lifecycle_store "account_inv owner" account_status "account_allowed owner"
  run_account_op account_event account_target
  for owner
proof (unfold_locales, goal_cases)
  case (1 st x)
  then show ?case using run_account_op_ok by blast
next
  case (2 st x st')
  then show ?case using run_account_op_ok [of owner st x] by auto
next
  case (3 x)
  then show ?case using txstore.no_reap by (simp add: account_event_def)
qed

subsection \<open>The queries over all accounts\<close>

lemma sum_list_map_values:
  assumes "key_order m ks"
  shows "sum_list (List.map f (map_values ks m)) = (\<Sum>k \<in> dom m. f (the (m k)))"
proof -
  have "sum_list (List.map f (map_values ks m)) = (\<Sum>k \<leftarrow> filter (\<lambda>k. k \<in> dom m) ks. f (the (m k)))"
    for ks
    by (induction ks) (auto simp: map_values_def domIff split: option.splits)
  also have "filter (\<lambda>k. k \<in> dom m) ks = ks" using assms by (simp add: key_order_def)
  also have "(\<Sum>k \<leftarrow> ks. f (the (m k))) = (\<Sum>k \<in> dom m. f (the (m k)))"
    using assms by (auto simp: key_order_def sum_list_distinct_conv_sum_set)
  finally show ?thesis .
qed

lemma first_status_None: "first_status i h ss = None \<longleftrightarrow> (\<forall>s \<in> set ss. GetStatus i (h, s) = None)"
  by (induction ss) (auto split: option.splits)

lemma first_status_Some:
  "first_status i h ss = Some st \<Longrightarrow> \<exists>s \<in> set ss. GetStatus i (h, s) = Some st"
  by (induction ss) (auto split: option.splits)

lemma GetStatusAll_cases:
  assumes "key_order (store c) accs"
  shows "GetStatusAll accs i (h, c) = None \<longleftrightarrow> (\<forall>a. account_status (h, c) (a, i) = None)"
    and "GetStatusAll accs i (h, c) = Some st \<Longrightarrow> \<exists>a. account_status (h, c) (a, i) = Some st"
proof -
  have vals: "set (map_values accs (store c)) = ran (store c)" using assms by (rule key_order_values)
  show "GetStatusAll accs i (h, c) = None \<longleftrightarrow> (\<forall>a. account_status (h, c) (a, i) = None)"
    by (auto simp: GetStatusAll_def first_status_None vals ran_def split: option.splits)
  assume "GetStatusAll accs i (h, c) = Some st"
  then obtain s where "s \<in> ran (store c)" "GetStatus i (h, s) = Some st"
    using first_status_Some vals by (force simp: GetStatusAll_def)
  then obtain a where "store c a = Some s" "account_status (h, c) (a, i) = Some st"
    by (auto simp: ran_def)
  then show "\<exists>a. account_status (h, c) (a, i) = Some st" by blast
qed

lemma DeleteAllFinishedTxs_Cons:
  "fst (DeleteAllFinishedTxs (x # xs) c) = (case store c (fst x) of
     None \<Rightarrow> fst (DeleteAllFinishedTxs xs c)
   | Some s \<Rightarrow> fst (DeleteAllFinishedTxs xs
       (c\<lparr>store := (store c)(fst x \<mapsto> fst (DeleteFinishedTxs (snd x) s))\<rparr>)))"
  "snd (DeleteAllFinishedTxs (x # xs) c) = (case store c (fst x) of
     None \<Rightarrow> snd (DeleteAllFinishedTxs xs c)
   | Some s \<Rightarrow> snd (DeleteFinishedTxs (snd x) s) + snd (DeleteAllFinishedTxs xs
       (c\<lparr>store := (store c)(fst x \<mapsto> fst (DeleteFinishedTxs (snd x) s))\<rparr>)))"
  by (cases x; simp add: split_beta Let_def split: option.splits)+

lemma DeleteAllFinishedTxs_other:
  "a \<notin> fst ` set xs \<Longrightarrow> store (fst (DeleteAllFinishedTxs xs c)) a = store c a"
  by (induction xs arbitrary: c)
    (auto simp: DeleteAllFinishedTxs_Cons simp del: DeleteAllFinishedTxs.simps(2) split: option.splits)

lemma DeleteAllFinishedTxs_store:
  assumes "distinct (List.map fst xs)" and "(a, is) \<in> set xs"
  shows "store (fst (DeleteAllFinishedTxs xs c)) a =
    map_option (\<lambda>s. fst (DeleteFinishedTxs is s)) (store c a)"
  using assms
proof (induction xs arbitrary: c)
  case (Cons x xs)
  show ?case
  proof (cases "a = fst x")
    case True
    then have "a \<notin> fst ` set xs" "is = snd x"
      using Cons.prems by (auto simp: rev_image_eqI prod_eq_iff)
    then show ?thesis using True
      by (auto simp: DeleteAllFinishedTxs_Cons DeleteAllFinishedTxs_other split: option.splits)
  next
    case False
    then have "(a, is) \<in> set xs" "distinct (List.map fst xs)" using Cons.prems by auto
    then show ?thesis using Cons.IH False
      by (auto simp: DeleteAllFinishedTxs_Cons split: option.splits)
  qed
qed simp

lemma owned_by_reap: "owned_by owner h a s \<Longrightarrow> owned_by owner h a (fst (DeleteFinishedTxs is s))"
proof -
  have "store_refs (fst (DeleteFinishedTxs is s)) \<subseteq> store_refs s"
    using DeleteFinishedTxs_tables [of "is" s] by (auto simp: store_refs_def dest!: ran_restrictD intro: ranI)
  then show "owned_by owner h a s \<Longrightarrow> owned_by owner h a (fst (DeleteFinishedTxs is s))"
    by (auto simp: owned_by_def)
qed

lemma account_inv_DeleteAll:
  assumes "account_inv owner (h, c)"
  shows "account_inv owner (h, fst (DeleteAllFinishedTxs xs c))"
  using assms
proof (induction xs arbitrary: c)
  case (Cons x xs)
  have "account_inv owner (h, c\<lparr>store := (store c)(fst x \<mapsto> fst (DeleteFinishedTxs (snd x) s))\<rparr>)"
    if "store c (fst x) = Some s" for s
    using account_inv_put [OF Cons.prems store_inv_DeleteFinishedTxs owned_by_reap]
      account_invD [OF Cons.prems that] by (simp add: put_store_def)
  then show ?case using Cons
    by (auto simp: DeleteAllFinishedTxs_Cons simp del: DeleteAllFinishedTxs.simps(2) split: option.splits)
qed simp

subsection \<open>Properties of the account store\<close>

text \<open>
  C39. Refinement and isolation: an allowed call on the store of one account
  returns, keeps the invariant of every account, moves the status of the one transaction it names
  as the lifecycle prescribes, and changes the status of no transaction of any other account.
\<close>

theorem account_store_refines:
  assumes "account_inv owner (h, c)" and "account_allowed owner (a, x) (h, c)"
  shows "\<exists>h' c'. run_account_op (a, x) (h, c) = Done (h', c') \<and> account_inv owner (h', c')
    \<and> account_status (h', c') = spec_status (store_event x)
        (a, store_target x (h, snd (GetTxStore a c))) (account_status (h, c))
    \<and> (\<forall>b i. b \<noteq> a \<longrightarrow> account_status (h', c') (b, i) = account_status (h, c) (b, i))"
proof -
  obtain st' where st': "run_account_op (a, x) (h, c) = Done st'" "account_inv owner st'"
    "account_status st' = spec_status (store_event x)
        (a, store_target x (h, snd (GetTxStore a c))) (account_status (h, c))"
    using run_account_op_ok [OF assms] by (auto simp: account_event_def)
  obtain h' c' where "st' = (h', c')" by (cases st')
  then show ?thesis using st'
    by (intro exI [of _ h'] exI [of _ c'])
      (simp add: spec_status_other del: account_status.simps run_account_op.simps)
qed

theorem account_store_refines_witness:
  "\<exists>h' c'. run_account_op (''acc'', OpPending 0) (sample_heap, NewAccountStore) = Done (h', c')
     \<and> account_status (h', c') (''acc'', ''id1'') = Some Pending
     \<and> account_status (h', c') (''other'', ''id1'') = None"
proof -
  have al: "account_allowed (\<lambda>_. ''acc'') (''acc'', OpPending 0) (sample_heap, NewAccountStore)"
    by (simp add: GetTxStore_def NewAccountStore_def NewTxStore_def Has_def sample_heap_def sample_tx_def)
  have tgt: "store_target (OpPending 0) (sample_heap, s) = ''id1''" for s
    by (simp add: sample_ID)
  have none: "account_status (sample_heap, NewAccountStore) (b, i) = None" for b i
    by (simp add: NewAccountStore_def)
  obtain h' c' where r: "run_account_op (''acc'', OpPending 0) (sample_heap, NewAccountStore) = Done (h', c')"
    and st: "account_status (h', c') = spec_status Submit (''acc'', ''id1'') (account_status (sample_heap, NewAccountStore))"
    using account_store_refines [OF account_inv_New al] unfolding tgt store_event.simps by blast
  have "account_status (h', c') (''acc'', ''id1'') = Some Pending"
    "account_status (h', c') (''other'', ''id1'') = None"
    unfolding st by (simp_all add: spec_status_def none del: account_status.simps)
  then show ?thesis using r by blast
qed

text \<open>
  Safety over any run of allowed calls on any accounts: a transaction
  that is errored, fatally errored or finalized keeps that status.
\<close>

theorem account_finished_is_final:
  assumes "account_inv owner st" and "run_allowed (account_allowed owner) run_account_op xs st"
    and "for_range run_account_op xs st = Done st'"
    and "account_status st (a, i) = Some v" and "v \<in> {Errored, FatallyErrored, Finalized}"
  shows "account_status st' (a, i) = Some v"
  using accounts.finished_is_final [OF assms(1-4)] assms(5) by (simp add: finished_states_def)

definition sample_accounts :: account_state where
  "sample_accounts = (fst sample_finished, \<lparr>store = [''acc'' \<mapsto> snd sample_finished]\<rparr>)"

lemma sample_accounts_inv: "account_inv (\<lambda>_. ''acc'') sample_accounts"
  using sample_finished_inv
  by (simp add: sample_accounts_def account_inv_def owned_by_def)

theorem account_finished_is_final_witness:
  "account_status (the_Done (for_range run_account_op [(''acc'', OpConfirmed ''id1'')] sample_accounts))
     (''acc'', ''id1'') = Some Finalized"
proof -
  have run: "for_range run_account_op [(''acc'', OpConfirmed ''id1'')] sample_accounts = Done sample_accounts"
    by (simp add: sample_accounts_def on_store_outcome_def GetTxStore_def OnConfirmed_def put_store_def
      sample_finished_def NewTxStore_def fun_upd_triv)
  have st: "account_status sample_accounts (''acc'', ''id1'') = Some Finalized"
    using sample_finished_status by (simp add: sample_accounts_def status_def)
  have al: "run_allowed (account_allowed (\<lambda>_. ''acc'')) run_account_op [(''acc'', OpConfirmed ''id1'')] sample_accounts"
    using run by (simp add: sample_accounts_def split: outcome.splits)
  show ?thesis using account_finished_is_final [OF sample_accounts_inv al run st] run by simp
qed

text \<open>
  Whatever order the accounts are ranged over, the total in-flight
  count is the number of pairs of an account and an ID whose status is \<open>Broadcasted\<close>.
\<close>

theorem GetTotalInflightCount_counts:
  assumes "account_inv owner (h, c)" and "key_order (store c) accs"
    and "\<And>a s. store c a = Some s \<Longrightarrow> finite (dom (unconfirmedTxs s))"
  shows "GetTotalInflightCount accs c = card {k. account_status (h, c) k = Some Broadcasted}"
proof -
  have entry: "i \<in> dom (unconfirmedTxs s) \<longleftrightarrow> GetStatus i (h, s) = Some Broadcasted"
    if "store c a = Some s" for a s i
    using status_table(2) [OF account_invD(1) [OF assms(1) that]] by (auto simp: status_def dom_def)
  have entry1: "store c a = Some s \<Longrightarrow> unconfirmedTxs s i = Some p \<Longrightarrow> GetStatus i (h, s) = Some Broadcasted"
    and entry2: "store c a = Some s \<Longrightarrow> GetStatus i (h, s) = Some Broadcasted \<Longrightarrow> \<exists>p. unconfirmedTxs s i = Some p"
    for a s i p
    using entry [of a s i] by auto
  have "GetTotalInflightCount accs c
      = (\<Sum>a \<in> dom (store c). card (dom (unconfirmedTxs (the (store c a)))))"
    using assms(2) by (simp add: GetTotalInflightCount_def sum_list_map_values InflightCount_def)
  also have "\<dots> = card (SIGMA a : dom (store c). dom (unconfirmedTxs (the (store c a))))"
    using assms(3) key_order_finite [OF assms(2)] by (intro card_SigmaI [symmetric]) auto
  also have "(SIGMA a : dom (store c). dom (unconfirmedTxs (the (store c a))))
      = {k. account_status (h, c) k = Some Broadcasted}"
    by (auto split: option.splits dest: entry1 entry2)
  finally show ?thesis .
qed

theorem GetTotalInflightCount_counts_witness:
  "GetTotalInflightCount [''acc''] (snd sample_accounts) = 0
   \<and> {k. account_status sample_accounts k = Some Broadcasted} = {}"
proof -
  have e: "{k. account_status sample_accounts k = Some Broadcasted} = {}"
    by (auto simp: sample_accounts_def GetStatus_def sample_finished_def NewTxStore_def sample_tx_def
        split: option.splits if_splits)
  have ord: "key_order (store (snd sample_accounts)) [''acc'']"
    by (simp add: key_order_def sample_accounts_def)
  have fin: "finite (dom (unconfirmedTxs s))" if "store (snd sample_accounts) a = Some s" for a s
    using that by (auto simp: sample_accounts_def sample_finished_def NewTxStore_def split: if_splits)
  show ?thesis
    using GetTotalInflightCount_counts [of "\<lambda>_. ''acc''" "fst sample_accounts" "snd sample_accounts",
        OF _ ord fin] sample_accounts_inv e by simp
qed

text \<open>
  \<open>GetStatusAll\<close> is determined, whatever order the accounts are ranged over,
  when one account at most tracks the ID: it reports that account's status.
\<close>

theorem GetStatusAll_unique:
  assumes "key_order (store c) accs" and "\<And>b. b \<noteq> a \<Longrightarrow> account_status (h, c) (b, i) = None"
  shows "GetStatusAll accs i (h, c) = account_status (h, c) (a, i)"
proof (cases "GetStatusAll accs i (h, c)")
  case None
  then show ?thesis using GetStatusAll_cases(1) [OF assms(1)] by simp
next
  case (Some st)
  then obtain b where "account_status (h, c) (b, i) = Some st"
    using GetStatusAll_cases(2) [OF assms(1)] by blast
  then show ?thesis using assms(2) [of b] Some by (cases "b = a") (simp_all del: account_status.simps)
qed

theorem GetStatusAll_unique_witness:
  "GetStatusAll [''acc''] ''id1'' sample_accounts = Some Finalized"
proof -
  have ord: "key_order (store (snd sample_accounts)) [''acc'']"
    by (simp add: key_order_def sample_accounts_def)
  have none: "b \<noteq> ''acc'' \<Longrightarrow> account_status (fst sample_accounts, snd sample_accounts) (b, ''id1'') = None" for b
    by (simp add: sample_accounts_def)
  from GetStatusAll_unique [OF ord none] sample_finished_status show ?thesis
    by (simp add: sample_accounts_def status_def)
qed

text \<open>
  An ID is unique per account only: when two accounts track the same ID, the order of the range
  decides which status \<open>GetStatusAll\<close> reports.
\<close>

definition ambiguous_accounts :: account_state where
  "ambiguous_accounts =
     ((\<lambda>r. (sample_tx ''id1'' (if r = 0 then Finalized else Pending))\<lparr>FromAddress := [of_nat r]\<rparr>),
      \<lparr>store = [''a'' \<mapsto> snd sample_finished,
               ''b'' \<mapsto> NewTxStore\<lparr>pendingTxs := [''id1'' \<mapsto> 1]\<rparr>]\<rparr>)"

theorem GetStatusAll_ambiguous:
  "GetStatusAll [''a'', ''b''] ''id1'' ambiguous_accounts = Some Finalized
   \<and> GetStatusAll [''b'', ''a''] ''id1'' ambiguous_accounts = Some Pending"
  by (simp add: GetStatusAll_def ambiguous_accounts_def map_values_def GetStatus_def
      sample_finished_def NewTxStore_def sample_tx_def)

lemma ambiguous_accounts_inv: "account_inv (\<lambda>b. if b = [0] then ''a'' else ''b'') ambiguous_accounts"
proof -
  let ?h = "fst ambiguous_accounts"
  have a: "store_inv (?h, snd sample_finished)"
    by (rule store_invI) (auto simp: store_inv_defs NewTxStore_def sample_tx_def sample_finished_def
        ambiguous_accounts_def)
  have b: "store_inv (?h, NewTxStore\<lparr>pendingTxs := [''id1'' \<mapsto> 1]\<rparr>)"
    by (rule store_invI) (auto simp: store_inv_defs NewTxStore_def sample_tx_def ambiguous_accounts_def)
  show ?thesis using a b
    by (auto simp: account_inv_def ambiguous_accounts_def owned_by_def store_refs_def
        sample_finished_def NewTxStore_def sample_tx_def split: if_splits)
qed

end
