(* ===== verification/GoNum.thy ===== *)
theory GoNum
  imports Prelude "HOL-Library.Sublist"
begin

text \<open>
  What the code uses of Go's \<open>strings\<close>, \<open>strconv\<close>, \<open>math\<close> and \<open>math/big\<close> packages. A Go
  string is a sequence of bytes, and so is an Isabelle \<open>string\<close>.
\<close>

subsection \<open>Strings\<close>

text \<open>\<open>strings.Split\<close> with a separator of one byte.\<close>

fun strings_Split :: "string \<Rightarrow> char \<Rightarrow> string list" where
  "strings_Split [] sep = [[]]"
| "strings_Split (x # xs) sep =
     (if x = sep then [] # strings_Split xs sep
      else (case strings_Split xs sep of [] \<Rightarrow> [[x]] | w # ws \<Rightarrow> (x # w) # ws))"

fun strings_Contains :: "string \<Rightarrow> string \<Rightarrow> bool" where
  "strings_Contains [] sub \<longleftrightarrow> sub = []"
| "strings_Contains (x # xs) sub \<longleftrightarrow> prefix sub (x # xs) \<or> strings_Contains xs sub"

definition strings_HasPrefix :: "string \<Rightarrow> string \<Rightarrow> bool" where
  "strings_HasPrefix s p \<longleftrightarrow> prefix p s"

definition strings_TrimPrefix :: "string \<Rightarrow> string \<Rightarrow> string" where
  "strings_TrimPrefix s p = (if prefix p s then drop (length p) s else s)"

text \<open>\<open>strings.Replace(s, [a, b], "", -1)\<close>: the occurrences of a two-byte string, left to right.\<close>

fun remove_pairs :: "char \<Rightarrow> char \<Rightarrow> string \<Rightarrow> string" where
  "remove_pairs a b (x # y # xs) =
     (if x = a \<and> y = b then remove_pairs a b xs else x # remove_pairs a b (y # xs))"
| "remove_pairs a b xs = xs"

fun join_char :: "char \<Rightarrow> string list \<Rightarrow> string" where
  "join_char sep [] = []"
| "join_char sep [w] = w"
| "join_char sep (w # ws) = w @ sep # join_char sep ws"

lemma strings_Split_not_Nil: "strings_Split s sep \<noteq> []"
  by (induction s) (auto split: list.splits)

lemma join_strings_Split: "join_char sep (strings_Split s sep) = s"
proof (induction s)
  case (Cons x xs)
  obtain w ws where "strings_Split xs sep = w # ws"
    using strings_Split_not_Nil by (cases "strings_Split xs sep") auto
  then show ?case using Cons by (cases ws) auto
qed simp

lemma strings_Split_no_sep: "sep \<notin> set s \<Longrightarrow> strings_Split s sep = [s]"
  by (induction s) auto

lemma strings_Split_append:
  "sep \<notin> set u \<Longrightarrow> strings_Split (u @ sep # s) sep = u # strings_Split s sep"
  by (induction u) auto

lemma strings_Split_sep: "strings_Split (u @ sep # s) sep = strings_Split u sep @ strings_Split s sep"
  using strings_Split_not_Nil by (induction u) (auto split: list.splits)

lemma remove_pairs_absent: "a \<notin> set s \<Longrightarrow> remove_pairs a b s = s"
  by (induction a b s rule: remove_pairs.induct) auto

subsection \<open>Numbers in strings\<close>

definition digit_val :: "char \<Rightarrow> int option" where
  "digit_val c =
     (let n = of_char c
      in if 48 \<le> n \<and> n \<le> 57 then Some (n - 48)       \<comment> \<open>0 to 9\<close>
         else if 97 \<le> n \<and> n \<le> 122 then Some (n - 87)  \<comment> \<open>a to z\<close>
         else if 65 \<le> n \<and> n \<le> 90 then Some (n - 55)   \<comment> \<open>A to Z\<close>
         else None)"

datatype num_error = ErrSyntax | ErrRange

text \<open>
  The digit loop of \<open>strconv.ParseUint\<close>. A value beyond the bit size ends the loop with the
  largest value and \<open>ErrRange\<close>, whatever the remaining bytes are.
\<close>

fun parse_digits :: "int \<Rightarrow> int \<Rightarrow> int \<Rightarrow> string \<Rightarrow> int \<times> num_error option" where
  "parse_digits base maxVal n [] = (n, None)"
| "parse_digits base maxVal n (c # cs) =
     (case digit_val c of
        None \<Rightarrow> (0, Some ErrSyntax)
      | Some d \<Rightarrow>
          if base \<le> d then (0, Some ErrSyntax)
          else if maxVal < n * base + d then (maxVal, Some ErrRange)
          else parse_digits base maxVal (n * base + d) cs)"

definition ParseUint :: "string \<Rightarrow> nat \<Rightarrow> int \<times> num_error option" where
  "ParseUint s bitSize =
     (if s = [] then (0, Some ErrSyntax) else parse_digits 10 (2 ^ bitSize - 1) 0 s)"

definition strip_sign :: "string \<Rightarrow> bool \<times> string" where
  "strip_sign s = (case s of [] \<Rightarrow> (False, [])
     | c # cs \<Rightarrow> if c = CHR ''+'' then (False, cs) else if c = CHR ''-'' then (True, cs) else (False, s))"

text \<open>\<open>strconv.ParseInt(s, 10, bitSize)\<close>: the value is also given next to a range error.\<close>

definition ParseInt :: "string \<Rightarrow> nat \<Rightarrow> int \<times> num_error option" where
  "ParseInt s bitSize =
     (if s = [] then (0, Some ErrSyntax)
      else
        let (neg, t) = strip_sign s; (un, err) = ParseUint t bitSize; cutoff = 2 ^ (bitSize - 1)
        in if err = Some ErrSyntax then (0, err)
           else if \<not> neg \<and> cutoff \<le> un then (cutoff - 1, Some ErrRange)
           else if neg \<and> cutoff < un then (- cutoff, Some ErrRange)
           else (if neg then - un else un, None))"

text \<open>\<open>new(big.Int).SetString(s, base)\<close>; \<open>None\<close> is the nil pointer with \<open>ok = false\<close>.\<close>

fun big_digits :: "int \<Rightarrow> int \<Rightarrow> string \<Rightarrow> int option" where
  "big_digits base n [] = Some n"
| "big_digits base n (c # cs) =
     (case digit_val c of
        None \<Rightarrow> None
      | Some d \<Rightarrow> if base \<le> d then None else big_digits base (n * base + d) cs)"

definition big_SetString :: "string \<Rightarrow> int \<Rightarrow> int option" where
  "big_SetString s base =
     (let (neg, t) = strip_sign s
      in if t = [] then None else map_option (\<lambda>n. if neg then - n else n) (big_digits base 0 t))"

text \<open>\<open>big.Int.Bytes\<close>: the absolute value, big-endian, without leading zeros.\<close>

fun nat_bytes :: "nat \<Rightarrow> bytes" where
  "nat_bytes n = (if n = 0 then [] else nat_bytes (n div 256) @ [of_nat (n mod 256)])"

declare nat_bytes.simps [simp del]

definition bytes_nat :: "bytes \<Rightarrow> nat" where
  "bytes_nat bs = foldl (\<lambda>n b. n * 256 + unat b) 0 bs"

definition big_Bytes :: "int \<Rightarrow> bytes" where
  "big_Bytes n = nat_bytes (nat \<bar>n\<bar>)"

definition big_SetBytes :: "bytes \<Rightarrow> int" where
  "big_SetBytes bs = int (bytes_nat bs)"

fun dec_string :: "nat \<Rightarrow> string" where
  "dec_string n = (if n < 10 then [char_of (48 + n)] else dec_string (n div 10) @ [char_of (48 + n mod 10)])"

declare dec_string.simps [simp del]

definition big_String :: "int \<Rightarrow> string" where
  "big_String n = (if n < 0 then CHR ''-'' # dec_string (nat (- n)) else dec_string (nat n))"

lemma digit_val_nonneg: "digit_val c = Some d \<Longrightarrow> 0 \<le> d"
  by (auto simp: digit_val_def Let_def split: if_splits)

lemma parse_digits_bounds:
  assumes "parse_digits base maxVal n s = (v, err)" and "0 \<le> n" "n \<le> maxVal" "0 \<le> base"
  shows "0 \<le> v \<and> v \<le> maxVal"
  using assms
proof (induction base maxVal n s arbitrary: v err rule: parse_digits.induct)
  case (2 base maxVal n c cs)
  then show ?case
    by (auto split: option.splits if_splits dest: digit_val_nonneg)
qed simp

lemma ParseUint_bounds:
  assumes "ParseUint s w = (v, err)" shows "0 \<le> v \<and> v < 2 ^ w"
  using parse_digits_bounds [of 10 "2 ^ w - 1" 0 s v err] assms
  by (auto simp: ParseUint_def split: if_splits)

lemma ParseInt_bounds:
  assumes "ParseInt s w = (v, err)" and "0 < w"
  shows "- (2 ^ (w - 1)) \<le> v \<and> v < 2 ^ (w - 1)"
proof -
  obtain neg t where st: "strip_sign s = (neg, t)" by fastforce
  obtain un e where pu: "ParseUint t w = (un, e)" by fastforce
  have "0 \<le> un" using ParseUint_bounds [OF pu] by simp
  moreover have "- un < 2 ^ (w - Suc 0)"
    using \<open>0 \<le> un\<close> by (smt (verit) zero_less_power)
  ultimately show ?thesis using assms st pu
    by (auto simp: ParseInt_def Let_def split: if_splits)
qed

lemma bytes_nat_append: "bytes_nat (xs @ [b]) = bytes_nat xs * 256 + unat b"
  by (simp add: bytes_nat_def)

lemma bytes_nat_bytes: "bytes_nat (nat_bytes n) = n"
proof (induction n rule: nat_bytes.induct)
  case (1 n)
  have "unat (of_nat (n mod 256) :: byte) = n mod 256"
    by (simp add: unat_of_nat)
  then show ?case using 1
    by (subst nat_bytes.simps) (auto simp: bytes_nat_append bytes_nat_def [of "[]"])
qed

lemma length_nat_bytes: "n < 256 ^ k \<Longrightarrow> length (nat_bytes n) \<le> k"
proof (induction k arbitrary: n)
  case 0
  then show ?case by (simp add: nat_bytes.simps)
next
  case (Suc k)
  have "n div 256 < 256 ^ k" using Suc.prems by (simp add: less_mult_imp_div_less)
  from Suc.IH [OF this] show ?case by (subst nat_bytes.simps) simp
qed

lemma bytes_nat_less: "bytes_nat bs < 256 ^ length bs"
proof (induction bs rule: rev_induct)
  case Nil
  then show ?case by (simp add: bytes_nat_def)
next
  case (snoc b bs)
  have "unat b < 256" using unsigned_less [where ?'a = nat, of b] by simp
  then show ?case using snoc by (simp add: bytes_nat_append)
qed

lemma length_nat_bytes_iff: "length (nat_bytes n) \<le> k \<longleftrightarrow> n < 256 ^ k"
proof
  assume "length (nat_bytes n) \<le> k"
  then have "(256::nat) ^ length (nat_bytes n) \<le> 256 ^ k" by (rule power_increasing) simp
  moreover have "n < 256 ^ length (nat_bytes n)" using bytes_nat_less [of "nat_bytes n"] by (simp only: bytes_nat_bytes)
  ultimately show "n < 256 ^ k" by (rule less_le_trans [rotated])
qed (rule length_nat_bytes)

end
