(* ===== verification/GoFloat.thy ===== *)
theory GoFloat
  imports Prelude
begin

text \<open>
  The \<open>float64\<close> arithmetic of the fee computation: multiplication rounded to 53 bits (to nearest,
  ties to even), \<open>math.Pow\<close> with a positive integral exponent, and the conversion to \<open>int32\<close>. A finite
  value is a dyadic number \<open>m * 2 ^ e\<close>. The values that occur are zero or at least 1 in size, so no
  result is subnormal. A conversion that does not fit is implementation-defined in Go; it is the
  parameter \<open>oob\<close>.
\<close>

datatype float64 = Fin int int | PosInf | NegInf | NaN

fun bitlen :: "nat \<Rightarrow> nat" where
  "bitlen n = (if n = 0 then 0 else Suc (bitlen (n div 2)))"

declare bitlen.simps [simp del]

definition round_shift :: "nat \<Rightarrow> nat \<Rightarrow> nat" where
  "round_shift s m =
     (let q = m div 2 ^ s; r = m mod 2 ^ s; half = 2 ^ s div 2
      in if r < half \<or> (r = half \<and> even q) then q else q + 1)"

text \<open>Rounding of \<open>m * 2 ^ e\<close>, and overflow at \<open>2 ^ 1024\<close>.\<close>

definition overflows :: "nat \<Rightarrow> int \<Rightarrow> bool" where
  "overflows m e \<longleftrightarrow> 0 < m \<and> 1024 < e + int (bitlen m)"

definition round53 :: "int \<Rightarrow> int \<Rightarrow> int \<times> int" where
  "round53 m e =
     (let n = nat \<bar>m\<bar>; s = bitlen n - 53
      in if s = 0 then (m, e) else (sgn m * int (round_shift s n), e + int s))"

definition finish_float :: "int \<times> int \<Rightarrow> float64" where
  "finish_float p =
     (let (m, e) = p
      in if overflows (nat \<bar>m\<bar>) e then (if 0 < m then PosInf else NegInf) else Fin m e)"

definition is_zero :: "float64 \<Rightarrow> bool" where
  "is_zero x = (case x of Fin m e \<Rightarrow> m = 0 | _ \<Rightarrow> False)"

definition is_neg :: "float64 \<Rightarrow> bool" where
  "is_neg x = (case x of Fin m e \<Rightarrow> m < 0 | NegInf \<Rightarrow> True | _ \<Rightarrow> False)"

fun float_mul :: "float64 \<Rightarrow> float64 \<Rightarrow> float64" where
  "float_mul (Fin m e) (Fin m' e') = finish_float (round53 (m * m') (e + e'))"
| "float_mul x y =
     (if x = NaN \<or> y = NaN \<or> is_zero x \<or> is_zero y then NaN
      else if is_neg x = is_neg y then PosInf else NegInf)"

text \<open>
  The loop of \<open>math.Pow\<close> for an integral exponent: rounded repeated squaring of the fraction, the
  exponent of two kept apart until the end, so overflow is only looked at in the result.
\<close>

function pow_loop :: "nat \<Rightarrow> int \<times> int \<Rightarrow> int \<times> int \<Rightarrow> int \<times> int" where
  "pow_loop i x a =
     (if i = 0 then a
      else pow_loop (i div 2) (round53 (fst x * fst x) (snd x + snd x))
             (if odd i then round53 (fst a * fst x) (snd a + snd x) else a))"
  by auto
termination by (relation "measure fst") auto

declare pow_loop.simps [simp del]

text \<open>\<open>math.Pow(x, float64(y))\<close> for \<open>x\<close> at least 1, or not finite, and a \<open>uint32\<close> exponent.\<close>

definition math_Pow :: "float64 \<Rightarrow> uint32 \<Rightarrow> float64" where
  "math_Pow x y =
     (if y = 0 then Fin 1 0
      else if y = 1 then x
      else (case x of Fin m e \<Rightarrow> finish_float (pow_loop (unat y) (m, e) (1, 0)) | _ \<Rightarrow> x))"

text \<open>\<open>x < 1.0\<close>.\<close>

fun float_less_one :: "float64 \<Rightarrow> bool" where
  "float_less_one (Fin m e) \<longleftrightarrow> (if 0 \<le> e then m * 2 ^ nat e < 1 else m < 2 ^ nat (- e))"
| "float_less_one NegInf \<longleftrightarrow> True"
| "float_less_one _ \<longleftrightarrow> False"

text \<open>The truncation toward zero, and the conversion \<open>int32(x)\<close>.\<close>

definition float_trunc :: "int \<Rightarrow> int \<Rightarrow> int" where
  "float_trunc m e = (if 0 \<le> e then m * 2 ^ nat e else sgn m * (\<bar>m\<bar> div 2 ^ nat (- e)))"

fun float_to_int32 :: "(float64 \<Rightarrow> int32) \<Rightarrow> float64 \<Rightarrow> int32" where
  "float_to_int32 oob (Fin m e) =
     (let t = float_trunc m e in if - (2 ^ 31) \<le> t \<and> t < 2 ^ 31 then word_of_int t else oob (Fin m e))"
| "float_to_int32 oob x = oob x"

subsection \<open>Small products are exact\<close>

lemma bitlen_le: "n < 2 ^ k \<Longrightarrow> bitlen n \<le> k"
proof (induction k arbitrary: n)
  case 0
  then show ?case by (simp add: bitlen.simps)
next
  case (Suc k)
  have "n div 2 < 2 ^ k" using Suc.prems by auto
  from Suc.IH [OF this] show ?case by (subst bitlen.simps) simp
qed

lemma round53_exact: "\<bar>m\<bar> < 2 ^ 53 \<Longrightarrow> round53 m e = (m, e)"
proof -
  assume "\<bar>m\<bar> < 2 ^ 53"
  then have "nat \<bar>m\<bar> < 2 ^ 53" by (simp add: nat_less_iff)
  then have "bitlen (nat \<bar>m\<bar>) \<le> 53" by (rule bitlen_le)
  then show "round53 m e = (m, e)" by (simp add: round53_def Let_def)
qed

lemma finish_float_small:
  assumes "\<bar>m\<bar> < 2 ^ 53" and "e \<le> 0"
  shows "finish_float (m, e) = Fin m e"
proof -
  have "nat \<bar>m\<bar> < 2 ^ 53" using assms(1) by (simp add: nat_less_iff)
  then have "bitlen (nat \<bar>m\<bar>) \<le> 53" by (rule bitlen_le)
  then show ?thesis using assms(2) by (simp add: finish_float_def overflows_def)
qed

lemma float_mul_exact:
  assumes "\<bar>m * m'\<bar> < 2 ^ 53" and "e + e' \<le> 0"
  shows "float_mul (Fin m e) (Fin m' e') = Fin (m * m') (e + e')"
  using assms by (simp add: round53_exact finish_float_small)

lemma float_to_int32_quot:
  assumes "0 \<le> m" and "m div 2 ^ k < 2 ^ 31"
  shows "float_to_int32 oob (Fin m (- int k)) = word_of_int (m div 2 ^ k)"
proof (cases "m = 0 \<or> k = 0")
  case True
  then show ?thesis using assms by (auto simp: float_trunc_def)
next
  case False
  then have "float_trunc m (- int k) = m div 2 ^ k" using assms(1) by (auto simp: float_trunc_def)
  moreover have "0 \<le> m div 2 ^ k" using assms(1) by (simp add: pos_imp_zdiv_nonneg_iff)
  ultimately show ?thesis using assms(2) by (simp add: Let_def)
qed

text \<open>The powers of the default multiplier \<open>1.5 = 3 * 2 ^ -1\<close> that the retries reach.\<close>

lemma pow_loop_0: "pow_loop 0 x a = a"
  by (subst pow_loop.simps) simp

lemma pow_loop_step:
  "0 < i \<Longrightarrow> pow_loop i x a =
     pow_loop (i div 2) (round53 (fst x * fst x) (snd x + snd x))
       (if odd i then round53 (fst a * fst x) (snd a + snd x) else a)"
  by (subst pow_loop.simps) simp

lemma math_Pow_default:
  "math_Pow (Fin 3 (- 1)) 1 = Fin 3 (- 1)"
  "math_Pow (Fin 3 (- 1)) 2 = Fin 9 (- 2)"
  "math_Pow (Fin 3 (- 1)) 3 = Fin 27 (- 3)"
  "math_Pow (Fin 3 (- 1)) 4 = Fin 81 (- 4)"
  "math_Pow (Fin 3 (- 1)) 5 = Fin 243 (- 5)"
  by (simp_all add: math_Pow_def pow_loop_0 pow_loop_step round53_exact finish_float_small)

end
