(* ===== verification/Energy.thy ===== *)
theory Energy
  imports GoNum GoFloat
begin

text \<open>
  relayer/txm/energy.go: the energy price the node reports, and the fee limit with its padding.
\<close>

definition DEFAULT_ENERGY_UNIT_PRICE :: int32 where
  "DEFAULT_ENERGY_UNIT_PRICE = 210"

datatype price_error = EmptyPrices | InvalidPriceFormat "string list" | PriceNotParsed num_error

definition ParseLatestEnergyPrice :: "string \<Rightarrow> int32 \<times> price_error option" where
  "ParseLatestEnergyPrice energyPricesStr =
     (let energyPricesList = strings_Split energyPricesStr CHR '',''
      in if length energyPricesList = 0 then (DEFAULT_ENERGY_UNIT_PRICE, Some EmptyPrices)
         else
           let lastPriceParts = strings_Split (energyPricesList ! (length energyPricesList - 1)) CHR '':''
           in if length lastPriceParts \<noteq> 2
              then (DEFAULT_ENERGY_UNIT_PRICE, Some (InvalidPriceFormat lastPriceParts))
              else (case ParseInt (lastPriceParts ! 1) 32 of
                      (v, None) \<Rightarrow> (word_of_int v, None)
                    | (v, Some err) \<Rightarrow> (DEFAULT_ENERGY_UNIT_PRICE, Some (PriceNotParsed err))))"

text \<open>\<open>bumpTimes+1\<close> is computed in \<open>uint32\<close>; \<open>float64(feeLimit)\<close> is exact.\<close>

definition CalculatePaddedFeeLimit :: "(float64 \<Rightarrow> int32) \<Rightarrow> int32 \<Rightarrow> uint32 \<Rightarrow> float64 \<Rightarrow> int32" where
  "CalculatePaddedFeeLimit oob feeLimit bumpTimes multiplier =
     float_to_int32 oob (float_mul (Fin (sint feeLimit) 0) (math_Pow multiplier (bumpTimes + 1)))"

text \<open>\<open>DEFAULT_ENERGY_MULTIPLIER = 1.5\<close> of txm.go.\<close>

definition DEFAULT_ENERGY_MULTIPLIER :: float64 where
  "DEFAULT_ENERGY_MULTIPLIER = Fin 3 (- 1)"

subsection \<open>Decimal strings\<close>

definition digit_chars :: "char set" where
  "digit_chars = set ''0123456789''"

lemma digits_table:
  "list_all (\<lambda>d. char_of (48 + d) \<in> set ''0123456789'' \<and> digit_val (char_of (48 + d)) = Some (int d))
     [0 ..< (10 :: nat)]"
  by code_simp

lemma digit_char: "d < 10 \<Longrightarrow> char_of (48 + d) \<in> digit_chars" for d :: nat
  using digits_table by (simp add: digit_chars_def list_all_iff del: upt_rec_numeral)

lemma digit_val_digit: "d < 10 \<Longrightarrow> digit_val (char_of (48 + d)) = Some (int d)" for d :: nat
  using digits_table by (simp add: list_all_iff del: upt_rec_numeral)

lemma dec_string_rec: "10 \<le> n \<Longrightarrow> dec_string n = dec_string (n div 10) @ [char_of (48 + n mod 10)]"
  by (subst dec_string.simps) simp

lemma dec_string_digits: "set (dec_string n) \<subseteq> digit_chars"
proof (induction n rule: dec_string.induct)
  case (1 n)
  show ?case
  proof (cases "n < 10")
    case True
    then show ?thesis using digit_char by (subst dec_string.simps) simp
  next
    case False
    then show ?thesis using 1 digit_char [of "n mod 10"] by (simp add: dec_string_rec)
  qed
qed

lemma dec_string_not_Nil: "dec_string n \<noteq> []"
  by (subst dec_string.simps) simp

lemma parse_digits_append:
  "parse_digits base maxVal n xs = (m, None) \<Longrightarrow>
     parse_digits base maxVal n (xs @ ys) = parse_digits base maxVal m ys"
  by (induction base maxVal n xs rule: parse_digits.induct) (auto split: option.splits if_splits)

lemma parse_dec_string: "int n \<le> maxVal \<Longrightarrow> parse_digits 10 maxVal 0 (dec_string n) = (int n, None)"
proof (induction n rule: dec_string.induct)
  case (1 n)
  show ?case
  proof (cases "n < 10")
    case True
    then show ?thesis using 1 by (subst dec_string.simps) (simp add: digit_val_digit)
  next
    case False
    then have "int (n div 10) \<le> maxVal" using 1(2) by linarith
    then have "parse_digits 10 maxVal 0 (dec_string (n div 10)) = (int (n div 10), None)"
      using 1(1) False by blast
    moreover have "int (n div 10) * 10 + int (n mod 10) = int n"
      by (metis div_mult_mod_eq of_nat_add of_nat_mult of_nat_numeral)
    moreover have "n mod 10 < 10" by simp
    ultimately show ?thesis using 1(2) False
      by (simp add: dec_string_rec parse_digits_append digit_val_digit del: of_nat_mod of_nat_div)
  qed
qed

lemma strip_sign_digits:
  assumes "s \<noteq> []" and "set s \<subseteq> digit_chars"
  shows "strip_sign s = (False, s)"
proof -
  have "CHR ''+'' \<notin> digit_chars" "CHR ''-'' \<notin> digit_chars"
    by (simp_all add: digit_chars_def)
  then show ?thesis using assms by (cases s) (auto simp: strip_sign_def)
qed

text \<open>Printing a non-negative number in decimal and parsing it gives the number back.\<close>

lemma ParseInt_dec_string:
  assumes "int n < 2 ^ (w - 1)" and "0 < w"
  shows "ParseInt (dec_string n) w = (int n, None)"
proof -
  have "(2::int) ^ (w - 1) \<le> 2 ^ w" using assms(2) by simp
  then have "int n \<le> 2 ^ w - 1" using assms(1) by linarith
  from parse_dec_string [OF this] have "ParseUint (dec_string n) w = (int n, None)"
    by (simp add: ParseUint_def dec_string_not_Nil)
  then show ?thesis
    using assms strip_sign_digits [OF dec_string_not_Nil dec_string_digits, of n]
    by (simp add: ParseInt_def dec_string_not_Nil)
qed

text \<open>A decimal text as a big integer.\<close>

lemma big_digits_parse: "parse_digits base maxVal k s = (v, None) \<Longrightarrow> big_digits base k s = Some v"
  by (induction base maxVal k s rule: parse_digits.induct) (auto split: option.splits if_splits)

lemma big_SetString_dec: "big_SetString (dec_string n) 10 = Some (int n)"
  using big_digits_parse [OF parse_dec_string [of n "int n"]] strip_sign_digits [OF dec_string_not_Nil dec_string_digits, of n]
  by (simp add: big_SetString_def dec_string_not_Nil)

lemma dec_string_no_0x: "\<not> strings_HasPrefix (dec_string n) ''0x''"
proof -
  have "CHR ''x'' \<notin> set (dec_string n)" using dec_string_digits [of n] by (auto simp: digit_chars_def)
  then show ?thesis by (auto simp: strings_HasPrefix_def prefix_def)
qed

subsection \<open>The latest price\<close>

lemma ParseLatestEnergyPrice_entry:
  assumes "CHR '','' \<notin> set (u @ p)" and "CHR '':'' \<notin> set (u @ p)"
    and "pre = [] \<or> (\<exists>q. pre = q @ '','')"
  shows "ParseLatestEnergyPrice (pre @ u @ '':'' @ p) =
    (case ParseInt p 32 of (v, None) \<Rightarrow> (word_of_int v, None)
     | (v, Some err) \<Rightarrow> (DEFAULT_ENERGY_UNIT_PRICE, Some (PriceNotParsed err)))"
proof -
  have "last (strings_Split (q @ CHR '','' # s) CHR '','') = last (strings_Split s CHR '','')" for q s
    by (simp add: strings_Split_sep strings_Split_not_Nil)
  moreover have "strings_Split (u @ '':'' @ p) CHR '','' = [u @ '':'' @ p]"
    using assms(1) by (intro strings_Split_no_sep) auto
  ultimately have "last (strings_Split (pre @ u @ '':'' @ p) CHR '','') = u @ '':'' @ p"
    using assms(3) by auto
  moreover have "strings_Split (u @ '':'' @ p) CHR '':'' = [u, p]"
    using assms(2) by (simp add: strings_Split_append strings_Split_no_sep)
  moreover have nth: "strings_Split s c ! (length (strings_Split s c) - 1) = last (strings_Split s c)" for s c
    by (simp add: last_conv_nth strings_Split_not_Nil)
  ultimately show ?thesis
    unfolding ParseLatestEnergyPrice_def Let_def nth by (simp add: strings_Split_not_Nil)
qed

definition render_price :: "nat \<times> nat \<Rightarrow> string" where
  "render_price e = dec_string (fst e) @ '':'' @ dec_string (snd e)"

text \<open>The node's format: entries \<open>timestamp:price\<close>, separated by commas, the latest last.\<close>

definition render_prices :: "(nat \<times> nat) list \<Rightarrow> string" where
  "render_prices es = join_char CHR '','' (List.map render_price es)"

lemma render_prices_snoc:
  "render_prices (es @ [e]) = (if es = [] then [] else render_prices es @ '','') @ render_price e"
proof -
  have "ws \<noteq> [] \<Longrightarrow> join_char c (ws @ [w]) = join_char c ws @ c # w" for c w ws
    by (induction c ws rule: join_char.induct) auto
  then show ?thesis by (simp add: render_prices_def)
qed

text \<open>
  Round trip: of the price history the node renders, the price of the last
  entry is parsed, without error.
\<close>

theorem latest_price_roundtrip:
  assumes "price < 2 ^ 31"
  shows "ParseLatestEnergyPrice (render_prices (es @ [(ts, price)])) = (word_of_int (int price), None)"
proof -
  have sep: "CHR '','' \<notin> digit_chars" "CHR '':'' \<notin> digit_chars"
    by (simp_all add: digit_chars_def)
  have digits: "set (dec_string ts @ dec_string price) \<subseteq> digit_chars"
    using dec_string_digits [of ts] dec_string_digits [of price] by simp
  have "ParseInt (dec_string price) 32 = (int price, None)"
    using assms by (intro ParseInt_dec_string) simp_all
  then show ?thesis
    using ParseLatestEnergyPrice_entry
        [of "dec_string ts" "dec_string price" "if es = [] then [] else render_prices es @ '',''"]
      sep digits
    unfolding render_prices_snoc render_price_def by (cases "es = []") auto
qed

theorem latest_price_roundtrip_witness:
  "ParseLatestEnergyPrice (render_prices ([(0, 100)] @ [(1542607200, 420)])) = (420, None)"
  using latest_price_roundtrip [of 420 "[(0, 100)]" 1542607200] by simp

text \<open>
  Error path: whenever an error is reported, the price beside it is the default,
  and the error is never the one of the \<open>empty energy prices\<close> branch, which no input reaches.
\<close>

theorem latest_price_default:
  assumes "ParseLatestEnergyPrice s = (v, Some err)"
  shows "v = DEFAULT_ENERGY_UNIT_PRICE \<and> err \<noteq> EmptyPrices"
  using assms strings_Split_not_Nil
  by (auto simp: ParseLatestEnergyPrice_def Let_def split: if_splits prod.splits option.splits)

theorem latest_price_default_witness:
  "ParseLatestEnergyPrice [] = (210, Some (InvalidPriceFormat [[]]))"
  using latest_price_default [of "[]" "fst (ParseLatestEnergyPrice [])" "the (snd (ParseLatestEnergyPrice []))"]
  by (simp add: ParseLatestEnergyPrice_def DEFAULT_ENERGY_UNIT_PRICE_def)

lemma padded_fee_exact:
  assumes "0 \<le> sint feeLimit" and "bumps \<le> 4"
    and "sint feeLimit * 3 ^ (bumps + 1) div 2 ^ (bumps + 1) < 2 ^ 31"
  shows "CalculatePaddedFeeLimit oob feeLimit (of_nat bumps) DEFAULT_ENERGY_MULTIPLIER =
    word_of_int (sint feeLimit * 3 ^ (bumps + 1) div 2 ^ (bumps + 1))"
proof -
  have lt: "sint feeLimit < 2 ^ 31" using sint_lt [of feeLimit] by simp
  have bump: "bumps = 0 \<or> bumps = 1 \<or> bumps = 2 \<or> bumps = 3 \<or> bumps = 4" using assms(2) by linarith
  have small: "\<bar>sint feeLimit * 3 ^ (bumps + 1)\<bar> < 2 ^ 53" using lt assms(1) bump by auto
  have pow: "math_Pow DEFAULT_ENERGY_MULTIPLIER (of_nat bumps + 1) = Fin (3 ^ (bumps + 1)) (- int (bumps + 1))"
    using bump by (auto simp: DEFAULT_ENERGY_MULTIPLIER_def math_Pow_default)
  have "float_mul (Fin (sint feeLimit) 0) (Fin (3 ^ (bumps + 1)) (- int (bumps + 1)))
      = Fin (sint feeLimit * 3 ^ (bumps + 1)) (- int (bumps + 1))"
    using float_mul_exact [OF small, of 0 "- int (bumps + 1)"] by simp
  moreover have "0 \<le> sint feeLimit * 3 ^ (bumps + 1)" using assms(1) by simp
  ultimately show ?thesis
    unfolding CalculatePaddedFeeLimit_def pow
    using float_to_int32_quot [of "sint feeLimit * 3 ^ (bumps + 1)" "bumps + 1" oob] assms(3) by simp
qed

text \<open>
  Functional: with the default multiplier 1.5 and at most the four energy bumps
  the retries allow, the padded fee limit is exactly \<open>feeLimit * 1.5 ^ (bumps + 1)\<close>, rounded down: no
  rounding of the floating-point computation shows, as long as the result fits.
\<close>

theorem padded_fee_limit_exact:
  assumes "0 \<le> sint feeLimit" and "bumps \<le> 4"
    and "sint feeLimit * 3 ^ (bumps + 1) div 2 ^ (bumps + 1) < 2 ^ 31"
  shows "CalculatePaddedFeeLimit oob feeLimit (of_nat bumps) DEFAULT_ENERGY_MULTIPLIER =
    word_of_int (sint feeLimit * 3 ^ (bumps + 1) div 2 ^ (bumps + 1))"
  using assms by (rule padded_fee_exact)

theorem padded_fee_limit_exact_witness:
  "CalculatePaddedFeeLimit (\<lambda>_. 0) 1000001 1 DEFAULT_ENERGY_MULTIPLIER = 2250002"
  using padded_fee_limit_exact [of 1000001 1 "\<lambda>_. 0"] by simp

end
