(* ===== verification/Hex.thy ===== *)
theory Hex
  imports GoNum
begin

text \<open>
  Go's \<open>encoding/hex\<close> and relayer/gotron-sdk/pkg/common/hexutils.go, with the codec interface: what
  an encoder and a decoder promise each other.
\<close>

subsection \<open>Bytes of a string\<close>

definition byte_char :: "byte \<Rightarrow> char" where
  "byte_char b = char_of (unat b)"

definition string_bytes :: "string \<Rightarrow> bytes" where
  "string_bytes s = List.map of_char s"

definition bytes_string :: "bytes \<Rightarrow> string" where
  "bytes_string bs = List.map byte_char bs"

lemma unat_byte_less: "unat b < 256" for b :: byte
  using unsigned_less [where ?'a = nat, of b] by simp

lemma of_char_byte_char [simp]: "of_char (byte_char b) = b"
proof -
  have "(of_char (byte_char b) :: byte) = of_nat (of_char (byte_char b))"
    by (simp add: of_nat_of_char)
  also have "\<dots> = b"
    using unat_byte_less [of b] by (simp add: byte_char_def of_char_of)
  finally show ?thesis .
qed

lemma string_bytes_string [simp]: "string_bytes (bytes_string bs) = bs"
  by (induction bs) (auto simp: string_bytes_def bytes_string_def)

subsection \<open>The package \<open>encoding/hex\<close>\<close>

definition hex_char :: "nat \<Rightarrow> char" where
  "hex_char n = ''0123456789abcdef'' ! n"

definition hex_EncodeToString :: "bytes \<Rightarrow> string" where
  "hex_EncodeToString bs = concat (List.map (\<lambda>b. [hex_char (unat b div 16), hex_char (unat b mod 16)]) bs)"

datatype hex_error = InvalidByte char | OddLength

definition nibble :: "char \<Rightarrow> nat option" where
  "nibble c = (case digit_val c of None \<Rightarrow> None | Some d \<Rightarrow> if d < 16 then Some (nat d) else None)"

text \<open>
  \<open>hex.DecodeString\<close> returns the bytes decoded before the error with the error.
\<close>

fun hex_DecodeString :: "string \<Rightarrow> bytes \<times> hex_error option" where
  "hex_DecodeString [] = ([], None)"
| "hex_DecodeString [c] = ([], Some (if nibble c = None then InvalidByte c else OddLength))"
| "hex_DecodeString (p # q # s) =
     (case nibble p of
        None \<Rightarrow> ([], Some (InvalidByte p))
      | Some a \<Rightarrow>
          (case nibble q of
             None \<Rightarrow> ([], Some (InvalidByte q))
           | Some b \<Rightarrow> (let (bs, err) = hex_DecodeString s in (of_nat (a * 16 + b) # bs, err))))"

subsection \<open>hexutils.go\<close>

definition BytesToHexString :: "bytes \<Rightarrow> string" where
  "BytesToHexString b = ''0x'' @ hex_EncodeToString b"

text \<open>The error of the empty string is \<open>None\<close> of the inner option: it is not a decoding error.\<close>

datatype hexutil_error = EmptyHexString | HexError hex_error

definition HexStringToBytes :: "string \<Rightarrow> bytes \<times> hexutil_error option" where
  "HexStringToBytes input =
     (if length input = 0 then ([], Some EmptyHexString)
      else let (b, err) = hex_DecodeString (remove_pairs CHR ''0'' CHR ''x'' input)
           in (b, map_option HexError err))"

definition Bytes2Hex :: "bytes \<Rightarrow> string" where
  "Bytes2Hex d = hex_EncodeToString d"

definition Hex2Bytes :: "string \<Rightarrow> bytes \<times> hex_error option" where
  "Hex2Bytes str = hex_DecodeString str"

definition ToHex :: "bytes \<Rightarrow> string" where
  "ToHex b = ''0x'' @ (if length (Bytes2Hex b) = 0 then ''0'' else Bytes2Hex b)"

definition ToHexArray :: "bytes list \<Rightarrow> string list" where
  "ToHexArray b = List.map ToHex b"

definition Has0xPrefix :: "string \<Rightarrow> bool" where
  "Has0xPrefix str \<longleftrightarrow>
     2 \<le> length str \<and> str ! 0 = CHR ''0'' \<and> (str ! 1 = CHR ''x'' \<or> str ! 1 = CHR ''X'')"

definition FromHex :: "string \<Rightarrow> bytes \<times> hex_error option" where
  "FromHex s =
     (let s = (if Has0xPrefix s then drop 2 s else s);
          s = (if length s mod 2 = 1 then CHR ''0'' # s else s)
      in Hex2Bytes s)"

text \<open>The nil slice is \<open>None\<close>.\<close>

definition CopyBytes :: "bytes option \<Rightarrow> bytes option" where
  "CopyBytes b = (case b of None \<Rightarrow> None | Some xs \<Rightarrow> Some (List.map id xs))"

definition isHexCharacter :: "char \<Rightarrow> bool" where
  "isHexCharacter c \<longleftrightarrow>
     (let n = (of_char c :: nat) in (48 \<le> n \<and> n \<le> 57) \<or> (97 \<le> n \<and> n \<le> 102) \<or> (65 \<le> n \<and> n \<le> 70))"

definition isHex :: "string \<Rightarrow> bool" where
  "isHex str \<longleftrightarrow> (if length str mod 2 \<noteq> 0 then False else list_all isHexCharacter str)"

text \<open>A negative length makes the slice expression panic.\<close>

definition Hex2BytesFixed :: "string \<Rightarrow> int \<Rightarrow> bytes outcome" where
  "Hex2BytesFixed str flen =
     (let h = fst (hex_DecodeString str)
      in if int (length h) = flen then Done h
         else if flen < 0 then Panic
         else if flen < int (length h) then Done (drop (length h - nat flen) h)
         else Done (replicate (nat flen - length h) 0 @ h))"

definition RightPadBytes :: "bytes \<Rightarrow> int \<Rightarrow> bytes" where
  "RightPadBytes b l =
     (if l \<le> int (length b) then b else b @ replicate (nat l - length b) 0)"

definition LeftPadBytes :: "bytes \<Rightarrow> int \<Rightarrow> bytes" where
  "LeftPadBytes b l =
     (if l \<le> int (length b) then b else replicate (nat l - length b) 0 @ b)"

fun TrimLeftZeroes :: "bytes \<Rightarrow> bytes" where
  "TrimLeftZeroes [] = []"
| "TrimLeftZeroes (b # bs) = (if b \<noteq> 0 then b # bs else TrimLeftZeroes bs)"

subsection \<open>The codec interface\<close>

locale codec =
  fixes valid :: "'a \<Rightarrow> bool"
    and enc :: "'a \<Rightarrow> 'b"
    and dec :: "'b \<Rightarrow> 'a \<times> 'e option"
  assumes dec_enc: "valid x \<Longrightarrow> dec (enc x) = (x, None)"
begin

lemma enc_inject: "valid x \<Longrightarrow> valid y \<Longrightarrow> enc x = enc y \<longleftrightarrow> x = y"
  using dec_enc by (metis fst_conv)

lemma enc_inj_on: "inj_on enc {x. valid x}"
  by (auto simp: inj_on_def enc_inject)

lemma error_not_encoded: "dec y = (z, Some e) \<Longrightarrow> valid x \<Longrightarrow> enc x \<noteq> y"
  using dec_enc [of x] by auto

end

lemma hex_table:
  "list_all (\<lambda>d. nibble (hex_char d) = Some d \<and> hex_char d \<noteq> CHR ''x'' \<and> isHexCharacter (hex_char d)) [0 ..< 16]"
  by code_simp

lemma nibble_hex_char [simp]: "d < 16 \<Longrightarrow> nibble (hex_char d) = Some d"
  using hex_table by (simp add: list_all_iff del: upt_rec_numeral)

lemma hex_char_not_x: "d < 16 \<Longrightarrow> hex_char d \<noteq> CHR ''x''"
  using hex_table by (simp add: list_all_iff del: upt_rec_numeral)

lemma hex_char_hex: "d < 16 \<Longrightarrow> isHexCharacter (hex_char d)"
  using hex_table by (simp add: list_all_iff del: upt_rec_numeral)

lemma byte_halves: "unat b div 16 < 16" "unat b mod 16 < 16" for b :: byte
  using unat_byte_less [of b] by auto

lemma hex_roundtrip: "hex_DecodeString (hex_EncodeToString bs) = (bs, None)"
proof (induction bs)
  case Nil
  then show ?case by (simp add: hex_EncodeToString_def)
next
  case (Cons b bs)
  have "(of_nat (unat b div 16 * 16 + unat b mod 16) :: byte) = b"
    unfolding div_mult_mod_eq by simp
  then show ?case using Cons byte_halves [of b] by (simp add: hex_EncodeToString_def del: of_nat_add)
qed

lemma length_hex: "length (hex_EncodeToString bs) = 2 * length bs"
  by (induction bs) (auto simp: hex_EncodeToString_def)

lemma hex_string_chars: "c \<in> set (hex_EncodeToString bs) \<Longrightarrow> \<exists>d < 16. c = hex_char d"
  by (induction bs) (auto simp: hex_EncodeToString_def intro: byte_halves)

interpretation hex: codec "\<lambda>_. True" hex_EncodeToString hex_DecodeString
  by unfold_locales (rule hex_roundtrip)

lemma FromHex_hex: "FromHex (BytesToHexString bs) = (bs, None)"
  using length_hex [of bs]
  by (simp add: FromHex_def Has0xPrefix_def BytesToHexString_def Hex2Bytes_def hex_roundtrip)

interpretation hex0x: codec "\<lambda>_. True" BytesToHexString FromHex
  by unfold_locales (rule FromHex_hex)

end
