(* ===== verification/Lib.thy ===== *)
theory Lib
  imports GoValues Hex
begin

text \<open>
  The code outside the repository that the relayer calls, as one record of functions every definition
  that needs it takes as the argument \<open>L\<close>: mr-tron/base58, golang.org/x/crypto/sha3, go-ethereum and
  the protobuf runtime. Hypotheses about it are stated where a property needs them. The standard
  library's SHA-256 and base64 are defined here.
\<close>

subsection \<open>SHA-256 (crypto/sha256)\<close>

text \<open>
  The round constants are the first 32 bits of the fractional parts of the cube roots of the first 64
  primes, the initial state those of the square roots of the first 8: \<open>int_root k n\<close> is the largest
  36-bit number whose power is at most \<open>n\<close>, found bit by bit, and the integral part falls off in the word.
\<close>

definition int_root :: "nat \<Rightarrow> int \<Rightarrow> int" where
  "int_root k n = foldl (\<lambda>r b. if (r + b) ^ k \<le> n then r + b else r) 0 (List.map (\<lambda>b. 2 ^ b) (rev [0 ..< 36]))"

definition sha_primes :: "int list" where
  "sha_primes = filter (\<lambda>p. list_all (\<lambda>d. p mod d \<noteq> 0) [2 .. p - 1]) [2 .. 311]"

definition sha_K :: "uint32 list" where
  "sha_K = List.map (\<lambda>p. word_of_int (int_root 3 (p * 2 ^ 96))) sha_primes"

definition sha_init :: "uint32 list" where
  "sha_init = List.map (\<lambda>p. word_of_int (int_root 2 (p * 2 ^ 64))) [2, 3, 5, 7, 11, 13, 17, 19]"

definition word32_bytes :: "uint32 \<Rightarrow> bytes" where
  "word32_bytes w = List.map (\<lambda>i. of_nat (unat w div 256 ^ i mod 256)) [3, 2, 1, 0]"

fun be_words :: "bytes \<Rightarrow> uint32 list" where
  "be_words (a # b # c # d # bs) =
     of_nat (((unat a * 256 + unat b) * 256 + unat c) * 256 + unat d) # be_words bs"
| "be_words _ = []"

definition nat_be :: "nat \<Rightarrow> nat \<Rightarrow> bytes" where
  "nat_be k n = List.map (\<lambda>i. of_nat (n div 256 ^ i mod 256)) (rev [0 ..< k])"

definition sha_pad :: "bytes \<Rightarrow> bytes" where
  "sha_pad m = m @ [0x80] @ replicate ((119 - length m mod 64) mod 64) 0 @ nat_be 8 (8 * length m)"

fun sha_extend :: "nat \<Rightarrow> uint32 list \<Rightarrow> uint32 list" where
  "sha_extend 0 w = w"
| "sha_extend (Suc n) w =
     (let t = length w; x = w ! (t - 15); y = w ! (t - 2);
          s0 = xor (xor (word_rotr 7 x) (word_rotr 18 x)) (drop_bit 3 x);
          s1 = xor (xor (word_rotr 17 y) (word_rotr 19 y)) (drop_bit 10 y)
      in sha_extend n (w @ [w ! (t - 16) + s0 + w ! (t - 7) + s1]))"

fun sha_round :: "uint32 \<times> uint32 \<Rightarrow> uint32 list \<Rightarrow> uint32 list" where
  "sha_round (k, w) [a, b, c, d, e, f, g, h] =
     (let s1 = xor (xor (word_rotr 6 e) (word_rotr 11 e)) (word_rotr 25 e);
          ch = xor (and e f) (and (not e) g);
          t1 = h + s1 + ch + k + w;
          s0 = xor (xor (word_rotr 2 a) (word_rotr 13 a)) (word_rotr 22 a);
          maj = xor (xor (and a b) (and a c)) (and b c)
      in [t1 + (s0 + maj), a, b, c, d + t1, e, f, g])"
| "sha_round _ st = st"

definition sha_block :: "uint32 list \<Rightarrow> uint32 list \<Rightarrow> uint32 list" where
  "sha_block w st = map2 (+) st (fold sha_round (zip sha_K (sha_extend 48 w)) st)"

function sha_blocks :: "uint32 list \<Rightarrow> uint32 list \<Rightarrow> uint32 list" where
  "sha_blocks ws st = (if length ws < 16 then st else sha_blocks (drop 16 ws) (sha_block (take 16 ws) st))"
  by auto
termination by (relation "measure (length \<circ> fst)") auto

declare sha_blocks.simps [simp del]

definition sha256 :: "bytes \<Rightarrow> bytes" where
  "sha256 m = concat (List.map word32_bytes (sha_blocks (be_words (sha_pad m)) sha_init))"

lemma length_sha_extend: "length (sha_extend n w) = length w + n"
  by (induction n w rule: sha_extend.induct) (auto simp: Let_def)

lemma length_sha_round: "length (sha_round kw st) = length st"
  by (cases "(kw, st)" rule: sha_round.cases) (auto simp: Let_def)

lemma length_sha_block: "length (sha_block w st) = length st"
proof -
  have "length (fold sha_round xs st) = length st" for xs
    by (induction xs arbitrary: st) (auto simp: length_sha_round)
  then show ?thesis by (simp add: sha_block_def)
qed

lemma length_sha_blocks: "length (sha_blocks ws st) = length st"
  by (induction ws st rule: sha_blocks.induct) (subst sha_blocks.simps, simp add: length_sha_block)

lemma length_sha256 [simp]: "length (sha256 m) = 32"
proof -
  have "length (concat (List.map word32_bytes ws)) = 4 * length ws" for ws
    by (induction ws) (auto simp: word32_bytes_def)
  then show ?thesis by (simp add: sha256_def length_sha_blocks sha_init_def)
qed

subsection \<open>base64.StdEncoding\<close>

definition b64_val :: "char \<Rightarrow> nat option" where
  "b64_val c =
     (let n = (of_char c :: nat)
      in if 65 \<le> n \<and> n \<le> 90 then Some (n - 65)
         else if 97 \<le> n \<and> n \<le> 122 then Some (n - 71)
         else if 48 \<le> n \<and> n \<le> 57 then Some (n + 4)
         else if n = 43 then Some 62 else if n = 47 then Some 63 else None)"

definition b64_group :: "char list \<Rightarrow> nat option" where
  "b64_group cs = foldl (\<lambda>acc c. case (acc, b64_val c) of (Some n, Some d) \<Rightarrow> Some (n * 64 + d) | _ \<Rightarrow> None) (Some 0) cs"

fun b64_decode :: "string \<Rightarrow> bytes option" where
  "b64_decode [] = Some []"
| "b64_decode (a # b # c # d # s) =
     (if d = CHR ''='' then
        (if s \<noteq> [] then None
         else if c = CHR ''='' then map_option (\<lambda>n. [of_nat (n div 16)]) (b64_group [a, b])
         else map_option (\<lambda>n. [of_nat (n div 1024), of_nat (n div 4 mod 256)]) (b64_group [a, b, c]))
      else (case (b64_group [a, b, c, d], b64_decode s) of
              (Some n, Some bs) \<Rightarrow>
                Some (of_nat (n div 65536) # of_nat (n div 256 mod 256) # of_nat (n mod 256) # bs)
            | _ \<Rightarrow> None))"
| "b64_decode _ = None"

definition base64_DecodeString :: "string \<Rightarrow> bytes option" where
  "base64_DecodeString s = b64_decode (filter (\<lambda>c. c \<noteq> char_of (10::nat) \<and> c \<noteq> char_of (13::nat)) s)"

subsection \<open>Third-party code\<close>

datatype abi_kind =
    IntTy | UintTy | BoolTy | StringTy | SliceTy | ArrayTy | TupleTy | AddressTy | FixedBytesTy
  | BytesTy | HashTy | FixedPointTy | FunctionTy

text \<open>What the code reads of a go-ethereum \<open>abi.Type\<close>: its kind, its size and its element type.\<close>

datatype abi_type = AbiType (ty_T: abi_kind) (ty_Size: int) (ty_Elem: "abi_type option")

text \<open>A go-ethereum \<open>abi.Argument\<close>.\<close>

record Argument =
  arg_Name :: string
  arg_Type :: abi_type
  arg_Indexed :: bool

text \<open>
  The message \<open>core.TransactionRaw\<close> with its one \<open>TriggerSmartContract\<close> payload, as far as the
  serializer fills it in.
\<close>

record raw_message =
  raw_OwnerAddress :: bytes
  raw_ContractAddress :: bytes
  raw_Data :: bytes
  raw_CallValue :: int64
  raw_FeeLimit :: int64
  raw_Expiration :: int64
  raw_Timestamp :: int64
  raw_RefBlockBytes :: bytes
  raw_RefBlockHash :: bytes

record lib =
  base58_Encode :: "bytes \<Rightarrow> string"
  base58_Decode :: "string \<Rightarrow> string + bytes"
  LegacyKeccak256 :: "bytes \<Rightarrow> bytes"
  eth_IsHexAddress :: "string \<Rightarrow> bool"
  eth_HexToAddress :: "string \<Rightarrow> bytes"
  eth_BytesToAddress :: "bytes \<Rightarrow> bytes"
  eth_PubkeyToAddress :: "bytes \<Rightarrow> bytes"
  eth_AddressString :: "bytes \<Rightarrow> string"
  abi_NewType :: "string \<Rightarrow> string + abi_type"
  abi_PackValues :: "abi_type list \<Rightarrow> goval list \<Rightarrow> string + bytes"
  abi_JSON_Pack :: "string \<Rightarrow> goval list \<Rightarrow> string + string + bytes"
  abi_UnpackIntoMap :: "Argument list \<Rightarrow> bytes \<Rightarrow> string + (string \<rightharpoonup> goval)"
  abi_JSON_Inputs :: "string \<Rightarrow> string \<Rightarrow> string + Argument list"
  proto_Marshal :: "raw_message \<Rightarrow> string + bytes"

end
