(* ===== verification/Address.thy ===== *)
theory Address
  imports Lib
begin

text \<open>
  TRON addresses: relayer/gotron-sdk/pkg/common/base58.go (base58 with a checksum), hash.go, and
  relayer/gotron-sdk/pkg/address/address.go. The base58 alphabet coding is mr-tron/base58's.
\<close>

subsection \<open>base58.go\<close>

definition addressLength :: nat where
  "addressLength = 20"

definition prefixMainnet :: byte where
  "prefixMainnet = 0x41"

definition b58_checksum :: "bytes \<Rightarrow> bytes" where
  "b58_checksum input = (let h0 = sha256 input; h1 = sha256 h0 in take 4 h1)"

definition b58_Encode :: "lib \<Rightarrow> bytes \<Rightarrow> string" where
  "b58_Encode L input = base58_Encode L input"

definition EncodeCheck :: "lib \<Rightarrow> bytes \<Rightarrow> string" where
  "EncodeCheck L input = b58_Encode L (input @ b58_checksum input)"

datatype b58_error = B58Decode string | B58Check | B58Length nat | B58Prefix

definition b58_Decode :: "lib \<Rightarrow> string \<Rightarrow> string + bytes" where
  "b58_Decode L input = base58_Decode L input"

definition DecodeCheck :: "lib \<Rightarrow> string \<Rightarrow> b58_error + bytes" where
  "DecodeCheck L input =
     (case b58_Decode L input of
        Inl e \<Rightarrow> Inl (B58Decode e)
      | Inr decodeCheck \<Rightarrow>
          if length decodeCheck < 4 then Inl B58Check
          else if length decodeCheck \<noteq> addressLength + 4 + 1 then Inl (B58Length (length decodeCheck))
          else if decodeCheck ! 0 \<noteq> prefixMainnet then Inl B58Prefix
          else
            let decodeData = take (length decodeCheck - 4) decodeCheck;
                h1 = sha256 (sha256 decodeData); n = length decodeData
            in if h1 ! 0 = decodeCheck ! n \<and> h1 ! 1 = decodeCheck ! (n + 1)
                 \<and> h1 ! 2 = decodeCheck ! (n + 2) \<and> h1 ! 3 = decodeCheck ! (n + 3)
               then Inr decodeData
               else Inl B58Check)"

subsection \<open>hash.go\<close>

definition HashLength :: nat where
  "HashLength = 32"

text \<open>\<open>copy\<close> leaves the first bytes of the old value in place when \<open>b\<close> is short.\<close>

definition SetBytes :: "bytes \<Rightarrow> bytes \<Rightarrow> bytes" where
  "SetBytes h b =
     (let b = (if length b > HashLength then drop (length b - HashLength) b else b)
      in take (HashLength - length b) h @ b)"

definition BytesToHash :: "bytes \<Rightarrow> bytes" where
  "BytesToHash b = SetBytes (replicate HashLength 0) b"

definition BigToHash :: "int \<Rightarrow> bytes" where
  "BigToHash b = BytesToHash (big_Bytes b)"

definition HexToHash :: "string \<Rightarrow> bytes \<times> hexutil_error option" where
  "HexToHash s =
     (case HexStringToBytes s of
        (b, Some err) \<Rightarrow> (replicate HashLength 0, Some err)
      | (b, None) \<Rightarrow> (BytesToHash b, None))"

definition Hash_Big :: "bytes \<Rightarrow> int" where
  "Hash_Big h = big_SetBytes h"

definition Hash_Hex :: "bytes \<Rightarrow> string" where
  "Hash_Hex h = BytesToHexString h"

text \<open>The three dots are the UTF-8 bytes of the ellipsis.\<close>

definition TerminalString :: "bytes \<Rightarrow> string" where
  "TerminalString h =
     hex_EncodeToString (take 3 h) @ bytes_string [0xE2, 0x80, 0xA6] @ hex_EncodeToString (drop 29 h)"

definition Hash_String :: "bytes \<Rightarrow> string" where
  "Hash_String h = Hash_Hex h"

definition Keccak256 :: "lib \<Rightarrow> bytes \<Rightarrow> bytes" where
  "Keccak256 L msg = LegacyKeccak256 L msg"

subsection \<open>address.go\<close>

type_synonym address = bytes

definition AddressLength :: nat where
  "AddressLength = 21"

definition AddressLengthBase58 :: nat where
  "AddressLengthBase58 = 34"

definition TronBytePrefix :: byte where
  "TronBytePrefix = 0x41"

definition ZeroAddress :: address where
  "ZeroAddress = TronBytePrefix # replicate (AddressLength - 1) 0"

datatype address_error =
    HexAddress hex_error | Base58Address b58_error | Base64Address | InvalidAddressFormat string
  | CannotScan | ScanLength nat | InvalidJSONAddress

definition Address_Hex :: "address \<Rightarrow> string" where
  "Address_Hex a = drop 2 (BytesToHexString a)"

text \<open>\<open>bytes.Repeat\<close> panics on a negative count.\<close>

definition BigToAddress :: "int \<Rightarrow> address outcome" where
  "BigToAddress b =
     (let bs = big_Bytes b
      in if length bs > AddressLength then Panic else Done (replicate (AddressLength - length bs) 0 @ bs))"

definition HexToAddress :: "string \<Rightarrow> address_error + address" where
  "HexToAddress s = (case FromHex s of (addr, Some err) \<Rightarrow> Inl (HexAddress err) | (addr, None) \<Rightarrow> Inr addr)"

definition Base58ToAddress :: "lib \<Rightarrow> string \<Rightarrow> address_error + address" where
  "Base58ToAddress L s = (case DecodeCheck L s of Inl err \<Rightarrow> Inl (Base58Address err) | Inr addr \<Rightarrow> Inr addr)"

definition Base64ToAddress :: "string \<Rightarrow> address_error + address" where
  "Base64ToAddress s = (case base64_DecodeString s of None \<Rightarrow> Inl Base64Address | Some d \<Rightarrow> Inr d)"

definition EVMAddressToAddress :: "bytes \<Rightarrow> address" where
  "EVMAddressToAddress a = TronBytePrefix # a"

definition StringToAddress :: "lib \<Rightarrow> string \<Rightarrow> address_error + address" where
  "StringToAddress L s =
     (if eth_IsHexAddress L s then Inr (EVMAddressToAddress (eth_HexToAddress L s))
      else if length s = AddressLength * 2 \<and> take 2 s = ''41'' then HexToAddress s
      else if length s = AddressLengthBase58 \<and> s ! 0 = CHR ''T'' then Base58ToAddress L s
      else Inl (InvalidAddressFormat s))"

definition Address_String :: "lib \<Rightarrow> address \<Rightarrow> string" where
  "Address_String L a =
     (if length a = 0 then []
      else if a ! 0 = 0 then big_String (big_SetBytes a)
      else EncodeCheck L a)"

definition PubkeyToAddress :: "lib \<Rightarrow> bytes \<Rightarrow> address" where
  "PubkeyToAddress L p = [] @ [TronBytePrefix] @ eth_PubkeyToAddress L p"

text \<open>The receiver is left as it was on an error.\<close>

definition Address_Scan :: "goval \<Rightarrow> address_error + address" where
  "Address_Scan src =
     (case as_bytes src of
        None \<Rightarrow> Inl CannotScan
      | Some srcB \<Rightarrow> if length srcB \<noteq> AddressLength then Inl (ScanLength (length srcB)) else Inr srcB)"

definition Address_Value :: "address \<Rightarrow> goval" where
  "Address_Value a = GBytes a"

text \<open>The slice \<open>a.Bytes()[1:]\<close> of an empty address panics.\<close>

definition EthAddress :: "lib \<Rightarrow> address \<Rightarrow> bytes outcome" where
  "EthAddress L a = (if a = [] then Panic else Done (eth_BytesToAddress L (drop 1 a)))"

definition Address_MarshalJSON :: "lib \<Rightarrow> address \<Rightarrow> string" where
  "Address_MarshalJSON L a =
     (if length a = 0 then [CHR 0x22, CHR 0x22] else CHR 0x22 # Address_String L a @ [CHR 0x22])"

definition Address_UnmarshalJSON :: "lib \<Rightarrow> string \<Rightarrow> address_error + address" where
  "Address_UnmarshalJSON L data =
     (if length data < 2 \<or> data ! 0 \<noteq> CHR 0x22 \<or> data ! (length data - 1) \<noteq> CHR 0x22
      then Inl InvalidJSONAddress
      else
        let str = drop 1 (take (length data - 1) data)
        in if str = [] then Inr []
           else if str ! 0 = CHR ''T'' then Base58ToAddress L str
           else HexToAddress str)"

subsection \<open>The checksum\<close>

lemma length_b58_checksum [simp]: "length (b58_checksum b) = 4"
  by (simp add: b58_checksum_def Let_def)

lemma list4_eq:
  "length xs = 4 \<Longrightarrow> length ys = 4 \<Longrightarrow>
     xs = ys \<longleftrightarrow> xs ! 0 = ys ! 0 \<and> xs ! 1 = ys ! 1 \<and> xs ! 2 = ys ! 2 \<and> xs ! 3 = ys ! 3"
  by (auto simp: list_eq_iff_nth_eq less_Suc_eq numeral_eq_Suc)

text \<open>The four byte comparisons say that the input is the data followed by its checksum.\<close>

lemma DecodeCheck_Inr:
  "DecodeCheck L s = Inr a \<longleftrightarrow>
     base58_Decode L s = Inr (a @ b58_checksum a) \<and> length a = 21 \<and> a ! 0 = 0x41"
proof -
  have split: "take 21 x @ drop 21 x = x" for x :: bytes by simp
  have chk: "sha256 (sha256 b) ! 0 = x ! 21 \<and> sha256 (sha256 b) ! 1 = x ! 22 \<and> sha256 (sha256 b) ! 2 = x ! 23
      \<and> sha256 (sha256 b) ! 3 = x ! 24 \<longleftrightarrow> b58_checksum b = drop 21 x"
    if "length x = 25" for b x
    using that by (subst list4_eq) (auto simp: b58_checksum_def Let_def)
  show ?thesis
  proof (cases "base58_Decode L s")
    case (Inl e)
    then show ?thesis by (simp add: DecodeCheck_def b58_Decode_def)
  next
    case (Inr x)
    show ?thesis
    proof (cases "length x = 25")
      case True
      have "DecodeCheck L s = Inr a \<longleftrightarrow>
          x ! 0 = 0x41 \<and> b58_checksum (take 21 x) = drop 21 x \<and> a = take 21 x"
        using Inr True chk [OF True, of "take 21 x"]
        by (auto simp: DecodeCheck_def b58_Decode_def addressLength_def prefixMainnet_def Let_def)
      also have "\<dots> \<longleftrightarrow> x = a @ b58_checksum a \<and> length a = 21 \<and> a ! 0 = 0x41"
        using True split [of x] by (auto simp: nth_append)
      finally show ?thesis using Inr by simp
    next
      case False
      then have "DecodeCheck L s \<noteq> Inr a" using Inr
        by (auto simp: DecodeCheck_def b58_Decode_def addressLength_def)
      moreover have "\<not> (x = a @ b58_checksum a \<and> length a = 21)" using False by auto
      ultimately show ?thesis using Inr by auto
    qed
  qed
qed

lemma StringToAddress_cases:
  "StringToAddress L s = Inr a \<Longrightarrow>
     (eth_IsHexAddress L s \<and> a = 0x41 # eth_HexToAddress L s)
   \<or> (\<not> eth_IsHexAddress L s \<and> length s = 42 \<and> take 2 s = ''41'' \<and> FromHex s = (a, None))
   \<or> (\<not> eth_IsHexAddress L s \<and> DecodeCheck L s = Inr a)"
  by (auto simp: StringToAddress_def EVMAddressToAddress_def TronBytePrefix_def AddressLength_def
      HexToAddress_def Base58ToAddress_def split: if_splits sum.splits prod.splits option.splits)

lemma length_hex_DecodeString:
  "hex_DecodeString s = (b, None) \<Longrightarrow> 2 * length b = length s"
  by (induction s arbitrary: b rule: hex_DecodeString.induct)
    (auto simp: Let_def split: option.splits prod.splits if_splits)

lemma FromHex_41:
  assumes "length s = 42" and "take 2 s = ''41''" and "FromHex s = (a, None)"
  shows "length a = 21 \<and> a ! 0 = 0x41"
proof -
  obtain t where s: "s = CHR ''4'' # CHR ''1'' # t" and t: "length t = 40"
    using assms(1,2) by (cases s; cases "tl s") auto
  have n: "nibble CHR ''4'' = Some 4" "nibble CHR ''1'' = Some 1" by code_simp+
  have "hex_DecodeString s = (a, None)"
    using assms(3) t unfolding s by (simp add: FromHex_def Has0xPrefix_def Hex2Bytes_def)
  then show ?thesis using length_hex_DecodeString [of t] t n unfolding s
    by (auto simp: Let_def split: prod.splits)
qed

subsection \<open>Properties of addresses\<close>

text \<open>A stand-in for the base58 library, to evaluate: every string is a base58 string of its bytes.\<close>

definition sample_lib :: lib where
  "sample_lib = \<lparr>base58_Encode = bytes_string, base58_Decode = (\<lambda>s. Inr (string_bytes s)),
     LegacyKeccak256 = (\<lambda>b. replicate 32 7), eth_IsHexAddress = (\<lambda>s. Has0xPrefix s \<and> length s = 42),
     eth_HexToAddress = (\<lambda>s. fst (FromHex s)), eth_BytesToAddress = (\<lambda>b. drop (length b - 20) b),
     eth_PubkeyToAddress = (\<lambda>b. replicate 20 1),
     eth_AddressString = (\<lambda>b. ''0x'' @ hex_EncodeToString b), abi_NewType = (\<lambda>s. Inl s),
     abi_PackValues = (\<lambda>ts vs. Inr []), abi_JSON_Pack = (\<lambda>j ps. Inr (Inr [])),
     abi_UnpackIntoMap = (\<lambda>as b. Inl []), abi_JSON_Inputs = (\<lambda>j m. Inr []),
     proto_Marshal = (\<lambda>m. Inr (raw_Data m))\<rparr>"

definition sample_address :: address where
  "sample_address = 0x41 # replicate 20 5"

text \<open>
  Round trip: with a base58 library whose decoding undoes its encoding, a TRON
  address (21 bytes, the first 0x41) prints to a base58check string that parses back to it, and two such
  addresses print alike only if they are equal.
\<close>

theorem address_base58_roundtrip:
  assumes "\<And>b. base58_Decode L (base58_Encode L b) = Inr b" and "length a = 21" and "a ! 0 = 0x41"
  shows "Base58ToAddress L (Address_String L a) = Inr a
    \<and> (length a' = 21 \<and> a' ! 0 = 0x41 \<and> Address_String L a' = Address_String L a \<longrightarrow> a' = a)"
proof -
  have str: "Address_String L b = base58_Encode L (b @ b58_checksum b)" if "length b = 21" "b ! 0 = 0x41" for b
    using that by (auto simp: Address_String_def EncodeCheck_def b58_Encode_def)
  have "DecodeCheck L (Address_String L b) = Inr b" if "length b = 21" "b ! 0 = 0x41" for b
    using that assms(1) by (simp add: DecodeCheck_Inr str)
  from this [of a] this [of a'] assms(2,3) show ?thesis
    by (auto simp: Base58ToAddress_def)
qed

theorem address_base58_roundtrip_witness:
  "Base58ToAddress sample_lib (Address_String sample_lib sample_address) = Inr sample_address"
  using address_base58_roundtrip [of sample_lib sample_address]
  by (simp add: sample_lib_def sample_address_def)

text \<open>
  C40. Safety: whatever string is accepted, in any of the three formats, the result is a
  TRON address of 21 bytes with the prefix 0x41; and a base58 string is accepted only with the checksum
  of the address it carries. (go-ethereum's \<open>HexToAddress\<close> returns 20 bytes.)
\<close>

theorem StringToAddress_sound:
  assumes "StringToAddress L s = Inr a" and "\<And>t. length (eth_HexToAddress L t) = 20"
  shows "length a = 21 \<and> a ! 0 = 0x41
    \<and> (eth_IsHexAddress L s \<or> take 2 s = ''41'' \<or> base58_Decode L s = Inr (a @ b58_checksum a))"
  using StringToAddress_cases [OF assms(1)] assms(2) FromHex_41 [of s a] by (auto simp: DecodeCheck_Inr)

theorem StringToAddress_sound_witness:
  "\<exists>a. StringToAddress (sample_lib\<lparr>eth_HexToAddress := \<lambda>_. replicate 20 9\<rparr>)
     (''41'' @ replicate 40 CHR ''0'') = Inr a \<and> length a = 21"
proof -
  let ?L = "sample_lib\<lparr>eth_HexToAddress := \<lambda>_. replicate 20 9\<rparr>"
  let ?s = "''41'' @ replicate 40 CHR ''0''"
  have "snd (FromHex ?s) = None" by code_simp
  then obtain a where "FromHex ?s = (a, None)" by (cases "FromHex ?s") auto
  then have a: "StringToAddress ?L ?s = Inr a"
    by (simp add: StringToAddress_def sample_lib_def AddressLength_def Has0xPrefix_def HexToAddress_def)
  from StringToAddress_sound [OF a] have "length a = 21" by simp
  with a show ?thesis by blast
qed

text \<open>
  Round trip: an address survives JSON, the empty one included. Base58check
  strings of TRON addresses start with T, which is why the decoder takes them for base58.
\<close>

theorem address_json_roundtrip:
  assumes "\<And>b. base58_Decode L (base58_Encode L b) = Inr b"
    and "\<And>b. length b = 25 \<Longrightarrow> b ! 0 = 0x41 \<Longrightarrow> \<exists>t. base58_Encode L b = CHR ''T'' # t"
    and "a = [] \<or> (length a = 21 \<and> a ! 0 = 0x41)"
  shows "Address_UnmarshalJSON L (Address_MarshalJSON L a) = Inr a"
proof (cases "a = []")
  case True
  then show ?thesis by (simp add: Address_MarshalJSON_def Address_UnmarshalJSON_def)
next
  case False
  then have a: "length a = 21" "a ! 0 = 0x41" using assms(3) by auto
  have str: "Address_String L a = base58_Encode L (a @ b58_checksum a)"
    using a by (auto simp: Address_String_def EncodeCheck_def b58_Encode_def)
  obtain t where t: "Address_String L a = CHR ''T'' # t"
    using assms(2) [of "a @ b58_checksum a"] a by (auto simp: str nth_append)
  have "DecodeCheck L (Address_String L a) = Inr a"
    using a assms(1) by (simp add: DecodeCheck_Inr str)
  then have "Base58ToAddress L (CHR ''T'' # t) = Inr a" by (simp add: Base58ToAddress_def t)
  moreover have "drop 1 (take (length (CHR ''T'' # t) + 1) (CHR 0x22 # (CHR ''T'' # t) @ [CHR 0x22])) = CHR ''T'' # t"
    by simp
  ultimately show ?thesis using False
    by (simp add: Address_MarshalJSON_def Address_UnmarshalJSON_def Let_def t)
qed

definition sample_T_lib :: lib where
  "sample_T_lib = sample_lib\<lparr>base58_Encode := \<lambda>b. CHR ''T'' # bytes_string b,
     base58_Decode := \<lambda>s. Inr (string_bytes (drop 1 s))\<rparr>"

theorem address_json_roundtrip_witness:
  "Address_UnmarshalJSON sample_T_lib (Address_MarshalJSON sample_T_lib sample_address) = Inr sample_address"
  using address_json_roundtrip [of sample_T_lib sample_address]
  by (simp add: sample_T_lib_def sample_lib_def sample_address_def)

text \<open>
  The hex constructors do not crop: \<open>HexToAddress\<close> returns every byte string it is given
  in hex, of whatever length, and \<open>BigToAddress\<close> panics on a number that needs more than 21 bytes.
\<close>

theorem address_hex_not_cropped:
  "HexToAddress (Address_Hex a) = Inr a \<and> HexToAddress (BytesToHexString a) = Inr a
   \<and> (BigToAddress b = Panic \<longleftrightarrow> 256 ^ 21 \<le> \<bar>b\<bar>)"
proof -
  have hex: "FromHex (hex_EncodeToString a) = (a, None)"
  proof -
    have "\<not> Has0xPrefix (hex_EncodeToString a)"
    proof
      assume h: "Has0xPrefix (hex_EncodeToString a)"
      then have "hex_EncodeToString a ! 1 \<in> set (hex_EncodeToString a)"
        by (intro nth_mem) (auto simp: Has0xPrefix_def)
      then obtain d where d: "d < 16" "hex_EncodeToString a ! 1 = hex_char d"
        using hex_string_chars by blast
      then show False using h hex_char_not_x [of d] hex_char_hex [OF d(1)]
        by (auto simp: Has0xPrefix_def isHexCharacter_def Let_def)
    qed
    then show ?thesis using length_hex [of a] by (simp add: FromHex_def Hex2Bytes_def hex_roundtrip)
  qed
  have len: "length (nat_bytes n) \<le> 21 \<longleftrightarrow> n < 256 ^ 21" for n
    by (rule length_nat_bytes_iff)
  show ?thesis
    using hex FromHex_hex [of a] len [of "nat \<bar>b\<bar>"]
    by (auto simp: HexToAddress_def Address_Hex_def BytesToHexString_def BigToAddress_def big_Bytes_def
        AddressLength_def Let_def)
qed

end
