(* ===== verification/Abi.thy ===== *)
theory Abi
  imports Address Energy
begin

text \<open>
  relayer/gotron-sdk/pkg/abi/abi.go: the call data of a contract call. Types are parsed and values
  packed by go-ethereum (\<open>abi_NewType\<close> and \<open>abi_PackValues\<close> of the library record); the conversion
  of the caller's values to what the packer takes is modelled here.
\<close>

datatype abi_error =
    OddParams nat | NonStringType | TypeNotParsed string string | PartialAddresses
  | InvalidAddress goval | InvalidSize int nat | FailedToConvert | NotHexOrBase64 | PackError string

definition Selector :: "lib \<Rightarrow> string \<Rightarrow> bytes" where
  "Selector L functionSignature = take 4 (LegacyKeccak256 L (string_bytes functionSignature))"

text \<open>The slice \<open>b[len(b)-20:]\<close> panics for fewer than 20 bytes.\<close>

fun convertToAddress :: "lib \<Rightarrow> goval \<Rightarrow> (abi_error + bytes) outcome" where
  "convertToAddress L (GString s) =
     (case StringToAddress L s of
        Inl err \<Rightarrow> Done (Inl (InvalidAddress (GString s)))
      | Inr addr \<Rightarrow>
          if length addr < 20 then Panic
          else Done (Inr (eth_BytesToAddress L (drop (length addr - 20) addr))))"
| "convertToAddress L (GAddress addr) = outcome_bind (EthAddress L addr) (\<lambda>e. Done (Inr e))"
| "convertToAddress L v = Done (Inl (InvalidAddress v))"

text \<open>The sizes the switches of the code name; any other size leaves the string.\<close>

definition bigint_of_string :: "string \<Rightarrow> int option" where
  "bigint_of_string s = (if strings_HasPrefix s ''0x'' then big_SetString (drop 2 s) 16 else big_SetString s 10)"

definition convertToInt :: "abi_type \<Rightarrow> string \<Rightarrow> goval" where
  "convertToInt ty s =
     (if ty_T ty = IntTy \<and> ty_Size ty \<le> 64 then
        let tmp = fst (ParseInt s (nat (ty_Size ty)))
        in if ty_Size ty \<in> {8, 16, 32, 64} then GInt (nat (ty_Size ty)) tmp else GString s
      else if ty_T ty = UintTy \<and> ty_Size ty \<le> 64 then
        let tmp = fst (ParseUint s (nat (ty_Size ty)))
        in if ty_Size ty \<in> {8, 16, 32, 64} then GUint (nat (ty_Size ty)) tmp else GString s
      else GBigInt (bigint_of_string s))"

definition convertStringToBytes :: "abi_type \<Rightarrow> string \<Rightarrow> abi_error + goval" where
  "convertStringToBytes ty data =
     (case (case hex_DecodeString data of (b, None) \<Rightarrow> Some b | (b, Some e) \<Rightarrow> base64_DecodeString data) of
        None \<Rightarrow> Inl NotHexOrBase64
      | Some dataBytes \<Rightarrow>
          if ty_T ty = BytesTy \<or> ty_Size ty = 0 then Inr (GBytes dataBytes)
          else if int (length dataBytes) \<noteq> ty_Size ty then Inl (InvalidSize (ty_Size ty) (length dataBytes))
          else if ty_Size ty \<in> {1, 2, 8, 16, 32} then Inr (GFixedBytes dataBytes)
          else Inl FailedToConvert)"

text \<open>The address loop stops at the first string that is no address.\<close>

fun convert_addresses :: "lib \<Rightarrow> string list \<Rightarrow> bytes list outcome" where
  "convert_addresses L [] = Done []"
| "convert_addresses L (s # ss) =
     (case StringToAddress L s of
        Inl err \<Rightarrow> Done []
      | Inr a \<Rightarrow> outcome_bind (EthAddress L a) (\<lambda>e. outcome_bind (convert_addresses L ss) (\<lambda>es. Done (e # es))))"

fun eth_addresses :: "lib \<Rightarrow> address list \<Rightarrow> bytes list outcome" where
  "eth_addresses L [] = Done []"
| "eth_addresses L (a # as) =
     outcome_bind (EthAddress L a) (\<lambda>e. outcome_bind (eth_addresses L as) (\<lambda>es. Done (e # es)))"

definition convert_address_slice :: "lib \<Rightarrow> goval \<Rightarrow> (abi_error + goval) outcome" where
  "convert_address_slice L v =
     (case v of
        GStrings ss \<Rightarrow>
          outcome_bind (convert_addresses L ss) (\<lambda>updated.
            if length updated > 0 then
              (if length updated \<noteq> length ss then Done (Inl PartialAddresses)
               else Done (Inr (GEthAddresses updated)))
            else Done (Inr v))
      | GAddresses as \<Rightarrow> outcome_bind (eth_addresses L as) (\<lambda>updated. Done (Inr (GEthAddresses updated)))
      | _ \<Rightarrow> Done (Inr v))"

definition convert_int_slice :: "goval \<Rightarrow> goval" where
  "convert_int_slice v = (case v of GStrings ss \<Rightarrow> GBigInts (List.map bigint_of_string ss) | _ \<Rightarrow> v)"

text \<open>
  The body of the loop of \<open>GetPaddedParam\<close> for one value. In the branch of the byte types the code
  assigns the converted value when the conversion has failed, and it is nil then.
\<close>

definition convert_param :: "lib \<Rightarrow> abi_type \<Rightarrow> goval \<Rightarrow> (abi_error + goval) outcome" where
  "convert_param L ty v =
     (if ty_T ty = SliceTy \<or> ty_T ty = ArrayTy then
        (case ty_Elem ty of
           None \<Rightarrow> Panic
         | Some el \<Rightarrow>
             if ty_T el = AddressTy then convert_address_slice L v
             else if (ty_T el = IntTy \<or> ty_T el = UintTy) \<and> 64 < ty_Size el then Done (Inr (convert_int_slice v))
             else Done (Inr v))
      else if ty_T ty = AddressTy then
        outcome_bind (convertToAddress L v) (\<lambda>r. Done (case r of Inl e \<Rightarrow> Inl e | Inr a \<Rightarrow> Inr (GEthAddress a)))
      else if ty_T ty = IntTy \<or> ty_T ty = UintTy then
        (case v of GNil \<Rightarrow> Panic | GString s \<Rightarrow> Done (Inr (convertToInt ty s)) | _ \<Rightarrow> Done (Inr v))
      else if ty_T ty = BytesTy \<or> ty_T ty = FixedBytesTy then
        (case v of
           GString data \<Rightarrow>
             Done (Inr (case convertStringToBytes ty data of Inl err \<Rightarrow> GNil | Inr converted \<Rightarrow> v))
         | _ \<Rightarrow> Done (Inr v))
      else Done (Inr v))"

fun padded_loop ::
  "lib \<Rightarrow> goval list \<Rightarrow> abi_type list \<Rightarrow> goval list \<Rightarrow> (abi_error + abi_type list \<times> goval list) outcome" where
  "padded_loop L (k # v # params) arguments values =
     (case as_string k of
        None \<Rightarrow> Done (Inl NonStringType)
      | Some kStr \<Rightarrow>
          (case abi_NewType L kStr of
             Inl err \<Rightarrow> Done (Inl (TypeNotParsed kStr err))
           | Inr ty \<Rightarrow>
               outcome_bind (convert_param L ty v) (\<lambda>r.
                 case r of
                   Inl err \<Rightarrow> Done (Inl err)
                 | Inr v' \<Rightarrow> padded_loop L params (arguments @ [ty]) (values @ [v']))))"
| "padded_loop L _ arguments values = Done (Inr (arguments, values))"

definition GetPaddedParam :: "lib \<Rightarrow> goval list \<Rightarrow> (abi_error + bytes) outcome" where
  "GetPaddedParam L params =
     (if length params mod 2 = 1 then Done (Inl (OddParams (length params)))
      else outcome_bind (padded_loop L params [] []) (\<lambda>r.
        case r of
          Inl err \<Rightarrow> Done (Inl err)
        | Inr (arguments, values) \<Rightarrow>
            Done (case abi_PackValues L arguments values of Inl e \<Rightarrow> Inl (PackError e) | Inr b \<Rightarrow> Inr b)))"

definition Pack :: "lib \<Rightarrow> string \<Rightarrow> goval list \<Rightarrow> (abi_error + bytes) outcome" where
  "Pack L method_sig params =
     outcome_bind (GetPaddedParam L params) (\<lambda>r.
       Done (case r of Inl err \<Rightarrow> Inl err | Inr pBytes \<Rightarrow> Inr (Selector L method_sig @ pBytes)))"

subsection \<open>No panics on well-formed parameters\<close>

text \<open>
  go-ethereum gives every slice and array type an element type. The caller passes no nil value for an
  integer and no empty address.
\<close>

definition types_have_elem :: "lib \<Rightarrow> bool" where
  "types_have_elem L \<longleftrightarrow>
     (\<forall>k ty. abi_NewType L k = Inr ty \<and> (ty_T ty = SliceTy \<or> ty_T ty = ArrayTy) \<longrightarrow> ty_Elem ty \<noteq> None)"

fun param_ok :: "goval \<Rightarrow> bool" where
  "param_ok GNil = False"
| "param_ok (GAddress a) = (a \<noteq> [])"
| "param_ok (GAddresses as) = ([] \<notin> set as)"
| "param_ok _ = True"

definition eth_20 :: "lib \<Rightarrow> bool" where
  "eth_20 L \<longleftrightarrow> (\<forall>t. length (eth_HexToAddress L t) = 20)"

lemma EthAddress_ok: "a \<noteq> [] \<Longrightarrow> EthAddress L a = Done (eth_BytesToAddress L (drop 1 a))"
  by (simp add: EthAddress_def)

lemma StringToAddress_length: "eth_20 L \<Longrightarrow> StringToAddress L s = Inr a \<Longrightarrow> length a = 21"
  using StringToAddress_cases [of L s a] FromHex_41 [of s a] by (auto simp: eth_20_def DecodeCheck_Inr)

lemma convertToAddress_total:
  "eth_20 L \<Longrightarrow> param_ok v \<Longrightarrow> convertToAddress L v \<noteq> Panic"
  by (cases v) (auto simp: EthAddress_ok dest: StringToAddress_length split: sum.splits)

lemma convert_addresses_total: "eth_20 L \<Longrightarrow> \<exists>es. convert_addresses L ss = Done es \<and> length es \<le> length ss"
proof (induction ss)
  case (Cons s ss)
  show ?case
  proof (cases "StringToAddress L s")
    case (Inr a)
    then have "a \<noteq> []" using StringToAddress_length [OF Cons.prems Inr] by auto
    then show ?thesis using Cons Inr by (auto simp: EthAddress_ok)
  qed simp
qed simp

lemma eth_addresses_total:
  "[] \<notin> set as \<Longrightarrow> eth_addresses L as = Done (List.map (\<lambda>a. eth_BytesToAddress L (drop 1 a)) as)"
  by (induction as) (auto simp: EthAddress_ok)

lemma convert_address_slice_total:
  assumes "eth_20 L" and "param_ok v"
  shows "convert_address_slice L v \<noteq> Panic"
proof (cases v)
  case (GStrings ss)
  then show ?thesis using convert_addresses_total [OF assms(1), of ss]
    by (auto simp: convert_address_slice_def split: if_splits)
qed (use assms(2) in \<open>auto simp: convert_address_slice_def eth_addresses_total\<close>)

lemma convert_param_total:
  assumes "eth_20 L" and "types_have_elem L" and "abi_NewType L k = Inr ty" and "param_ok v"
  shows "convert_param L ty v \<noteq> Panic"
proof -
  have "convert_address_slice L v \<noteq> Panic" using convert_address_slice_total assms by blast
  moreover have "outcome_bind (convertToAddress L v) (\<lambda>r. Done (f r)) \<noteq> Panic" for f :: "abi_error + bytes \<Rightarrow> abi_error + goval"
    using convertToAddress_total [OF assms(1,4)] by (cases "convertToAddress L v") auto
  moreover have "ty_T ty = SliceTy \<or> ty_T ty = ArrayTy \<Longrightarrow> \<exists>el. ty_Elem ty = Some el"
    using assms(2,3) by (auto simp: types_have_elem_def)
  ultimately show ?thesis using assms(4) by (auto simp: convert_param_def split: goval.splits option.splits)
qed

lemma padded_loop_total:
  assumes "eth_20 L" and "types_have_elem L" and "list_all param_ok params"
  shows "padded_loop L params tys vs \<noteq> Panic"
  using assms
proof (induction L params tys vs rule: padded_loop.induct)
  case (1 L k v params tys vs)
  show ?case
  proof (cases "as_string k")
    case (Some s)
    show ?thesis
    proof (cases "abi_NewType L s")
      case (Inr ty)
      then obtain r where r: "convert_param L ty v = Done r"
        using convert_param_total [OF 1(2,3) Inr, of v] 1(4) by (cases "convert_param L ty v") auto
      then show ?thesis using 1 Some Inr by (cases r) auto
    qed (use Some in simp)
  qed simp
qed auto

text \<open>On success every pair has contributed its type and its converted value.\<close>

lemma padded_loop_length:
  "padded_loop L params tys vs = Done (Inr (tys', vs')) \<Longrightarrow> length params mod 2 = 0 \<Longrightarrow>
     length tys' = length tys + length params div 2 \<and> length vs' = length vs + length params div 2"
proof (induction L params tys vs rule: padded_loop.induct)
  case (1 L k v params tys vs)
  obtain s ty r where s: "as_string k = Some s" "abi_NewType L s = Inr ty" "convert_param L ty v = Done r"
    and rest: "(case r of Inl err \<Rightarrow> Done (Inl err) | Inr v' \<Rightarrow> padded_loop L params (tys @ [ty]) (vs @ [v']))
      = Done (Inr (tys', vs'))"
    using 1(2) by (cases "as_string k"; cases "abi_NewType L (the (as_string k))"; cases "convert_param L (projr (abi_NewType L (the (as_string k)))) v") auto
  then obtain v' where "r = Inr v'" by (cases r) auto
  then show ?case using 1(1) [OF s(1,2), of v'] 1(3) rest by auto
qed auto

lemma param_list_ok: "list_all param_ok params \<longleftrightarrow> (\<forall>v \<in> set params. param_ok v)"
  by (simp add: list_all_iff)

lemma GetPaddedParam_total:
  assumes "eth_20 L" and "types_have_elem L" and "list_all param_ok params"
  shows "\<exists>r. GetPaddedParam L params = Done r"
proof -
  obtain r where r: "padded_loop L params [] [] = Done r"
    using padded_loop_total [OF assms] by (cases "padded_loop L params [] []") auto
  then show ?thesis by (cases r) (auto simp: GetPaddedParam_def)
qed

lemma GetPaddedParam_Inr:
  assumes "GetPaddedParam L params = Done (Inr b)"
  shows "length params mod 2 = 0 \<and> (\<exists>tys vs. padded_loop L params [] [] = Done (Inr (tys, vs))
    \<and> length tys = length params div 2 \<and> length vs = length params div 2 \<and> abi_PackValues L tys vs = Inr b)"
proof -
  obtain r where r: "padded_loop L params [] [] = Done r" and even: "length params mod 2 = 0"
    using assms by (auto simp: GetPaddedParam_def outcome_bind_eq_Done split: if_splits)
  then obtain tys vs where "r = Inr (tys, vs)" "abi_PackValues L tys vs = Inr b"
    using assms by (cases r) (auto simp: GetPaddedParam_def split: sum.splits)
  then show ?thesis using r even padded_loop_length [of L params "[]" "[]" tys vs] by auto
qed

subsection \<open>Properties of the call data\<close>

text \<open>
  Functional: for parameters without nil integers and empty addresses, packing never panics;
  a packed call is the four bytes of the method's selector followed by go-ethereum's packing of one type
  and one converted value per parameter pair, and an odd number of parameters is never packed.
\<close>

theorem abi_pack_layout:
  assumes "eth_20 L" and "types_have_elem L" and "list_all param_ok params"
    and "\<And>m. length (LegacyKeccak256 L m) = 32"
  shows "\<exists>r. Pack L sig params = Done r
    \<and> (\<forall>b. r = Inr b \<longrightarrow> take 4 b = Selector L sig \<and> even (length params)
        \<and> (\<exists>tys vs. length tys = length params div 2 \<and> length vs = length params div 2
             \<and> abi_PackValues L tys vs = Inr (drop 4 b)))"
proof -
  obtain r where r: "GetPaddedParam L params = Done r" using GetPaddedParam_total [OF assms(1-3)] by blast
  have sel: "length (Selector L sig) = 4" using assms(4) by (simp add: Selector_def)
  show ?thesis
  proof (cases r)
    case (Inl e)
    then show ?thesis using r by (simp add: Pack_def)
  next
    case (Inr b)
    then have "even (length params)" and "\<exists>tys vs. length tys = length params div 2
        \<and> length vs = length params div 2 \<and> abi_PackValues L tys vs = Inr b"
      using r GetPaddedParam_Inr [of L params b] by (auto simp: even_iff_mod_2_eq_zero)
    moreover have "Pack L sig params = Done (Inr (Selector L sig @ b))" using r Inr by (simp add: Pack_def)
    ultimately show ?thesis using sel
      by (intro exI [of _ "Inr (Selector L sig @ b)"]) simp
  qed
qed

definition sample_abi_lib :: lib where
  "sample_abi_lib = sample_lib\<lparr>eth_HexToAddress := \<lambda>_. replicate 20 9,
     abi_NewType := \<lambda>k. if k = ''uint8'' then Inr (AbiType UintTy 8 None) else Inl k,
     abi_PackValues := \<lambda>ts vs. if vs = [GUint 8 42] then Inr (replicate 31 0 @ [42]) else Inl ''pack''\<rparr>"

theorem abi_pack_layout_witness:
  "\<exists>b. Pack sample_abi_lib ''f(uint8)'' [GString ''uint8'', GString ''42''] = Done (Inr b)
     \<and> take 4 b = [7, 7, 7, 7]"
proof -
  have hyps: "eth_20 sample_abi_lib" "types_have_elem sample_abi_lib"
    "list_all param_ok [GString ''uint8'', GString ''42'']"
    "\<And>m. length (LegacyKeccak256 sample_abi_lib m) = 32"
    by (auto simp: eth_20_def types_have_elem_def sample_abi_lib_def sample_lib_def split: if_splits)
  have "ParseUint ''42'' 8 = (42, None)" by code_simp
  then have "Pack sample_abi_lib ''f(uint8)'' [GString ''uint8'', GString ''42'']
      = Done (Inr (Selector sample_abi_lib ''f(uint8)'' @ replicate 31 0 @ [42]))"
    by (simp add: Pack_def GetPaddedParam_def sample_abi_lib_def convert_param_def convertToInt_def)
  moreover have "Selector sample_abi_lib ''f(uint8)'' = [7, 7, 7, 7]"
    by (simp add: Selector_def sample_abi_lib_def sample_lib_def numeral_eq_Suc)
  ultimately show ?thesis using abi_pack_layout [OF hyps, of "''f(uint8)''"] by auto
qed

text \<open>
  Round trip: a decimal string of a number that fits is converted to the number at the
  type's own width, for the widths 8 to 64 of both signednesses, and to a big integer at 256 bits.
\<close>

theorem abi_int_roundtrip:
  assumes "w \<in> {8, 16, 32, 64}"
  shows "(int n < 2 ^ (w - 1) \<longrightarrow> convertToInt (AbiType IntTy (int w) el) (dec_string n) = GInt w (int n))
    \<and> (int n < 2 ^ w \<longrightarrow> convertToInt (AbiType UintTy (int w) el) (dec_string n) = GUint w (int n))
    \<and> convertToInt (AbiType UintTy 256 el) (dec_string n) = GBigInt (Some (int n))"
proof (intro conjI impI)
  assume "int n < 2 ^ (w - 1)"
  then have "ParseInt (dec_string n) w = (int n, None)" using assms by (intro ParseInt_dec_string) auto
  then show "convertToInt (AbiType IntTy (int w) el) (dec_string n) = GInt w (int n)"
    using assms by (auto simp: convertToInt_def)
next
  assume "int n < 2 ^ w"
  then have "ParseUint (dec_string n) w = (int n, None)"
    using parse_dec_string [of n "2 ^ w - 1"] by (simp add: ParseUint_def dec_string_not_Nil)
  then show "convertToInt (AbiType UintTy (int w) el) (dec_string n) = GUint w (int n)"
    using assms by (auto simp: convertToInt_def)
next
  show "convertToInt (AbiType UintTy 256 el) (dec_string n) = GBigInt (Some (int n))"
    by (simp add: convertToInt_def bigint_of_string_def big_SetString_dec dec_string_no_0x)
qed

theorem abi_int_roundtrip_witness:
  "convertToInt (AbiType IntTy 8 None) (dec_string 127) = GInt 8 127
   \<and> convertToInt (AbiType UintTy 8 None) (dec_string 255) = GUint 8 255"
  using abi_int_roundtrip [of 8 127 None] abi_int_roundtrip [of 8 255 None] by simp

text \<open>
  A string given for a byte type never reaches the packer as bytes: it stays a string when
  it decodes (from hex or base64, with the right size), and becomes nil when it does not.
\<close>

theorem abi_bytes_inverted:
  assumes "ty_T ty = BytesTy \<or> ty_T ty = FixedBytesTy"
  shows "convert_param L ty (GString data) =
    Done (Inr (if \<exists>v. convertStringToBytes ty data = Inr v then GString data else GNil))"
  using assms by (auto simp: convert_param_def split: sum.splits)

theorem abi_bytes_inverted_witness:
  "convert_param sample_lib (AbiType BytesTy 0 None) (GString ''00ff'') = Done (Inr (GString ''00ff''))"
proof -
  have nibbles: "nibble CHR ''0'' = Some 0" "nibble CHR ''f'' = Some 15" by code_simp+
  have "convertStringToBytes (AbiType BytesTy 0 None) ''00ff'' = Inr (GBytes [0, 255])"
    using nibbles by (simp add: convertStringToBytes_def)
  then show ?thesis using abi_bytes_inverted [of "AbiType BytesTy 0 None" sample_lib "''00ff''"] by simp
qed

end
