(* ===== verification/HttpCommon.thy ===== *)
theory HttpCommon
  imports Abi
begin

text \<open>
  relayer/gotron-sdk/pkg/http/common: the JSON ABI (jsonabi.go), the response codes
  (response_codes.go) and the transaction as the HTTP API has it (transaction.go).
\<close>

subsection \<open>jsonabi.go\<close>

record EntryOutput =
  out_Indexed :: bool
  out_Name :: string
  out_Type :: string

record EntryInput =
  in_Indexed :: bool
  in_Name :: string
  in_Type :: string

record Entry =
  entry_Name :: string
  Anonymous :: bool
  Constant :: bool
  Payable :: bool
  StateMutability :: string
  entry_Type :: string
  Inputs :: "EntryInput list"
  Outputs :: "EntryOutput list"

record JSONABI =
  Entrys :: "Entry list"

datatype jsonabi_error = EntryNotFound string | InvalidParam string string

definition strings_Join :: "string list \<Rightarrow> char \<Rightarrow> string" where
  "strings_Join ws sep = join_char sep ws"

text \<open>The first entry of the name, in the order of the list.\<close>

fun find_entry :: "string \<Rightarrow> Entry list \<Rightarrow> Entry option" where
  "find_entry name [] = None"
| "find_entry name (e # es) = (if entry_Name e = name then Some e else find_entry name es)"

definition GetFunctionSignature :: "JSONABI \<Rightarrow> string \<Rightarrow> jsonabi_error + string" where
  "GetFunctionSignature abi name =
     (case find_entry name (Entrys abi) of
        None \<Rightarrow> Inl (EntryNotFound name)
      | Some entry \<Rightarrow>
          Inr (name @ ''('' @ strings_Join (List.map in_Type (Inputs entry)) CHR '','' @ '')''))"

text \<open>The loop over the parameters of an entry: it ends at the first type that does not parse.\<close>

fun parse_arguments :: "lib \<Rightarrow> (string \<times> string \<times> bool) list \<Rightarrow> jsonabi_error + Argument list" where
  "parse_arguments L [] = Inr []"
| "parse_arguments L ((nm, t, ix) # ps) =
     (case abi_NewType L t of
        Inl err \<Rightarrow> Inl (InvalidParam t err)
      | Inr ty \<Rightarrow>
          (case parse_arguments L ps of
             Inl err \<Rightarrow> Inl err
           | Inr as \<Rightarrow> Inr (\<lparr>arg_Name = nm, arg_Type = ty, arg_Indexed = ix\<rparr> # as)))"

definition GetInputParser :: "lib \<Rightarrow> JSONABI \<Rightarrow> string \<Rightarrow> jsonabi_error + Argument list" where
  "GetInputParser L abi m =
     (case find_entry m (Entrys abi) of
        None \<Rightarrow> Inl (EntryNotFound m)
      | Some entry \<Rightarrow> parse_arguments L (List.map (\<lambda>i. (in_Name i, in_Type i, in_Indexed i)) (Inputs entry)))"

definition GetOutputParser :: "lib \<Rightarrow> JSONABI \<Rightarrow> string \<Rightarrow> jsonabi_error + Argument list" where
  "GetOutputParser L abi m =
     (case find_entry m (Entrys abi) of
        None \<Rightarrow> Inl (EntryNotFound m)
      | Some entry \<Rightarrow> parse_arguments L (List.map (\<lambda>i. (out_Name i, out_Type i, out_Indexed i)) (Outputs entry)))"

subsection \<open>response_codes.go\<close>

definition ResponseCodeServerBusy :: string where
  "ResponseCodeServerBusy = ''SERVER_BUSY''"

definition ResponseCodeBlockUnsolidified :: string where
  "ResponseCodeBlockUnsolidified = ''BLOCK_UNSOLIDIFIED''"

subsection \<open>transaction.go\<close>

record NewContract =
  nc_OriginAddress :: string
  nc_ContractAddress :: string
  nc_ABI :: "JSONABI option"
  nc_Bytecode :: string
  nc_CallValue :: int64
  nc_ConsumeUserResourcePercent :: int64
  nc_Name :: string
  nc_OriginEnergyLimit :: int64
  nc_CodeHash :: string

record ParameterValue =
  pv_OwnerAddress :: string
  pv_ToAddress :: string
  pv_Data :: string
  pv_ContractAddress :: string
  pv_Amount :: int64
  pv_NewContract :: "NewContract option"

record Parameter =
  par_Value :: ParameterValue
  par_TypeUrl :: string

record Contract =
  con_Parameter :: Parameter
  con_Type :: string

record RawData =
  rd_Contract :: "Contract list"
  rd_RefBlockBytes :: string
  rd_RefBlockHash :: string
  rd_Expiration :: int64
  rd_FeeLimit :: int64
  rd_Timestamp :: int64

record Transaction =
  Visible :: bool
  TxID :: string
  RawData_of :: RawData
  RawDataHex :: string
  Signature :: "string list"

definition AddSignature :: "string \<Rightarrow> Transaction \<Rightarrow> Transaction" where
  "AddSignature signatureHex t = t\<lparr>Signature := Signature t @ [signatureHex]\<rparr>"

definition AddSignatureBytes :: "bytes \<Rightarrow> Transaction \<Rightarrow> Transaction" where
  "AddSignatureBytes signatureBytes t = AddSignature (hex_EncodeToString signatureBytes) t"

record Return =
  ContractRet :: string
  Ret :: string

record ExecutedTransaction =
  et_Transaction :: Transaction
  et_Ret :: "Return list"

subsection \<open>Signatures of the ABI\<close>

lemma find_entry_find: "find_entry name es = List.find (\<lambda>e. entry_Name e = name) es"
  by (induction es) auto

lemma parse_arguments_types:
  "parse_arguments L ps = Inr as \<longleftrightarrow>
     list_all2 (\<lambda>(nm, t, ix) a. abi_NewType L t = Inr (arg_Type a) \<and> arg_Name a = nm \<and> arg_Indexed a = ix) ps as"
proof (induction ps arbitrary: as)
  case (Cons p ps)
  obtain nm t ix where p: "p = (nm, t, ix)" by (cases p)
  show ?case
  proof (cases as)
    case Nil
    then show ?thesis by (auto simp: p split: sum.splits)
  next
    case (Cons a as')
    then show ?thesis using Cons.IH [of as'] by (cases a) (auto simp: p split: sum.splits)
  qed
qed auto

end
