(* ===== verification/Client.thy ===== *)
theory Client
  imports HttpCommon
begin

text \<open>
  The clients of the TRON node: the solidity node and full node HTTP clients
  (relayer/gotron-sdk/pkg/http/soliditynode and fullnode), the combined client and the client that
  validates the chain ID first (relayer/sdk/combined_client.go).

  The node and the network are the environment, a state of the type \<open>'w\<close>. A call takes that state to
  a new one and returns, as the Go functions do, a pointer and an error, either of which may be nil;
  or it panics. The record \<open>Http\<close> has, per endpoint, what \<open>tc.Post\<close> or \<open>tc.Get\<close> returns: the text of
  an error (of the connection, the status or the JSON), or the decoded response.
\<close>

type_synonym ('w, 'r) call = "'w \<Rightarrow> ('w \<times> 'r option \<times> string option) outcome"
type_synonym ('w, 'q, 'r) endpoint = "'q \<Rightarrow> 'w \<Rightarrow> 'w \<times> (string + 'r)"

subsection \<open>Responses\<close>

record BlockHeaderRaw =
  bh_Timestamp :: int64
  bh_TxTrieRoot :: string
  bh_ParentHash :: string
  bh_Number :: int64
  bh_WitnessId :: int64
  bh_WitnessAddress :: string
  bh_Version :: int32
  bh_AccountStateRoot :: string

record BlockHeader =
  bh_RawData :: "BlockHeaderRaw option"
  bh_WitnessSignature :: string

record Block =
  BlockID :: string
  bl_Transactions :: "ExecutedTransaction list"
  BlockHeader_of :: "BlockHeader option"

record ResourceReceipt =
  EnergyUsage :: int64
  EnergyFee :: int64
  OriginEnergyUsage :: int64
  EnergyUsageTotal :: int64
  NetUsage :: int64
  NetFee :: int64
  receipt_Result :: string
  EnergyPenaltyTotal :: int64

record Log =
  log_Address :: string
  log_Topics :: "string list"
  log_Data :: string

record CallValueInfo =
  cvi_CallValue :: int64
  cvi_TokenId :: string

record InternalTransaction =
  it_Hash :: string
  it_CallerAddress :: string
  it_TransferToAddress :: string
  it_CallValueInfo :: "CallValueInfo option list"
  it_Note :: string
  it_Rejected :: bool
  it_Extra :: string

record TransactionInfo =
  ti_ID :: string
  ti_Fee :: int64
  ti_BlockNumber :: int64
  ti_BlockTimeStamp :: int64
  ti_ContractResult :: "string list"
  ti_ContractAddress :: string
  ti_Receipt :: ResourceReceipt
  ti_Log :: "Log list"
  ti_Result :: string
  ti_ResMessage :: string
  ti_WithdrawAmount :: int64
  ti_UnfreezeAmount :: int64
  ti_InternalTransactions :: "InternalTransaction list"
  ti_WithdrawExpireAmount :: int64
  ti_CancelUnfreezev2Amount :: "string \<rightharpoonup> int64"

record AccountResource =
  ar_DelegatedFrozenBalanceForEnergy :: int64
  ar_AcquiredDelegatedFrozenBalanceForEnergy :: int64
  ar_DelegatedFrozenv2BalanceForEnergy :: int64
  ar_AcquiredDelegatedFrozenv2BalanceForEnergy :: int64
  ar_EnergyWindowSize :: int64
  ar_EnergyWindowOptimized :: bool
  ar_EnergyUsage :: int64
  ar_LatestConsumeTimeForEnergy :: int64

record Key =
  key_Address :: string
  key_Weight :: int64

record Permission =
  pm_Type :: string
  pm_ID :: int32
  pm_PermissionName :: string
  pm_Threshold :: int64
  pm_ParentId :: int32
  pm_Operations :: string
  pm_Keys :: "Key option list"

record Account_Frozen =
  af_Balance :: int64
  af_ExpireTime :: int64

record Account_FreezeV2 =
  f2_Type :: string
  f2_Amount :: int64

record Account_UnFreezeV2 =
  u2_Type :: string
  u2_UnfreezeAmount :: int64
  u2_UnfreezeExpireTime :: int64

record Vote =
  vote_VoteAddress :: string
  vote_VoteCount :: int64

record Asset =
  asset_Key :: string
  asset_Value :: int64

record GetAccountResponse =
  ga_AccountName :: string
  ga_Address :: string
  ga_CreateTime :: int64
  ga_Balance :: int64
  ga_Frozen :: Account_Frozen
  ga_DelegatedFrozenBalanceForBandwidth :: int64
  ga_AcquiredDelegatedFrozenBalanceForBandwidth :: int64
  ga_DelegatedFrozenv2BalanceForBandwidth :: int64
  ga_AcquiredDelegatedFrozenv2BalanceForBandwidth :: int64
  ga_AccountResource :: AccountResource
  ga_FrozenV2 :: "Account_FreezeV2 list"
  ga_UnfrozenV2 :: "Account_UnFreezeV2 list"
  ga_NetUsage :: int64
  ga_FreeNetUsage :: int64
  ga_NetWindowSize :: int64
  ga_NetWindowOptimized :: bool
  ga_Votes :: Vote
  ga_LatestOprationTime :: int64
  ga_LatestConsumeTime :: int64
  ga_LatestConsumeFreeTime :: int64
  ga_IsWitness :: bool
  ga_Allowance :: int64
  ga_LatestWithdrawTime :: int64
  ga_OwnerPermission :: Permission
  ga_WitnessPermission :: Permission
  ga_ActivePermission :: "Permission list"
  ga_Asset :: "Asset list"
  ga_AssetV2 :: "Asset list"
  ga_AssetIssuedName :: string
  ga_AssetIssuedId :: string
  ga_FreeAssetNetUsage :: "Asset list"
  ga_FreeAssetNetUsagev2 :: "Asset list"

record ReturnEnergyEstimate =
  re_Result :: bool
  re_Code :: string
  re_Message :: string

record TriggerConstantContractResponse =
  tc_Result :: ReturnEnergyEstimate
  EnergyUsed :: int64
  EnergyPenalty :: int64
  ConstantResult :: "string list"
  tc_Transaction :: "ExecutedTransaction option"

record EnergyEstimateResult =
  ee_Result :: ReturnEnergyEstimate
  EnergyRequired :: int64

record GetContractResponse =
  gc_OriginAddress :: string
  gc_ContractAddress :: string
  gc_ABI :: "JSONABI option"
  gc_Bytecode :: string
  gc_CallValue :: int64
  gc_ConsumeUserResourcePercent :: int64
  gc_Name :: string
  gc_OriginEnergyLimit :: int64
  gc_CodeHash :: string

record TriggerResult =
  tr_Result :: bool

record TriggerSmartContractResponse =
  ts_Result :: TriggerResult
  ts_Transaction :: "Transaction option"

record BroadcastResponse =
  br_Result :: bool
  br_Code :: string
  br_TxID :: string
  br_Message :: string

record EnergyPrices =
  Prices :: string

record DeployContractResponse =
  dc_Transaction :: Transaction
  dc_ContractAddress :: string

subsection \<open>Requests\<close>

record TriggerConstantContractRequest =
  tcr_OwnerAddress :: string
  tcr_ContractAddress :: string
  tcr_FunctionSelector :: string
  tcr_Parameter :: string
  tcr_Data :: string
  tcr_CallValue :: int64
  tcr_CallTokenValue :: int64
  tcr_TokenId :: int64
  tcr_Visible :: bool

record EnergyEstimateRequest =
  eer_OwnerAddress :: string
  eer_ContractAddress :: string
  eer_FunctionSelector :: string
  eer_Parameter :: string
  eer_Data :: string
  eer_CallValue :: int64
  eer_CallTokenValue :: int64
  eer_TokenId :: int64
  eer_Visible :: bool

record TriggerSmartContractRequest =
  tsr_OwnerAddress :: string
  tsr_ContractAddress :: string
  tsr_FunctionSelector :: string
  tsr_Parameter :: string
  tsr_Data :: string
  tsr_FeeLimit :: int32
  tsr_CallValue :: int64
  tsr_CallTokenValue :: int64
  tsr_TokenId :: int64
  tsr_PermissionId :: int32
  tsr_Visible :: bool

record CreateTransactionRequest =
  ctr_OwnerAddress :: string
  ctr_ToAddress :: string
  ctr_Amount :: int64
  ctr_Visible :: bool

record DeployContractRequest =
  dcr_OwnerAddress :: string
  dcr_ABI :: string
  dcr_Bytecode :: string
  dcr_Parameter :: string
  dcr_Name :: string
  dcr_CallValue :: int64
  dcr_FeeLimit :: int64
  dcr_ConsumeUserResourcePercent :: int64
  dcr_OriginEnergyLimit :: int64
  dcr_Visible :: bool

record GetContractRequest =
  gcr_Value :: string
  gcr_Visible :: bool

record GetAccountRequest =
  gar_Address :: string
  gar_Visible :: bool

record GetBlockByNumRequest =
  gbr_Num :: int32

record GetTransactionInfoByIDRequest =
  gtr_Value :: string

record 'w Http =
  get_getnowblock :: "('w, unit, Block) endpoint"
  post_getblockbynum :: "('w, GetBlockByNumRequest, Block) endpoint"
  post_getaccount :: "('w, GetAccountRequest, GetAccountResponse) endpoint"
  post_gettransactioninfobyid :: "('w, GetTransactionInfoByIDRequest, TransactionInfo) endpoint"
  post_triggerconstantcontract :: "('w, TriggerConstantContractRequest, TriggerConstantContractResponse) endpoint"
  post_estimateenergy :: "('w, EnergyEstimateRequest, EnergyEstimateResult) endpoint"
  post_getcontract :: "('w, GetContractRequest, GetContractResponse) endpoint"
  post_triggersmartcontract :: "('w, TriggerSmartContractRequest, TriggerSmartContractResponse) endpoint"
  post_createtransaction :: "('w, CreateTransactionRequest, Transaction) endpoint"
  post_broadcasttransaction :: "('w, Transaction, BroadcastResponse) endpoint"
  get_getenergyprices :: "('w, unit, EnergyPrices) endpoint"
  post_deploycontract :: "('w, DeployContractRequest, DeployContractResponse) endpoint"

subsection \<open>The solidity node client\<close>

text \<open>
  The tail every method shares: an error of the request is returned with nil, and the response goes
  to the method's own checks.
\<close>

definition after_rpc :: "'w \<times> (string + 'r) \<Rightarrow> ('r \<Rightarrow> 's option \<times> string option) \<Rightarrow> 'w \<times> 's option \<times> string option" where
  "after_rpc res check = (case res of (w, Inl err) \<Rightarrow> (w, None, Some err) | (w, Inr r) \<Rightarrow> (w, check r))"

definition check_block :: "Block \<Rightarrow> Block option \<times> string option" where
  "check_block b =
     (if BlockHeader_of b = None then (None, Some ''failed to retrieve block header'') else (Some b, None))"

definition sol_GetNowBlock :: "'w Http \<Rightarrow> ('w, Block) call" where
  "sol_GetNowBlock H w = Done (after_rpc (get_getnowblock H () w) check_block)"

definition sol_GetBlockByNum :: "'w Http \<Rightarrow> int32 \<Rightarrow> ('w, Block) call" where
  "sol_GetBlockByNum H num w = Done (after_rpc (post_getblockbynum H \<lparr>gbr_Num = num\<rparr> w) check_block)"

definition sol_GetAccount :: "'w Http \<Rightarrow> lib \<Rightarrow> address \<Rightarrow> ('w, GetAccountResponse) call" where
  "sol_GetAccount H L accountAddress w =
     Done (after_rpc (post_getaccount H \<lparr>gar_Address = Address_String L accountAddress, gar_Visible = True\<rparr> w) (\<lambda>r. (Some r, None)))"

definition sol_GetTransactionInfoById :: "'w Http \<Rightarrow> string \<Rightarrow> ('w, TransactionInfo) call" where
  "sol_GetTransactionInfoById H txhash w =
     Done (after_rpc (post_gettransactioninfobyid H \<lparr>gtr_Value = txhash\<rparr> w) (\<lambda>r.
       if ti_ID r = [] then (None, Some ''transaction not found'') else (Some r, None)))"

text \<open>The methods that encode parameters first.\<close>

definition encode_error :: string where
  "encode_error = ''failed to encode params''"

definition with_params ::
  "lib \<Rightarrow> goval list \<Rightarrow> 'w \<Rightarrow> (string \<Rightarrow> 'w \<times> 'r option \<times> string option) \<Rightarrow> ('w \<times> 'r option \<times> string option) outcome" where
  "with_params L params w k =
     outcome_bind (GetPaddedParam L params) (\<lambda>r.
       Done (case r of Inl err \<Rightarrow> (w, None, Some encode_error) | Inr b \<Rightarrow> k (hex_EncodeToString b)))"

definition sol_TriggerConstantContract ::
  "'w Http \<Rightarrow> lib \<Rightarrow> address \<Rightarrow> address \<Rightarrow> string \<Rightarrow> goval list \<Rightarrow> ('w, TriggerConstantContractResponse) call" where
  "sol_TriggerConstantContract H L sender contractAddress m params w =
     with_params L params w (\<lambda>p.
       after_rpc (post_triggerconstantcontract H
           \<lparr>tcr_OwnerAddress = Address_String L sender, tcr_ContractAddress = Address_String L contractAddress,
            tcr_FunctionSelector = m, tcr_Parameter = p, tcr_Data = [], tcr_CallValue = 0, tcr_CallTokenValue = 0,
            tcr_TokenId = 0, tcr_Visible = True\<rparr> w)
         (\<lambda>r. if \<not> re_Result (tc_Result r)
              then (Some r, Some (''failed to trigger constant contract, code: '' @ re_Code (tc_Result r)
                     @ '', message: '' @ re_Message (tc_Result r)))
              else (Some r, None)))"

definition sol_EstimateEnergy ::
  "'w Http \<Rightarrow> lib \<Rightarrow> address \<Rightarrow> address \<Rightarrow> string \<Rightarrow> goval list \<Rightarrow> int64 \<Rightarrow> ('w, EnergyEstimateResult) call" where
  "sol_EstimateEnergy H L sender contractAddress m params tAmount w =
     with_params L params w (\<lambda>p.
       after_rpc (post_estimateenergy H
           \<lparr>eer_OwnerAddress = Address_String L sender, eer_ContractAddress = Address_String L contractAddress,
            eer_FunctionSelector = m, eer_Parameter = p, eer_Data = [], eer_CallValue = tAmount,
            eer_CallTokenValue = 0, eer_TokenId = 0, eer_Visible = True\<rparr> w)
         (\<lambda>r. if \<not> re_Result (ee_Result r)
              then (Some r, Some (''failed to estimate energy, code: '' @ re_Code (ee_Result r)
                     @ '', message: '' @ re_Message (ee_Result r)))
              else (Some r, None)))"

subsection \<open>The full node client\<close>

text \<open>
  \<open>fullnode.Client\<close> embeds a solidity node client of its own URL, so the methods above are promoted
  to it; these are the ones it adds. In \<open>DeployContract\<close> the ABI is parsed and the constructor arguments are
  packed by go-ethereum.
\<close>

definition full_DeployContract ::
  "'w Http \<Rightarrow> lib \<Rightarrow> address \<Rightarrow> string \<Rightarrow> string \<Rightarrow> string \<Rightarrow> int64 \<Rightarrow> int64 \<Rightarrow> int64 \<Rightarrow> goval list \<Rightarrow>
     ('w, DeployContractResponse) call" where
  "full_DeployContract H L ownerAddress contractName abiJson bytecode oeLimit curPercent feeLimit params w = Done
     (case abi_JSON_Pack L abiJson params of
        Inl err \<Rightarrow> (w, None, Some (''failed to parse ABI: '' @ err))
      | Inr (Inl err) \<Rightarrow> (w, None, Some (''failed to encode params: '' @ err))
      | Inr (Inr encodedParams) \<Rightarrow>
          after_rpc (post_deploycontract H
              \<lparr>dcr_OwnerAddress = Address_String L ownerAddress, dcr_ABI = abiJson, dcr_Bytecode = bytecode,
               dcr_Parameter = hex_EncodeToString encodedParams, dcr_Name = contractName, dcr_CallValue = 0,
               dcr_FeeLimit = feeLimit, dcr_ConsumeUserResourcePercent = curPercent,
               dcr_OriginEnergyLimit = oeLimit, dcr_Visible = True\<rparr> w)
            (\<lambda>r. (Some r, None)))"

definition full_GetContract :: "'w Http \<Rightarrow> lib \<Rightarrow> address \<Rightarrow> ('w, GetContractResponse) call" where
  "full_GetContract H L contractAddress w =
     Done (after_rpc (post_getcontract H \<lparr>gcr_Value = Address_String L contractAddress, gcr_Visible = True\<rparr> w) (\<lambda>r.
       if gc_ABI r = None then (None, Some ''could not get contract ABI'') else (Some r, None)))"

definition full_TriggerSmartContract ::
  "'w Http \<Rightarrow> lib \<Rightarrow> address \<Rightarrow> address \<Rightarrow> string \<Rightarrow> goval list \<Rightarrow> int32 \<Rightarrow> int64 \<Rightarrow>
     ('w, TriggerSmartContractResponse) call" where
  "full_TriggerSmartContract H L sender contractAddress m params feeLimit tAmount w =
     with_params L params w (\<lambda>p.
       after_rpc (post_triggersmartcontract H
           \<lparr>tsr_OwnerAddress = Address_String L sender, tsr_ContractAddress = Address_String L contractAddress,
            tsr_FunctionSelector = m, tsr_Parameter = p, tsr_Data = [], tsr_FeeLimit = feeLimit,
            tsr_CallValue = tAmount, tsr_CallTokenValue = 0, tsr_TokenId = 0, tsr_PermissionId = 0, tsr_Visible = True\<rparr> w)
         (\<lambda>r. (Some r, None)))"

definition full_Transfer :: "'w Http \<Rightarrow> lib \<Rightarrow> address \<Rightarrow> address \<Rightarrow> int64 \<Rightarrow> ('w, Transaction) call" where
  "full_Transfer H L fromAddress toAddress amount w =
     Done (after_rpc (post_createtransaction H
         \<lparr>ctr_OwnerAddress = Address_String L fromAddress, ctr_ToAddress = Address_String L toAddress,
          ctr_Amount = amount, ctr_Visible = True\<rparr> w)
       (\<lambda>tx. if TxID tx = [] then (None, Some ''failed to create transaction'') else (Some tx, None)))"

text \<open>
  The request body is a pointer. With a failed request the response pointer is nil; with a response
  whose result is false the response is returned beside the error.
\<close>

definition full_BroadcastTransaction :: "'w Http \<Rightarrow> Transaction option \<Rightarrow> ('w, BroadcastResponse) call" where
  "full_BroadcastTransaction H reqBody w = Done
     (case reqBody of
        None \<Rightarrow> (w, None, Some ''empty body'')
      | Some tx \<Rightarrow>
          if length (TxID tx) < 1 then (w, None, Some ''empty transaction ID in request'')
          else if length (Signature tx) < 1 then (w, None, Some ''no signatures'')
          else after_rpc (post_broadcasttransaction H tx w)
            (\<lambda>r. if \<not> br_Result r
                 then (Some r, Some (''broadcasting failed. Code: '' @ br_Code r @ '', Message: '' @ br_Message r))
                 else (Some r, None)))"

definition full_GetEnergyPrices :: "'w Http \<Rightarrow> ('w, EnergyPrices) call" where
  "full_GetEnergyPrices H w = Done (after_rpc (get_getenergyprices H () w) (\<lambda>r. (Some r, None)))"

subsection \<open>The combined client\<close>

text \<open>The interface \<open>CombinedClient\<close>, as the record of its methods.\<close>

record 'w CombinedClient =
  TriggerConstantContract :: "address \<Rightarrow> address \<Rightarrow> string \<Rightarrow> goval list \<Rightarrow> ('w, TriggerConstantContractResponse) call"
  EstimateEnergy :: "address \<Rightarrow> address \<Rightarrow> string \<Rightarrow> goval list \<Rightarrow> int64 \<Rightarrow> ('w, EnergyEstimateResult) call"
  GetNowBlock :: "('w, Block) call"
  GetBlockByNum :: "int32 \<Rightarrow> ('w, Block) call"
  GetAccount :: "address \<Rightarrow> ('w, GetAccountResponse) call"
  GetTransactionInfoById :: "string \<Rightarrow> ('w, TransactionInfo) call"
  DeployContract :: "address \<Rightarrow> string \<Rightarrow> string \<Rightarrow> string \<Rightarrow> int64 \<Rightarrow> int64 \<Rightarrow> int64 \<Rightarrow> goval list \<Rightarrow> ('w, DeployContractResponse) call"
  GetContract :: "address \<Rightarrow> ('w, GetContractResponse) call"
  TriggerSmartContract :: "address \<Rightarrow> address \<Rightarrow> string \<Rightarrow> goval list \<Rightarrow> int32 \<Rightarrow> int64 \<Rightarrow> ('w, TriggerSmartContractResponse) call"
  Transfer :: "address \<Rightarrow> address \<Rightarrow> int64 \<Rightarrow> ('w, Transaction) call"
  BroadcastTransaction :: "Transaction option \<Rightarrow> ('w, BroadcastResponse) call"
  GetEnergyPrices :: "('w, EnergyPrices) call"
  TriggerConstantContractFullNode :: "address \<Rightarrow> address \<Rightarrow> string \<Rightarrow> goval list \<Rightarrow> ('w, TriggerConstantContractResponse) call"
  GetNowBlockFullNode :: "('w, Block) call"
  GetBlockByNumFullNode :: "int32 \<Rightarrow> ('w, Block) call"
  GetAccountFullNode :: "address \<Rightarrow> ('w, GetAccountResponse) call"
  GetTransactionInfoByIdFullNode :: "string \<Rightarrow> ('w, TransactionInfo) call"

text \<open>The reads go to the solidity node, the rest and the reads named FullNode to the full node.\<close>

definition NewCombinedClient :: "lib \<Rightarrow> 'w Http \<Rightarrow> 'w Http \<Rightarrow> 'w CombinedClient" where
  "NewCombinedClient L fullnodeClient solidityClient =
     \<lparr>TriggerConstantContract = sol_TriggerConstantContract solidityClient L,
      EstimateEnergy = sol_EstimateEnergy fullnodeClient L,
      GetNowBlock = sol_GetNowBlock solidityClient,
      GetBlockByNum = sol_GetBlockByNum solidityClient,
      GetAccount = sol_GetAccount solidityClient L,
      GetTransactionInfoById = sol_GetTransactionInfoById solidityClient,
      DeployContract = full_DeployContract fullnodeClient L,
      GetContract = full_GetContract fullnodeClient L,
      TriggerSmartContract = full_TriggerSmartContract fullnodeClient L,
      Transfer = full_Transfer fullnodeClient L,
      BroadcastTransaction = full_BroadcastTransaction fullnodeClient,
      GetEnergyPrices = full_GetEnergyPrices fullnodeClient,
      TriggerConstantContractFullNode = sol_TriggerConstantContract fullnodeClient L,
      GetNowBlockFullNode = sol_GetNowBlock fullnodeClient,
      GetBlockByNumFullNode = sol_GetBlockByNum fullnodeClient,
      GetAccountFullNode = sol_GetAccount fullnodeClient L,
      GetTransactionInfoByIdFullNode = sol_GetTransactionInfoById fullnodeClient\<rparr>"

subsection \<open>The validated client\<close>

text \<open>Its fields \<open>done\<close> and \<open>err\<close> are state beside the environment.\<close>

record validation =
  v_done :: bool
  v_err :: "string option"

definition chain_id_of_block :: "Block \<Rightarrow> (string + int) outcome" where
  "chain_id_of_block b =
     (if length (BlockID b) < 8 then Panic
      else let chainIdHex = drop (length (BlockID b) - 8) (BlockID b)
           in Done (case big_SetString chainIdHex 16 of None \<Rightarrow> Inl chainIdHex | Some n \<Rightarrow> Inr n))"

definition validate :: "'w CombinedClient \<Rightarrow> int \<Rightarrow> 'w \<times> validation \<Rightarrow> (('w \<times> validation) \<times> string option) outcome" where
  "validate orig chainID = (\<lambda>(w, v).
     if v_done v then Done ((w, v), v_err v)
     else outcome_bind (GetBlockByNum orig 0 w) (\<lambda>(w', blockInfo, err).
       case err of
         Some e \<Rightarrow> Done ((w', v), Some (''error getting genesis block info: '' @ e))
       | None \<Rightarrow>
           (case blockInfo of
              None \<Rightarrow> Panic
            | Some b \<Rightarrow>
                outcome_bind (chain_id_of_block b) (\<lambda>r.
                  let verr = (case r of
                      Inl chainIdHex \<Rightarrow> Some (''couldn't parse chain id '' @ chainIdHex @ '' from genesis block'')
                    | Inr chainId \<Rightarrow>
                        if chainId \<noteq> chainID
                        then Some (''client chain id '' @ big_String chainId @ '' does not match config chain id ''
                               @ big_String chainID)
                        else v_err v)
                  in Done ((w', v\<lparr>v_done := True, v_err := verr\<rparr>), verr)))))"

text \<open>A gated method: validate, and only then call the original.\<close>

definition gate ::
  "'w CombinedClient \<Rightarrow> int \<Rightarrow> ('w, 'r) call \<Rightarrow> ('w \<times> validation, 'r) call" where
  "gate orig chainID f wv =
     outcome_bind (validate orig chainID wv) (\<lambda>((w, v), err).
       case err of
         Some e \<Rightarrow> Done ((w, v), None, Some e)
       | None \<Rightarrow> outcome_bind (f w) (\<lambda>(w', r, e). Done ((w', v), r, e)))"

text \<open>\<open>TriggerConstantContractFullNode\<close> calls the original's \<open>TriggerConstantContract\<close>.\<close>

definition NewValidatedCombinedClient :: "'w CombinedClient \<Rightarrow> int \<Rightarrow> ('w \<times> validation) CombinedClient" where
  "NewValidatedCombinedClient c chainID =
     \<lparr>TriggerConstantContract = (\<lambda>a b m ps. gate c chainID (TriggerConstantContract c a b m ps)),
      EstimateEnergy = (\<lambda>a b m ps n. gate c chainID (EstimateEnergy c a b m ps n)),
      GetNowBlock = gate c chainID (GetNowBlock c),
      GetBlockByNum = (\<lambda>n. gate c chainID (GetBlockByNum c n)),
      GetAccount = (\<lambda>a. gate c chainID (GetAccount c a)),
      GetTransactionInfoById = (\<lambda>x. gate c chainID (GetTransactionInfoById c x)),
      DeployContract = (\<lambda>a nm j b oe cur fl ps. gate c chainID (DeployContract c a nm j b oe cur fl ps)),
      GetContract = (\<lambda>a. gate c chainID (GetContract c a)),
      TriggerSmartContract = (\<lambda>a b m ps fl n. gate c chainID (TriggerSmartContract c a b m ps fl n)),
      Transfer = (\<lambda>a b n. gate c chainID (Transfer c a b n)),
      BroadcastTransaction = (\<lambda>t. gate c chainID (BroadcastTransaction c t)),
      GetEnergyPrices = gate c chainID (GetEnergyPrices c),
      TriggerConstantContractFullNode = (\<lambda>a b m ps. gate c chainID (TriggerConstantContract c a b m ps)),
      GetNowBlockFullNode = gate c chainID (GetNowBlockFullNode c),
      GetBlockByNumFullNode = (\<lambda>n. gate c chainID (GetBlockByNumFullNode c n)),
      GetAccountFullNode = (\<lambda>a. gate c chainID (GetAccountFullNode c a)),
      GetTransactionInfoByIdFullNode = (\<lambda>x. gate c chainID (GetTransactionInfoByIdFullNode c x))\<rparr>"

subsection \<open>Properties of the validated client\<close>

lemma validate_done: "v_done v \<Longrightarrow> validate c chainID (w, v) = Done ((w, v), v_err v)"
  by (simp add: validate_def)

lemma validate_None:
  assumes "validate c chainID (w, v) = Done ((w1, v1), None)"
  shows "v_done v1 \<and> v_err v1 = None
    \<and> (v_done v \<or> (\<exists>b. GetBlockByNum c 0 w = Done (w1, Some b, None) \<and> chain_id_of_block b = Done (Inr chainID)))"
proof (cases "v_done v")
  case True
  then show ?thesis using assms by (auto simp: validate_def)
next
  case False
  then obtain w' bi err where g: "GetBlockByNum c 0 w = Done (w', bi, err)"
    using assms by (auto simp: validate_def outcome_bind_eq_Done)
  then obtain b where b: "err = None" "bi = Some b"
    using assms False by (cases err; cases bi) (auto simp: validate_def)
  then obtain r where r: "chain_id_of_block b = Done r"
    using assms False g by (auto simp: validate_def outcome_bind_eq_Done)
  show ?thesis using assms False g b r
    by (cases r) (auto simp: validate_def Let_def split: if_splits)
qed

lemma gate_refused:
  "validate c chainID wv = Done (wv1, Some e) \<Longrightarrow> gate c chainID f wv = Done (wv1, None, Some e)"
  by (cases wv1) (simp add: gate_def)

lemma gate_passed:
  "validate c chainID wv = Done ((w, v), None) \<Longrightarrow>
     gate c chainID f wv = outcome_bind (f w) (\<lambda>(w', r, e). Done ((w', v), r, e))"
  by (simp add: gate_def)

text \<open>
  Safety: while validation fails, no method of the validated client reaches the node
  it wraps beyond the validation itself: transactions are not built or broadcast, and reads return nil and
  the validation's error.
\<close>

theorem validated_client_refuses:
  assumes "validate c chainID wv = Done (wv1, Some e)" and "V = NewValidatedCombinedClient c chainID"
  shows "BroadcastTransaction V t wv = Done (wv1, None, Some e)
    \<and> TriggerSmartContract V a b m ps fl n wv = Done (wv1, None, Some e)
    \<and> Transfer V a b n wv = Done (wv1, None, Some e)
    \<and> TriggerConstantContract V a b m ps wv = Done (wv1, None, Some e)
    \<and> TriggerConstantContractFullNode V a b m ps wv = Done (wv1, None, Some e)
    \<and> EstimateEnergy V a b m ps n wv = Done (wv1, None, Some e)
    \<and> GetNowBlock V wv = Done (wv1, None, Some e) \<and> GetNowBlockFullNode V wv = Done (wv1, None, Some e)
    \<and> GetBlockByNum V k wv = Done (wv1, None, Some e) \<and> GetBlockByNumFullNode V k wv = Done (wv1, None, Some e)
    \<and> GetAccount V a wv = Done (wv1, None, Some e) \<and> GetAccountFullNode V a wv = Done (wv1, None, Some e)
    \<and> GetTransactionInfoById V x wv = Done (wv1, None, Some e)
    \<and> GetTransactionInfoByIdFullNode V x wv = Done (wv1, None, Some e)
    \<and> DeployContract V a nm j bc oe cur lim ps wv = Done (wv1, None, Some e)
    \<and> GetContract V a wv = Done (wv1, None, Some e) \<and> GetEnergyPrices V wv = Done (wv1, None, Some e)"
  by (simp add: assms(2) NewValidatedCombinedClient_def gate_refused [OF assms(1)])

text \<open>A node to evaluate on: the state counts the calls, every request fails or returns a fixed block.\<close>

definition sample_raw :: "int64 \<Rightarrow> int64 \<Rightarrow> BlockHeaderRaw" where
  "sample_raw n t = \<lparr>bh_Timestamp = t, bh_TxTrieRoot = [], bh_ParentHash = [], bh_Number = n, bh_WitnessId = 0,
     bh_WitnessAddress = [], bh_Version = 0, bh_AccountStateRoot = []\<rparr>"

definition sample_block :: "string \<Rightarrow> int64 \<Rightarrow> int64 \<Rightarrow> Block" where
  "sample_block i n t = \<lparr>BlockID = i, bl_Transactions = [],
     BlockHeader_of = Some \<lparr>bh_RawData = Some (sample_raw n t),
       bh_WitnessSignature = []\<rparr>\<rparr>"

definition sample_http :: "string \<Rightarrow> nat Http" where
  "sample_http i =
     \<lparr>get_getnowblock = (\<lambda>_ w. (Suc w, Inr (sample_block i 1 0))),
      post_getblockbynum = (\<lambda>_ w. (Suc w, Inr (sample_block i 0 0))),
      post_getaccount = (\<lambda>_ w. (Suc w, Inl ''x'')), post_gettransactioninfobyid = (\<lambda>_ w. (Suc w, Inl ''x'')),
      post_triggerconstantcontract = (\<lambda>_ w. (Suc w, Inl ''x'')), post_estimateenergy = (\<lambda>_ w. (Suc w, Inl ''x'')),
      post_getcontract = (\<lambda>_ w. (Suc w, Inl ''x'')), post_triggersmartcontract = (\<lambda>_ w. (Suc w, Inl ''x'')),
      post_createtransaction = (\<lambda>_ w. (Suc w, Inl ''x'')), post_broadcasttransaction = (\<lambda>_ w. (Suc w, Inl ''x'')),
      get_getenergyprices = (\<lambda>_ w. (Suc w, Inr \<lparr>Prices = ''0:420''\<rparr>)),
      post_deploycontract = (\<lambda>_ w. (Suc w, Inl ''x''))\<rparr>"

definition sample_client :: "string \<Rightarrow> nat CombinedClient" where
  "sample_client i = NewCombinedClient sample_lib (sample_http i) (sample_http i)"

definition not_validated :: validation where
  "not_validated = \<lparr>v_done = False, v_err = None\<rparr>"

theorem validated_client_refuses_witness:
  "\<exists>wv1 e. BroadcastTransaction (NewValidatedCombinedClient (sample_client ''0000000000000005'') 6) None (0, not_validated)
     = Done (wv1, None, Some e) \<and> fst wv1 = 1"
proof -
  have "big_SetString ''00000005'' 16 = Some 5" by code_simp
  then obtain v e where
    "validate (sample_client ''0000000000000005'') 6 (0, not_validated) = Done ((1, v), Some e)"
    by (auto simp: validate_def sample_client_def NewCombinedClient_def sol_GetBlockByNum_def sample_http_def
        after_rpc_def check_block_def sample_block_def chain_id_of_block_def not_validated_def Let_def)
  from validated_client_refuses [OF this refl] show ?thesis by fastforce
qed

text \<open>
  Functional: once validation has succeeded, the chain ID of the genesis block was the
  configured one, validation is never repeated, and every method behaves as the wrapped client's.
\<close>

theorem validated_client_transparent:
  assumes "validate c chainID (w, not_validated) = Done ((w1, v1), None)"
    and "V = NewValidatedCombinedClient c chainID"
  shows "(\<exists>b. GetBlockByNum c 0 w = Done (w1, Some b, None) \<and> chain_id_of_block b = Done (Inr chainID))
    \<and> validate c chainID (w2, v1) = Done ((w2, v1), None)
    \<and> BroadcastTransaction V t (w2, v1) = outcome_bind (BroadcastTransaction c t w2) (\<lambda>(w', r, e). Done ((w', v1), r, e))
    \<and> GetTransactionInfoById V x (w2, v1) = outcome_bind (GetTransactionInfoById c x w2) (\<lambda>(w', r, e). Done ((w', v1), r, e))
    \<and> GetNowBlockFullNode V (w2, v1) = outcome_bind (GetNowBlockFullNode c w2) (\<lambda>(w', r, e). Done ((w', v1), r, e))
    \<and> EstimateEnergy V a b m ps n (w2, v1) = outcome_bind (EstimateEnergy c a b m ps n w2) (\<lambda>(w', r, e). Done ((w', v1), r, e))"
proof -
  have v1: "v_done v1" "v_err v1 = None"
    "\<exists>b. GetBlockByNum c 0 w = Done (w1, Some b, None) \<and> chain_id_of_block b = Done (Inr chainID)"
    using validate_None [OF assms(1)] by (auto simp: not_validated_def)
  then have val: "validate c chainID (w2, v1) = Done ((w2, v1), None)" by (simp add: validate_done)
  show ?thesis using v1 val by (simp add: assms(2) NewValidatedCombinedClient_def gate_passed [OF val])
qed

theorem validated_client_transparent_witness:
  "\<exists>v1. validate (sample_client ''0000000000000005'') 5 (0, not_validated) = Done ((1, v1), None)
     \<and> validate (sample_client ''0000000000000005'') 5 (7, v1) = Done ((7, v1), None)"
proof -
  have "big_SetString ''00000005'' 16 = Some 5" by code_simp
  then obtain v1 where
    v1: "validate (sample_client ''0000000000000005'') 5 (0, not_validated) = Done ((1, v1), None)"
    by (auto simp: validate_def sample_client_def NewCombinedClient_def sol_GetBlockByNum_def sample_http_def
        after_rpc_def check_block_def sample_block_def chain_id_of_block_def not_validated_def Let_def)
  from validated_client_transparent [OF v1 refl, of 7] v1 show ?thesis by blast
qed

text \<open>
  The method named FullNode goes to the solidity node when the client is validated, and to the full
  node when it is not.
\<close>

theorem validated_trigger_solidity:
  "TriggerConstantContractFullNode (NewValidatedCombinedClient (NewCombinedClient L F S) chainID) a b m ps
     = gate (NewCombinedClient L F S) chainID (sol_TriggerConstantContract S L a b m ps)
   \<and> TriggerConstantContractFullNode (NewCombinedClient L F S) a b m ps = sol_TriggerConstantContract F L a b m ps"
  by (simp add: NewValidatedCombinedClient_def NewCombinedClient_def)

end
