(* ===== verification/HttpClient.thy ===== *)
theory HttpClient
  imports Client
begin

text \<open>
  relayer/gotron-sdk/pkg/http/soliditynode/client.go: one HTTP request with a JSON body and a JSON
  response, and the clients of two nodes made from it (relayer/sdk/combined_client.go).

  The network and JSON are parameters: \<open>net_Do\<close> executes a request, \<open>json_Object\<close> is \<open>json.Unmarshal\<close> into
  a \<open>map[string]interface{}\<close>, and \<open>Codec\<close> has \<open>json.Marshal\<close> and \<open>json.Unmarshal\<close> at the types of the
  requests and responses.
\<close>

datatype jvalue = JString string | JOther string

text \<open>
  \<open>net_Do\<close> returns the error of the round trip, or the status with the body or the error of reading it.
  The printed form of a JSON value that is no string is kept with it.
\<close>

record 'w Net =
  net_NewRequest :: "string \<Rightarrow> string \<Rightarrow> string option \<Rightarrow> string option"
  net_Do :: "string \<Rightarrow> string \<Rightarrow> string option \<Rightarrow> 'w \<Rightarrow> 'w \<times> (string + nat \<times> (string + string))"
  json_Object :: "string \<Rightarrow> string + (string \<rightharpoonup> jvalue)"

definition StatusOK :: nat where
  "StatusOK = 200"

definition failed :: "string \<Rightarrow> string \<Rightarrow> string \<Rightarrow> string \<Rightarrow> string" where
  "failed what meth endpoint e = what @ '' ('' @ meth @ '' '' @ endpoint @ ''): '' @ e"

text \<open>The checks on the response: status, error field, and then the decoding proper.\<close>

definition read_response ::
  "'w Net \<Rightarrow> string \<Rightarrow> string \<Rightarrow> (string \<Rightarrow> string + 'r) \<Rightarrow> nat \<Rightarrow> string + string \<Rightarrow> string + 'r" where
  "read_response N meth endpoint decode status res =
     (case res of
        Inl e \<Rightarrow> Inl (failed ''failed to read HTTP response body'' meth endpoint e)
      | Inr body \<Rightarrow>
          if status \<noteq> StatusOK then Inl (failed ''invalid http status'' meth endpoint (dec_string status))
          else (case json_Object N body of
                  Inl e \<Rightarrow> Inl (failed ''failed to unmarshal JSON response for error check'' meth endpoint e)
                | Inr errResponse \<Rightarrow>
                    (case errResponse ''Error'' of
                       Some (JOther v) \<Rightarrow> Inl (failed ''failed to read JSON error field as string'' meth endpoint v)
                     | Some (JString v) \<Rightarrow> Inl (failed ''RPC returned error'' meth endpoint v)
                     | None \<Rightarrow>
                         (case decode body of
                            Inl e \<Rightarrow> Inl (failed ''failed to unmarshal JSON response'' meth endpoint e)
                          | Inr r \<Rightarrow> Inr r))))"

definition do_request ::
  "'w Net \<Rightarrow> string \<Rightarrow> string \<Rightarrow> (string \<Rightarrow> string + 'r) \<Rightarrow> string option \<Rightarrow> 'w \<Rightarrow> 'w \<times> (string + 'r)" where
  "do_request N meth endpoint decode body w =
     (case net_Do N meth endpoint body w of
        (w, Inl e) \<Rightarrow> (w, Inl (failed ''failed to execute HTTP request'' meth endpoint e))
      | (w, Inr (status, res)) \<Rightarrow> (w, read_response N meth endpoint decode status res))"

text \<open>\<open>reqBody\<close> is \<open>None\<close> for nil, otherwise the result of marshalling it.\<close>

definition http_request ::
  "'w Net \<Rightarrow> string \<Rightarrow> string \<Rightarrow> string \<Rightarrow> (string + string) option \<Rightarrow> (string \<Rightarrow> string + 'r) \<Rightarrow> 'w \<Rightarrow> 'w \<times> (string + 'r)" where
  "http_request N BaseURL meth path reqBody decode w =
     (let endpoint = BaseURL @ path
      in case reqBody of
           Some (Inl e) \<Rightarrow> (w, Inl (failed ''failed to marshal JSON request body'' meth endpoint e))
         | Some (Inr jsonbytes) \<Rightarrow>
             (case net_NewRequest N meth endpoint (Some jsonbytes) of
                Some e \<Rightarrow> (w, Inl (failed ''failed to create new HTTP request with body'' meth endpoint e))
              | None \<Rightarrow> do_request N meth endpoint decode (Some jsonbytes) w)
         | None \<Rightarrow>
             (case net_NewRequest N meth endpoint None of
                Some e \<Rightarrow> (w, Inl (failed ''failed to create new HTTP request'' meth endpoint e))
              | None \<Rightarrow> do_request N meth endpoint decode None w))"

definition http_Post ::
  "'w Net \<Rightarrow> string \<Rightarrow> string \<Rightarrow> ('q \<Rightarrow> string + string) \<Rightarrow> (string \<Rightarrow> string + 'r) \<Rightarrow> 'q \<Rightarrow> 'w \<Rightarrow> 'w \<times> (string + 'r)" where
  "http_Post N BaseURL endpoint encode decode q w =
     http_request N BaseURL ''POST'' endpoint (Some (encode q)) decode w"

definition http_Get ::
  "'w Net \<Rightarrow> string \<Rightarrow> string \<Rightarrow> (string \<Rightarrow> string + 'r) \<Rightarrow> 'w \<Rightarrow> 'w \<times> (string + 'r)" where
  "http_Get N BaseURL endpoint decode w = http_request N BaseURL ''GET'' endpoint None decode w"

subsection \<open>The endpoints of a node\<close>

record Codec =
  enc_GetBlockByNum :: "GetBlockByNumRequest \<Rightarrow> string + string"
  enc_GetAccount :: "GetAccountRequest \<Rightarrow> string + string"
  enc_GetTransactionInfo :: "GetTransactionInfoByIDRequest \<Rightarrow> string + string"
  enc_TriggerConstant :: "TriggerConstantContractRequest \<Rightarrow> string + string"
  enc_Estimate :: "EnergyEstimateRequest \<Rightarrow> string + string"
  enc_GetContract :: "GetContractRequest \<Rightarrow> string + string"
  enc_TriggerSmart :: "TriggerSmartContractRequest \<Rightarrow> string + string"
  enc_CreateTransaction :: "CreateTransactionRequest \<Rightarrow> string + string"
  enc_Transaction :: "Transaction \<Rightarrow> string + string"
  enc_Deploy :: "DeployContractRequest \<Rightarrow> string + string"
  dec_Block :: "string \<Rightarrow> string + Block"
  dec_Account :: "string \<Rightarrow> string + GetAccountResponse"
  dec_TransactionInfo :: "string \<Rightarrow> string + TransactionInfo"
  dec_TriggerConstant :: "string \<Rightarrow> string + TriggerConstantContractResponse"
  dec_Estimate :: "string \<Rightarrow> string + EnergyEstimateResult"
  dec_Contract :: "string \<Rightarrow> string + GetContractResponse"
  dec_TriggerSmart :: "string \<Rightarrow> string + TriggerSmartContractResponse"
  dec_Transaction :: "string \<Rightarrow> string + Transaction"
  dec_Broadcast :: "string \<Rightarrow> string + BroadcastResponse"
  dec_EnergyPrices :: "string \<Rightarrow> string + EnergyPrices"
  dec_Deploy :: "string \<Rightarrow> string + DeployContractResponse"

definition node_http :: "'w Net \<Rightarrow> Codec \<Rightarrow> string \<Rightarrow> 'w Http" where
  "node_http N C BaseURL =
     \<lparr>get_getnowblock = (\<lambda>_. http_Get N BaseURL ''/getnowblock'' (dec_Block C)),
      post_getblockbynum = http_Post N BaseURL ''/getblockbynum'' (enc_GetBlockByNum C) (dec_Block C),
      post_getaccount = http_Post N BaseURL ''/getaccount'' (enc_GetAccount C) (dec_Account C),
      post_gettransactioninfobyid = http_Post N BaseURL ''/gettransactioninfobyid'' (enc_GetTransactionInfo C) (dec_TransactionInfo C),
      post_triggerconstantcontract = http_Post N BaseURL ''/triggerconstantcontract'' (enc_TriggerConstant C) (dec_TriggerConstant C),
      post_estimateenergy = http_Post N BaseURL ''/estimateenergy'' (enc_Estimate C) (dec_Estimate C),
      post_getcontract = http_Post N BaseURL ''/getcontract'' (enc_GetContract C) (dec_Contract C),
      post_triggersmartcontract = http_Post N BaseURL ''/triggersmartcontract'' (enc_TriggerSmart C) (dec_TriggerSmart C),
      post_createtransaction = http_Post N BaseURL ''/createtransaction'' (enc_CreateTransaction C) (dec_Transaction C),
      post_broadcasttransaction = http_Post N BaseURL ''/broadcasttransaction'' (enc_Transaction C) (dec_Broadcast C),
      get_getenergyprices = (\<lambda>_. http_Get N BaseURL ''/getenergyprices'' (dec_EnergyPrices C)),
      post_deploycontract = http_Post N BaseURL ''/deploycontract'' (enc_Deploy C) (dec_Deploy C)\<rparr>"

text \<open>The clients of the two nodes share the \<open>http.Client\<close> that the timeout gives.\<close>

definition CreateCombinedClientWithTimeout ::
  "(duration \<Rightarrow> 'w Net) \<Rightarrow> Codec \<Rightarrow> lib \<Rightarrow> string \<Rightarrow> string \<Rightarrow> duration \<Rightarrow> 'w CombinedClient" where
  "CreateCombinedClientWithTimeout CreateHttpClientWithTimeout C L fullnodeUrl soliditynodeUrl timeout =
     (let httpClient = CreateHttpClientWithTimeout timeout
      in NewCombinedClient L (node_http httpClient C fullnodeUrl) (node_http httpClient C soliditynodeUrl))"

definition CreateCombinedClient ::
  "(duration \<Rightarrow> 'w Net) \<Rightarrow> Codec \<Rightarrow> lib \<Rightarrow> string \<Rightarrow> string \<Rightarrow> 'w CombinedClient" where
  "CreateCombinedClient CreateHttpClientWithTimeout C L fullnodeUrl soliditynodeUrl =
     CreateCombinedClientWithTimeout CreateHttpClientWithTimeout C L fullnodeUrl soliditynodeUrl (15 * nanos_per_second)"

subsection \<open>Properties\<close>

lemma read_response_Inr:
  "read_response N meth endpoint decode status res = Inr r \<longleftrightarrow>
     (\<exists>body obj. status = StatusOK \<and> res = Inr body \<and> json_Object N body = Inr obj \<and> obj ''Error'' = None
        \<and> decode body = Inr r)"
  by (auto simp: read_response_def split: sum.splits option.splits jvalue.splits)

text \<open>
  Error behaviour: a request succeeds exactly when its body was marshalled, the request
  was made and executed, the status was 200, the body was read and is a JSON object without an \<open>Error\<close>
  field, and decodes; every other path reports an error and yields no response.
\<close>

theorem request_accepts_only:
  assumes "http_Post N BaseURL path encode decode q w = (w', res)"
  shows "res = Inr r \<longleftrightarrow>
    (\<exists>json body obj. encode q = Inr json \<and> net_NewRequest N ''POST'' (BaseURL @ path) (Some json) = None
       \<and> net_Do N ''POST'' (BaseURL @ path) (Some json) w = (w', Inr (200, Inr body))
       \<and> json_Object N body = Inr obj \<and> obj ''Error'' = None \<and> decode body = Inr r)"
proof (cases "encode q")
  case (Inl e)
  then show ?thesis using assms by (auto simp: http_Post_def http_request_def)
next
  case (Inr json)
  obtain v out where d: "net_Do N ''POST'' (BaseURL @ path) (Some json) w = (v, out)" by fastforce
  show ?thesis
    using assms Inr d read_response_Inr [of N "''POST''" "BaseURL @ path" decode _ _ r]
    by (cases "net_NewRequest N ''POST'' (BaseURL @ path) (Some json)"; cases out)
      (auto simp: http_Post_def http_request_def do_request_def StatusOK_def)
qed

definition sample_net :: "nat Net" where
  "sample_net = \<lparr>net_NewRequest = (\<lambda>_ _ _. None), net_Do = (\<lambda>m u b w. (Suc w, Inr (200, Inr ''{}''))),
     json_Object = (\<lambda>s. Inr Map.empty)\<rparr>"

theorem request_accepts_only_witness:
  "snd (http_Post sample_net ''u'' ''/p'' (\<lambda>q. Inr q) (\<lambda>b. Inr (length b)) ''q'' 0) = Inr 2"
  using request_accepts_only [of sample_net "''u''" "''/p''" Inr "\<lambda>b. Inr (length b)" "''q''" 0 1
      "snd (http_Post sample_net ''u'' ''/p'' (\<lambda>q. Inr q) (\<lambda>b. Inr (length b)) ''q'' 0)" 2]
  by (simp add: sample_net_def http_Post_def http_request_def do_request_def)

end
