(* ===== verification/Serializer.thy ===== *)
theory Serializer
  imports HttpCommon TxStore
begin

text \<open>
  relayer/txm/seralizer.go: from the parameters of a contract call to the signed-for transaction, its
  ID being the SHA-256 of the marshalled raw data. The protobuf encoding (\<open>anypb.New\<close> and
  \<open>proto.Marshal\<close>) is \<open>proto_Marshal\<close> of the library record; the current time in milliseconds is an
  argument.
\<close>

text \<open>\<open>core.Transaction_Contract_TriggerSmartContract\<close>.\<close>

definition TriggerSmartContractType :: int32 where
  "TriggerSmartContractType = 31"

definition DefaultExpirationMillis :: int64 where
  "DefaultExpirationMillis = 30000"

record Serializer =
  TransactionType :: int32
  ser_FromAddress :: address
  ser_ContractAddress :: address
  ser_Method :: string
  ser_Params :: "goval list"
  CallValueSun :: int64
  FeeLimitSun :: int64
  RefBlockBytes :: bytes
  RefBlockHash :: bytes
  ExpirationMillis :: int64
  TimestampMillis :: int64

datatype serializer_error =
  InvalidTransactionType int32 | InvalidRefBlock | CallDataError abi_error | MarshalError string

definition buildCallData :: "lib \<Rightarrow> Serializer \<Rightarrow> (abi_error + bytes) outcome" where
  "buildCallData L p = Pack L (ser_Method p) (ser_Params p)"

definition raw_transaction :: "Serializer \<Rightarrow> bytes \<Rightarrow> int64 \<Rightarrow> raw_message" where
  "raw_transaction p callData now =
     \<lparr>raw_OwnerAddress = ser_FromAddress p, raw_ContractAddress = ser_ContractAddress p, raw_Data = callData,
      raw_CallValue = CallValueSun p, raw_FeeLimit = FeeLimitSun p,
      raw_Expiration = (if ExpirationMillis p = 0 then now + DefaultExpirationMillis else ExpirationMillis p),
      raw_Timestamp = (if TimestampMillis p = 0 then now else TimestampMillis p),
      raw_RefBlockBytes = RefBlockBytes p, raw_RefBlockHash = RefBlockHash p\<rparr>"

definition json_transaction :: "lib \<Rightarrow> raw_message \<Rightarrow> bytes \<Rightarrow> Transaction" where
  "json_transaction L m rawBytes =
     \<lparr>Visible = True,
      TxID = hex_EncodeToString (sha256 rawBytes),
      RawData_of =
        \<lparr>rd_Contract =
           [\<lparr>con_Parameter =
              \<lparr>par_Value =
                 \<lparr>pv_OwnerAddress = Address_String L (raw_OwnerAddress m), pv_ToAddress = [],
                  pv_Data = hex_EncodeToString (raw_Data m),
                  pv_ContractAddress = Address_String L (raw_ContractAddress m),
                  pv_Amount = raw_CallValue m, pv_NewContract = None\<rparr>,
               par_TypeUrl = ''type.googleapis.com/protocol.TriggerSmartContract''\<rparr>,
             con_Type = ''TriggerSmartContract''\<rparr>],
         rd_RefBlockBytes = hex_EncodeToString (raw_RefBlockBytes m),
         rd_RefBlockHash = hex_EncodeToString (raw_RefBlockHash m),
         rd_Expiration = raw_Expiration m, rd_FeeLimit = raw_FeeLimit m, rd_Timestamp = raw_Timestamp m\<rparr>,
      RawDataHex = hex_EncodeToString rawBytes,
      Signature = []\<rparr>"

text \<open>The guard on the reference block is a conjunction: it refuses only when both lengths are wrong.\<close>

definition BuildTransaction :: "lib \<Rightarrow> Serializer \<Rightarrow> int64 \<Rightarrow> (serializer_error + Transaction) outcome" where
  "BuildTransaction L p now =
     (if TransactionType p \<noteq> TriggerSmartContractType then Done (Inl (InvalidTransactionType (TransactionType p)))
      else if length (RefBlockBytes p) \<noteq> 2 \<and> length (RefBlockHash p) \<noteq> 8 then Done (Inl InvalidRefBlock)
      else outcome_bind (buildCallData L p) (\<lambda>r.
        case r of
          Inl err \<Rightarrow> Done (Inl (CallDataError err))
        | Inr callData \<Rightarrow>
            let m = raw_transaction p callData now
            in Done (case proto_Marshal L m of
                       Inl e \<Rightarrow> Inl (MarshalError e)
                     | Inr rawBytes \<Rightarrow> Inr (json_transaction L m rawBytes))))"

lemma BuildTransaction_Inr:
  assumes "BuildTransaction L p now = Done (Inr t)"
  shows "\<exists>callData rawBytes. buildCallData L p = Done (Inr callData)
    \<and> proto_Marshal L (raw_transaction p callData now) = Inr rawBytes
    \<and> t = json_transaction L (raw_transaction p callData now) rawBytes"
proof -
  obtain r where r: "buildCallData L p = Done r"
    using assms by (auto simp: BuildTransaction_def outcome_bind_eq_Done split: if_splits)
  then show ?thesis using assms
    by (cases r) (auto simp: BuildTransaction_def Let_def split: if_splits sum.splits)
qed

text \<open>
  C20. Round trip: a built transaction is consistent with itself: its hex fields decode to the raw
  bytes, the call data and the reference block, its ID is the hex of the SHA-256 of those raw bytes (64
  characters), it carries the fee limit, expires 30 seconds from now by default, and is unsigned.
\<close>

theorem serializer_consistent:
  assumes "BuildTransaction L p now = Done (Inr t)"
  shows "\<exists>callData rawBytes.
      hex_DecodeString (RawDataHex t) = (rawBytes, None)
    \<and> proto_Marshal L (raw_transaction p callData now) = Inr rawBytes
    \<and> hex_DecodeString (TxID t) = (sha256 rawBytes, None) \<and> length (TxID t) = 64
    \<and> Pack L (ser_Method p) (ser_Params p) = Done (Inr callData)
    \<and> (\<exists>k. rd_Contract (RawData_of t) = [k] \<and> hex_DecodeString (pv_Data (par_Value (con_Parameter k))) = (callData, None))
    \<and> hex_DecodeString (rd_RefBlockBytes (RawData_of t)) = (RefBlockBytes p, None)
    \<and> hex_DecodeString (rd_RefBlockHash (RawData_of t)) = (RefBlockHash p, None)
    \<and> rd_FeeLimit (RawData_of t) = FeeLimitSun p
    \<and> (ExpirationMillis p = 0 \<longrightarrow> rd_Expiration (RawData_of t) = now + 30000)
    \<and> Signature t = []"
proof -
  obtain callData rawBytes where b: "buildCallData L p = Done (Inr callData)"
    "proto_Marshal L (raw_transaction p callData now) = Inr rawBytes"
    "t = json_transaction L (raw_transaction p callData now) rawBytes"
    using BuildTransaction_Inr [OF assms] by blast
  show ?thesis
    using b(1,2)
    by (intro exI [of _ callData] exI [of _ rawBytes])
      (simp add: b(3) json_transaction_def raw_transaction_def buildCallData_def hex_roundtrip length_hex
        DefaultExpirationMillis_def)
qed

definition sample_serializer :: Serializer where
  "sample_serializer = \<lparr>TransactionType = 31, ser_FromAddress = sample_address, ser_ContractAddress = sample_address,
     ser_Method = ''foo()'', ser_Params = [], CallValueSun = 0, FeeLimitSun = 1000, RefBlockBytes = [1, 2],
     RefBlockHash = replicate 8 3, ExpirationMillis = 0, TimestampMillis = 0\<rparr>"

lemma sample_BuildTransaction: "\<exists>t. BuildTransaction sample_lib sample_serializer 5 = Done (Inr t)"
  by (simp add: BuildTransaction_def sample_serializer_def TriggerSmartContractType_def buildCallData_def Pack_def
      GetPaddedParam_def sample_lib_def Let_def)

theorem serializer_consistent_witness:
  "\<exists>t. BuildTransaction sample_lib sample_serializer 5 = Done (Inr t)
     \<and> rd_Expiration (RawData_of t) = 30005 \<and> rd_FeeLimit (RawData_of t) = 1000"
proof -
  obtain t where t: "BuildTransaction sample_lib sample_serializer 5 = Done (Inr t)"
    using sample_BuildTransaction by blast
  from serializer_consistent [OF t] t show ?thesis by (auto simp: sample_serializer_def)
qed

text \<open>
  Error path: the reference block is refused exactly when both of its parts have the wrong
  length, so one malformed part passes the guard.
\<close>

theorem serializer_ref_block_guard:
  assumes "TransactionType p = TriggerSmartContractType"
  shows "BuildTransaction L p now = Done (Inl InvalidRefBlock) \<longleftrightarrow>
    length (RefBlockBytes p) \<noteq> 2 \<and> length (RefBlockHash p) \<noteq> 8"
  using assms by (cases "buildCallData L p") (auto simp: BuildTransaction_def Let_def split: sum.splits)

theorem serializer_ref_block_guard_witness:
  "BuildTransaction sample_lib (sample_serializer\<lparr>RefBlockHash := [], RefBlockBytes := []\<rparr>) 5 = Done (Inl InvalidRefBlock)
   \<and> BuildTransaction sample_lib (sample_serializer\<lparr>RefBlockHash := []\<rparr>) 5 \<noteq> Done (Inl InvalidRefBlock)"
  using serializer_ref_block_guard [of "sample_serializer\<lparr>RefBlockHash := [], RefBlockBytes := []\<rparr>" sample_lib 5]
    serializer_ref_block_guard [of "sample_serializer\<lparr>RefBlockHash := []\<rparr>" sample_lib 5]
  by (simp add: sample_serializer_def TriggerSmartContractType_def)

end
