(* ===== verification/Txm.thy ===== *)
theory Txm
  imports AccountStore Client Serializer Energy
begin

text \<open>
  relayer/txm/txm.go: the transaction manager. Its goroutines (the callers of \<open>Enqueue\<close>, the
  broadcast loop, the confirm loop and the reap loop) share the transactions, the account store and
  the broadcast channel, which are the fields of \<open>txm\<close>; the node, the clock, the keystore and the
  UUID generator are the environment.
\<close>

subsection \<open>The environment and the state\<close>

record TronTxmConfig =
  BroadcastChanSize :: nat
  ConfirmPollSecs :: nat
  EnergyMultiplier :: float64
  FixedEnergyValue :: int64
  RetentionPeriod :: duration
  ReapInterval :: duration

text \<open>\<open>oob\<close> is the implementation-defined result of a float conversion that does not fit.\<close>

record 'w Env =
  client :: "'w CombinedClient"
  lib_of :: lib
  oob :: "float64 \<Rightarrow> int32"
  time_Now :: "'w \<Rightarrow> 'w \<times> gtime"
  time_Sleep :: "duration \<Rightarrow> 'w \<Rightarrow> 'w"
  uuid_New :: "'w \<Rightarrow> 'w \<times> string"
  keystore_Sign :: "string \<Rightarrow> bytes \<Rightarrow> 'w \<Rightarrow> 'w \<times> (string + bytes)"
  config :: TronTxmConfig

text \<open>
  \<open>BroadcastChan\<close> is the buffer of the channel, oldest first; \<open>received\<close> is the local variable of
  the broadcast loop, the transaction it is working on.
\<close>

record 'w txm =
  objects :: heap
  next_object :: txref
  accounts :: AccountStore
  BroadcastChan :: "txref list"
  received :: "txref option"
  EstimateEnergyEnabled :: bool
  world :: 'w

definition MAX_RETRY_ATTEMPTS :: uint64 where
  "MAX_RETRY_ATTEMPTS = 5"

definition MAX_BROADCAST_RETRY_DURATION :: duration where
  "MAX_BROADCAST_RETRY_DURATION = 30 * nanos_per_second"

definition BROADCAST_DELAY_DURATION :: duration where
  "BROADCAST_DELAY_DURATION = 2 * nanos_per_second"

definition REORG_RETRY_COUNT :: nat where
  "REORG_RETRY_COUNT = 3"

definition REORG_RETRY_DELAY :: duration where
  "REORG_RETRY_DELAY = nanos_per_second div 2"

text \<open>\<open>EnergyMultiplier == 0 || EnergyMultiplier < 1.0\<close>.\<close>

definition setDefaults :: "TronTxmConfig \<Rightarrow> TronTxmConfig" where
  "setDefaults c =
     (if is_zero (EnergyMultiplier c) \<or> float_less_one (EnergyMultiplier c)
      then c\<lparr>EnergyMultiplier := DEFAULT_ENERGY_MULTIPLIER\<rparr> else c)"

definition New :: "'w \<Rightarrow> 'w txm" where
  "New w = \<lparr>objects = (\<lambda>_. undefined), next_object = 0, accounts = NewAccountStore, BroadcastChan = [],
     received = None, EstimateEnergyEnabled = True, world = w\<rparr>"

definition New_config :: "TronTxmConfig \<Rightarrow> TronTxmConfig" where
  "New_config c = setDefaults c"

subsection \<open>Calls on the store of an account\<close>

definition with_store ::
  "string \<Rightarrow> (store_state \<Rightarrow> store_state \<times> 'e) \<Rightarrow> 'w txm \<Rightarrow> 'w txm \<times> 'e" where
  "with_store a f t =
     (let ((h, c), err) = on_store a f (objects t, accounts t) in (t\<lparr>objects := h, accounts := c\<rparr>, err))"

definition with_store_outcome ::
  "string \<Rightarrow> (store_state \<Rightarrow> (store_state \<times> 'e) outcome) \<Rightarrow> 'w txm \<Rightarrow> ('w txm \<times> 'e) outcome" where
  "with_store_outcome a f t =
     outcome_bind (on_store_outcome a f (objects t, accounts t))
       (\<lambda>((h, c), err). Done (t\<lparr>objects := h, accounts := c\<rparr>, err))"

definition touch_store :: "string \<Rightarrow> 'w txm \<Rightarrow> 'w txm" where
  "touch_store a t = t\<lparr>accounts := fst (GetTxStore a (accounts t))\<rparr>"

text \<open>
  The non-blocking send \<open>select { case t.BroadcastChan <- tx: default: }\<close> on the buffered channel.
\<close>

definition try_send :: "'w Env \<Rightarrow> txref \<Rightarrow> 'w txm \<Rightarrow> 'w txm \<times> bool" where
  "try_send E r t =
     (if length (BroadcastChan t) < BroadcastChanSize (config E)
      then (t\<lparr>BroadcastChan := BroadcastChan t @ [r]\<rparr>, True) else (t, False))"

subsection \<open>Enqueue\<close>

record TronTxmRequest =
  req_FromAddress :: address
  req_ContractAddress :: address
  req_Method :: string
  req_Params :: "goval list"
  req_ID :: string

datatype enqueue_error = SignFailed string | OddNumberOfParams | NonStringParamType | ChannelFull

text \<open>The loop over the parameter types, the values between them skipped.\<close>

fun param_types_ok :: "goval list \<Rightarrow> bool" where
  "param_types_ok (k # v # ps) \<longleftrightarrow> as_string k \<noteq> None \<and> param_types_ok ps"
| "param_types_ok [k] \<longleftrightarrow> as_string k \<noteq> None"
| "param_types_ok [] \<longleftrightarrow> True"

definition new_tx :: "TronTxmRequest \<Rightarrow> string \<Rightarrow> gtime \<Rightarrow> TronTx" where
  "new_tx req i now = \<lparr>FromAddress = req_FromAddress req, ContractAddress = req_ContractAddress req,
     Method = req_Method req, Params = req_Params req, Attempt = 1, OutOfTimeErrors = 0,
     EnergyBumpTimes = 0, ID = i, State = Pending, CreateTs = now\<rparr>"

text \<open>The second half: construct the transaction, enter it as pending (an error is ignored), send it.\<close>

definition submit :: "'w Env \<Rightarrow> TronTxmRequest \<Rightarrow> string \<Rightarrow> 'w txm \<Rightarrow> ('w txm \<times> enqueue_error option) outcome" where
  "submit E req i t =
     (let (w, now) = time_Now E (world t);
          r = next_object t;
          a = Address_String (lib_of E) (req_FromAddress req);
          t1 = t\<lparr>world := w, next_object := Suc r, objects := (objects t)(r := new_tx req i now)\<rparr>
      in outcome_bind (with_store_outcome a (OnPending r False) t1) (\<lambda>(t2, err).
           let (t3, sent) = try_send E r t2 in Done (t3, if sent then None else Some ChannelFull)))"

definition Enqueue :: "'w Env \<Rightarrow> TronTxmRequest \<Rightarrow> 'w txm \<Rightarrow> ('w txm \<times> enqueue_error option) outcome" where
  "Enqueue E req t =
     (let a = Address_String (lib_of E) (req_FromAddress req);
          (w, signed) = keystore_Sign E a [] (world t);
          t = t\<lparr>world := w\<rparr>
      in case signed of
           Inl e \<Rightarrow> Done (t, Some (SignFailed e))
         | Inr _ \<Rightarrow>
             if length (req_Params req) mod 2 = 1 then Done (t, Some OddNumberOfParams)
             else if \<not> param_types_ok (req_Params req) then Done (t, Some NonStringParamType)
             else if req_ID req = [] then
               (let (w', i) = uuid_New E (world t) in submit E req i (t\<lparr>world := w'\<rparr>))
             else
               (let (c, s) = GetTxStore a (accounts t); t = t\<lparr>accounts := c\<rparr>
                in if Has (req_ID req) s then Done (t, None) else submit E req (req_ID req) t))"

subsection \<open>Fees\<close>

definition no_estimate :: string where
  "no_estimate = ''this node does not support estimate energy''"

datatype fee_error = EstimateFailed string

text \<open>
  \<open>estimateEnergy\<close>: the configured value, or the node's estimate, or the energy of a constant call.
  A node that does not know the estimate is not asked again.
\<close>

definition estimate_by_call :: "'w Env \<Rightarrow> TronTx \<Rightarrow> 'w txm \<Rightarrow> ('w txm \<times> (fee_error + int64)) outcome" where
  "estimate_by_call E tx t =
     outcome_bind (TriggerConstantContractFullNode (client E) (FromAddress tx) (ContractAddress tx) (Method tx)
         (Params tx) (world t)) (\<lambda>(w, resp, err).
       let t = t\<lparr>world := w\<rparr>
       in case err of
            Some e \<Rightarrow> Done (t, Inl (EstimateFailed e))
          | None \<Rightarrow>
              (case resp of
                 None \<Rightarrow> Panic
               | Some tr \<Rightarrow>
                   if \<not> re_Result (tc_Result tr)
                   then Done (t, Inl (EstimateFailed (re_Code (tc_Result tr) @ '' '' @ re_Message (tc_Result tr))))
                   else Done (t, Inr (EnergyUsed tr))))"

definition estimateEnergy :: "'w Env \<Rightarrow> TronTx \<Rightarrow> 'w txm \<Rightarrow> ('w txm \<times> (fee_error + int64)) outcome" where
  "estimateEnergy E tx t =
     (if FixedEnergyValue (config E) \<noteq> 0 then Done (t, Inr (FixedEnergyValue (config E)))
      else if EstimateEnergyEnabled t then
        outcome_bind (EstimateEnergy (client E) (FromAddress tx) (ContractAddress tx) (Method tx) (Params tx) 0 (world t))
          (\<lambda>(w, resp, err).
            let t = t\<lparr>world := w\<rparr>
            in case err of
                 None \<Rightarrow> (case resp of None \<Rightarrow> Panic | Some m \<Rightarrow> Done (t, Inr (EnergyRequired m)))
               | Some e \<Rightarrow>
                   estimate_by_call E tx
                     (if strings_Contains e no_estimate then t\<lparr>EstimateEnergyEnabled := False\<rparr> else t))
      else estimate_by_call E tx t)"

definition energy_unit_price :: "'w Env \<Rightarrow> 'w txm \<Rightarrow> ('w txm \<times> int32) outcome" where
  "energy_unit_price E t =
     outcome_bind (GetEnergyPrices (client E) (world t)) (\<lambda>(w, prices, err).
       let t = t\<lparr>world := w\<rparr>
       in case err of
            Some e \<Rightarrow> Done (t, DEFAULT_ENERGY_UNIT_PRICE)
          | None \<Rightarrow>
              (case prices of
                 None \<Rightarrow> Panic
               | Some p \<Rightarrow>
                   (case ParseLatestEnergyPrice (Prices p) of
                      (v, None) \<Rightarrow> Done (t, v)
                    | (v, Some e) \<Rightarrow> Done (t, DEFAULT_ENERGY_UNIT_PRICE))))"

text \<open>The product \<open>energyUnitPrice * int32(energyUsed)\<close> is computed in int32.\<close>

definition calculateFeeLimit :: "'w Env \<Rightarrow> TronTx \<Rightarrow> 'w txm \<Rightarrow> ('w txm \<times> (fee_error + int32)) outcome" where
  "calculateFeeLimit E tx t =
     outcome_bind (estimateEnergy E tx t) (\<lambda>(t, energy).
       case energy of
         Inl err \<Rightarrow> Done (t, Inl err)
       | Inr energyUsed \<Rightarrow>
           outcome_bind (energy_unit_price E t) (\<lambda>(t, energyUnitPrice).
             let feeLimit = energyUnitPrice * ucast energyUsed
             in Done (t, Inr (CalculatePaddedFeeLimit (oob E) feeLimit (EnergyBumpTimes tx)
                  (EnergyMultiplier (config E))))))"

definition txm_TriggerSmartContract ::
  "'w Env \<Rightarrow> TronTx \<Rightarrow> 'w txm \<Rightarrow> ('w txm \<times> TriggerSmartContractResponse option \<times> string option) outcome" where
  "txm_TriggerSmartContract E tx t =
     outcome_bind (calculateFeeLimit E tx t) (\<lambda>(t, fee).
       case fee of
         Inl (EstimateFailed e) \<Rightarrow> Done (t, None, Some (''failed to estimate energy: '' @ e))
       | Inr paddedFeeLimit \<Rightarrow>
           outcome_bind (TriggerSmartContract (client E) (FromAddress tx) (ContractAddress tx) (Method tx) (Params tx)
               paddedFeeLimit 0 (world t)) (\<lambda>(w, resp, err).
             case err of
               Some e \<Rightarrow> Done (t\<lparr>world := w\<rparr>, None, Some (''failed to call TriggerSmartContract: '' @ e))
             | None \<Rightarrow> Done (t\<lparr>world := w\<rparr>, resp, None)))"

text \<open>
  The last two bytes of the block number and the bytes 8 to 16 of the block ID. The header pointers
  are not checked, and the slice of the block ID is not either.
\<close>

definition computeRefBlockBytesAndHash :: "'w Env \<Rightarrow> 'w \<Rightarrow> ('w \<times> (string + bytes \<times> bytes)) outcome" where
  "computeRefBlockBytesAndHash E w =
     outcome_bind (GetNowBlockFullNode (client E) w) (\<lambda>(w, nowBlock, err).
       case err of
         Some e \<Rightarrow> Done (w, Inl (''failed to get now block: '' @ e))
       | None \<Rightarrow>
           (case Option.bind nowBlock (\<lambda>b. Option.bind (BlockHeader_of b) (\<lambda>h. map_option (Pair b) (bh_RawData h))) of
              None \<Rightarrow> Panic
            | Some (b, raw) \<Rightarrow>
                (case hex_DecodeString (BlockID b) of
                   (blockId, Some e) \<Rightarrow> Done (w, Inl ''failed to decode block id'')
                 | (blockId, None) \<Rightarrow>
                     if length blockId < 16 then Panic
                     else Done (w, Inr ([ucast (drop_bit 8 (bh_Number raw)), ucast (bh_Number raw)],
                            take 8 (drop 8 blockId))))))"

end
