(* ===== verification/Txm_Loops.thy ===== *)
theory Txm_Loops
  imports Txm
begin

text \<open>
  The loops of the transaction manager (relayer/txm/txm.go): broadcasting, confirming, finalizing,
  reaping, and the queries. \<open>partial_function\<close> gives the retry loop of a broadcast its meaning
  without a bound: \<open>None\<close> is a loop that never ends.
\<close>

subsection \<open>The broadcast loop\<close>

definition busy :: "BroadcastResponse \<Rightarrow> bool" where
  "busy r \<longleftrightarrow> br_Code r = ResponseCodeServerBusy \<or> br_Code r = ResponseCodeBlockUnsolidified"

text \<open>
  \<open>time.Since(startTime) < 30s\<close> is looked at before each attempt. The response is read when the error
  is not nil, and it is nil for an error of the connection.
\<close>

partial_function (option) broadcast_retry ::
  "'w Env \<Rightarrow> gtime \<Rightarrow> Transaction \<Rightarrow> BroadcastResponse option \<Rightarrow> string option \<Rightarrow> 'w \<Rightarrow>
     ('w \<times> BroadcastResponse option \<times> string option) outcome option" where
  "broadcast_retry E startTime tx resp err w =
     (let (w, now) = time_Now E w
      in if time_Sub now startTime < MAX_BROADCAST_RETRY_DURATION then
           (case BroadcastTransaction (client E) (Some tx) w of
              Panic \<Rightarrow> Some Panic
            | Done (w, resp, err) \<Rightarrow>
                (case err of
                   None \<Rightarrow> Some (Done (w, resp, None))
                 | Some e \<Rightarrow>
                     (case resp of
                        None \<Rightarrow> Some Panic
                      | Some r \<Rightarrow>
                          if \<not> br_Result r then
                            (if busy r
                             then broadcast_retry E startTime tx resp err (time_Sleep E BROADCAST_DELAY_DURATION w)
                             else Some (Done (w, None, Some e)))
                          else broadcast_retry E startTime tx resp err w)))
         else (case err of
                 Some e \<Rightarrow> Some (Done (w, None,
                   Some (''SERVER_BUSY or BLOCK_UNSOLIDIFIED: max retry duration reached, error: '' @ e)))
               | None \<Rightarrow> Some (Done (w, resp, None))))"

definition broadcastTx ::
  "'w Env \<Rightarrow> Transaction \<Rightarrow> 'w \<Rightarrow> ('w \<times> BroadcastResponse option \<times> string option) outcome option" where
  "broadcastTx E tx w = (let (w, startTime) = time_Now E w in broadcast_retry E startTime tx None None w)"

definition SignAndBroadcast ::
  "'w Env \<Rightarrow> address \<Rightarrow> Transaction \<Rightarrow> 'w \<Rightarrow> ('w \<times> BroadcastResponse option \<times> string option) outcome option" where
  "SignAndBroadcast E fromAddress coreTx w =
     (case hex_DecodeString (TxID coreTx) of
        (txIdBytes, Some e) \<Rightarrow> Some (Done (w, None, Some ''failed to decode transaction id''))
      | (txIdBytes, None) \<Rightarrow>
          (case keystore_Sign E (Address_String (lib_of E) fromAddress) txIdBytes w of
             (w, Inl e) \<Rightarrow> Some (Done (w, None, Some (''failed to sign transaction: '' @ e)))
           | (w, Inr signature) \<Rightarrow>
               map_option (\<lambda>res. outcome_bind res (\<lambda>(w, resp, err).
                   Done (case err of
                           Some e \<Rightarrow> (w, None, Some (''failed to broadcast transaction: '' @ e))
                         | None \<Rightarrow> (w, resp, None))))
                 (broadcastTx E (AddSignatureBytes signature coreTx) w)))"

text \<open>\<open>time.Now().UnixMilli()\<close>.\<close>

definition UnixMilli :: "gtime \<Rightarrow> int64" where
  "UnixMilli t = word_of_int ((t - unix_epoch) div 1000000)"

definition serializer_for :: "TronTx \<Rightarrow> int32 \<Rightarrow> bytes \<Rightarrow> bytes \<Rightarrow> Serializer" where
  "serializer_for tx feeLimit refBlockBytes refBlockHash =
     \<lparr>TransactionType = TriggerSmartContractType, ser_FromAddress = FromAddress tx,
      ser_ContractAddress = ContractAddress tx, ser_Method = Method tx, ser_Params = Params tx,
      CallValueSun = 0, FeeLimitSun = scast feeLimit, RefBlockBytes = refBlockBytes,
      RefBlockHash = refBlockHash, ExpirationMillis = 0, TimestampMillis = 0\<rparr>"

datatype prepared = Prepared Transaction | NotPrepared

text \<open>
  The first half of an iteration: fee limit, reference block, transaction. Every error logs and
  continues, so the transaction is left as it is.
\<close>

definition prepare :: "'w Env \<Rightarrow> TronTx \<Rightarrow> 'w txm \<Rightarrow> ('w txm \<times> prepared) outcome" where
  "prepare E tx t =
     outcome_bind (calculateFeeLimit E tx t) (\<lambda>(t, fee).
       case fee of
         Inl err \<Rightarrow> Done (t, NotPrepared)
       | Inr feeLimit \<Rightarrow>
           outcome_bind (computeRefBlockBytesAndHash E (world t)) (\<lambda>(w, ref).
             let t = t\<lparr>world := w\<rparr>
             in case ref of
                  Inl err \<Rightarrow> Done (t, NotPrepared)
                | Inr (refBlockBytes, refBlockHash) \<Rightarrow>
                    let (w, now) = time_Now E (world t); t = t\<lparr>world := w\<rparr>
                    in outcome_bind (BuildTransaction (lib_of E)
                           (serializer_for tx feeLimit refBlockBytes refBlockHash) (UnixMilli now)) (\<lambda>b.
                         Done (t, case b of Inl err \<Rightarrow> NotPrepared | Inr coreTx \<Rightarrow> Prepared coreTx))))"

text \<open>The second half: sign, broadcast, and enter the result into the store; its errors are ignored.\<close>

definition send :: "'w Env \<Rightarrow> txref \<Rightarrow> Transaction \<Rightarrow> 'w txm \<Rightarrow> ('w txm) outcome option" where
  "send E r coreTx t =
     (let tx = objects t r; a = Address_String (lib_of E) (FromAddress tx); t = touch_store a t
      in map_option (\<lambda>res. outcome_bind res (\<lambda>(w, resp, err).
             let t = t\<lparr>world := w\<rparr>
             in Done (case err of
                        Some e \<Rightarrow> (let (w, now) = time_Now E (world t)
                                   in fst (with_store a (OnFatalError now (ID tx)) (t\<lparr>world := w\<rparr>)))
                      | None \<Rightarrow> fst (with_store a
                          (OnBroadcasted (TxID coreTx) (rd_Expiration (RawData_of coreTx)) r) t))))
           (SignAndBroadcast E (FromAddress tx) coreTx (world t)))"

definition broadcast_one :: "'w Env \<Rightarrow> txref \<Rightarrow> 'w txm \<Rightarrow> ('w txm) outcome option" where
  "broadcast_one E r t =
     (case prepare E (objects t r) t of
        Panic \<Rightarrow> Some Panic
      | Done (t, NotPrepared) \<Rightarrow> Some (Done t)
      | Done (t, Prepared coreTx) \<Rightarrow> send E r coreTx t)"

text \<open>One iteration of \<open>broadcastLoop\<close>: receive the oldest transaction and work on it.\<close>

definition broadcast_iteration :: "'w Env \<Rightarrow> 'w txm \<Rightarrow> ('w txm) outcome option" where
  "broadcast_iteration E t =
     (case BroadcastChan t of
        [] \<Rightarrow> Some (Done t)
      | r # q \<Rightarrow> broadcast_one E r (t\<lparr>BroadcastChan := q\<rparr>))"

subsection \<open>The confirm loop\<close>

definition errored :: "'w Env \<Rightarrow> string \<Rightarrow> string \<Rightarrow> 'w txm \<Rightarrow> 'w txm" where
  "errored E a i t =
     (let (w, now) = time_Now E (world t) in fst (with_store a (OnErrored now i) (t\<lparr>world := w\<rparr>)))"

definition bump_tx :: "bool \<Rightarrow> bool \<Rightarrow> TronTx \<Rightarrow> TronTx" where
  "bump_tx bumpEnergy isOutOfTimeError tx =
     tx\<lparr>Attempt := Attempt tx + 1,
        EnergyBumpTimes := (if bumpEnergy then EnergyBumpTimes tx + 1 else EnergyBumpTimes tx),
        OutOfTimeErrors := (if isOutOfTimeError then OutOfTimeErrors tx + 1 else OutOfTimeErrors tx),
        State := Pending\<rparr>"

definition maybeRetry ::
  "'w Env \<Rightarrow> string \<Rightarrow> InflightTx \<Rightarrow> bool \<Rightarrow> bool \<Rightarrow> 'w txm \<Rightarrow> ('w txm) outcome" where
  "maybeRetry E a unconfirmedTx bumpEnergy isOutOfTimeError t =
     (let r = inf_Tx unconfirmedTx; tx = objects t r
      in if MAX_RETRY_ATTEMPTS \<le> Attempt tx then Done (errored E a (ID tx) t)
         else if 2 \<le> OutOfTimeErrors tx then Done (errored E a (ID tx) t)
         else
           outcome_bind (with_store_outcome a (OnPending r True)
               (t\<lparr>objects := (objects t)(r := bump_tx bumpEnergy isOutOfTimeError tx)\<rparr>)) (\<lambda>(t, err).
             Done (fst (try_send E r t))))"

definition fatal_results :: "string set" where
  "fatal_results = {''REVERT'', ''BAD_JUMP_DESTINATION'', ''OUT_OF_MEMORY'', ''STACK_TOO_SMALL'', ''STACK_TOO_LARGE'',
     ''ILLEGAL_OPERATION'', ''STACK_OVERFLOW'', ''JVM_STACK_OVER_FLOW'', ''TRANSFER_FAILED'', ''INVALID_CODE''}"

text \<open>The last branch is that of UNKNOWN and DEFAULT and of every result the switch does not name.\<close>

definition check_result ::
  "'w Env \<Rightarrow> string \<Rightarrow> InflightTx \<Rightarrow> string \<Rightarrow> 'w txm \<Rightarrow> ('w txm) outcome" where
  "check_result E a p contractResult t =
     (let i = ID (objects t (inf_Tx p))
      in if contractResult = ''SUCCESS'' then Done (fst (with_store a (OnConfirmed i) t))
         else if contractResult = ''OUT_OF_ENERGY'' then maybeRetry E a p True False t
         else if contractResult = ''OUT_OF_TIME'' then maybeRetry E a p False True t
         else if contractResult \<in> fatal_results then
           (let (w, now) = time_Now E (world t)
            in Done (fst (with_store a (OnFatalError now i) (t\<lparr>world := w\<rparr>))))
         else maybeRetry E a p False False t)"

text \<open>The body of the inner loop of \<open>checkUnconfirmed\<close>; \<open>timestampMs\<close> is the latest block's.\<close>

definition check_one :: "'w Env \<Rightarrow> string \<Rightarrow> int64 \<Rightarrow> InflightTx \<Rightarrow> 'w txm \<Rightarrow> ('w txm) outcome" where
  "check_one E a timestampMs p t =
     outcome_bind (GetTransactionInfoByIdFullNode (client E) (inf_Hash p) (world t)) (\<lambda>(w, txInfo, err).
       let t = touch_store a (t\<lparr>world := w\<rparr>)
       in case err of
            Some e \<Rightarrow> if sint (inf_ExpirationMs p) < sint timestampMs then maybeRetry E a p False False t else Done t
          | None \<Rightarrow>
              (case txInfo of
                 None \<Rightarrow> Panic
               | Some info \<Rightarrow> check_result E a p (receipt_Result (ti_Receipt info)) t))"

definition check_account ::
  "'w Env \<Rightarrow> string \<times> InflightTx list \<Rightarrow> 'w txm \<Rightarrow> ('w txm) outcome" where
  "check_account E = (\<lambda>(fromAddress, unconfirmedTxs) t.
     outcome_bind (GetNowBlockFullNode (client E) (world t)) (\<lambda>(w, nowBlock, err).
       let t = t\<lparr>world := w\<rparr>
       in case err of
            Some e \<Rightarrow> Done t
          | None \<Rightarrow>
              (case nowBlock of
                 None \<Rightarrow> Panic
               | Some b \<Rightarrow>
                   (case Option.bind (BlockHeader_of b) bh_RawData of
                      None \<Rightarrow> Done t
                    | Some raw \<Rightarrow> for_range (check_one E fromAddress (bh_Timestamp raw)) unconfirmedTxs t))))"

text \<open>\<open>accs\<close> and \<open>ids\<close> are the orders in which the maps are ranged over.\<close>

definition checkUnconfirmed ::
  "'w Env \<Rightarrow> string list \<Rightarrow> (string \<Rightarrow> string list) \<Rightarrow> 'w txm \<Rightarrow> ('w txm) outcome" where
  "checkUnconfirmed E accs ids t =
     for_range (check_account E) (entries accs (GetAllUnconfirmed ids (accounts t))) t"

subsection \<open>Finality\<close>

fun reorg_retries :: "'w Env \<Rightarrow> string \<Rightarrow> nat \<Rightarrow> 'w \<Rightarrow> ('w \<times> bool) outcome" where
  "reorg_retries E txHash 0 w = Done (w, True)"
| "reorg_retries E txHash (Suc n) w =
     outcome_bind (GetTransactionInfoByIdFullNode (client E) txHash (time_Sleep E REORG_RETRY_DELAY w))
       (\<lambda>(w, info, err). if err = None then Done (w, False) else reorg_retries E txHash n w)"

definition checkReorged :: "'w Env \<Rightarrow> string \<Rightarrow> 'w \<Rightarrow> ('w \<times> bool) outcome" where
  "checkReorged E txHash w =
     outcome_bind (GetTransactionInfoByIdFullNode (client E) txHash w) (\<lambda>(w, info, err).
       if err = None then Done (w, False) else reorg_retries E txHash REORG_RETRY_COUNT w)"

text \<open>\<open>err != nil && t.checkReorged(txHash)\<close>.\<close>

definition gone :: "'w Env \<Rightarrow> string \<Rightarrow> 'w \<Rightarrow> ('w \<times> bool) outcome" where
  "gone E txHash w =
     outcome_bind (GetTransactionInfoById (client E) txHash w) (\<lambda>(w, info, err).
       if err \<noteq> None then checkReorged E txHash w else Done (w, False))"

definition finalize_one :: "'w Env \<Rightarrow> string \<Rightarrow> InflightTx \<Rightarrow> 'w txm \<Rightarrow> ('w txm) outcome" where
  "finalize_one E a pt t =
     (let txId = ID (objects t (inf_Tx pt))
      in outcome_bind (gone E (inf_Hash pt) (world t)) (\<lambda>(w, reorged).
           let t = t\<lparr>world := w\<rparr>
           in if reorged then
                (let (t, derr) = with_store a (OnReorg txId) t
                 in Done (if derr = None then fst (try_send E (inf_Tx pt) t) else t))
              else
                (let (w, now) = time_Now E (world t)
                 in Done (fst (with_store a (OnFinalized now txId) (t\<lparr>world := w\<rparr>))))))"

definition checkFinalized ::
  "'w Env \<Rightarrow> string list \<Rightarrow> (string \<Rightarrow> string list) \<Rightarrow> 'w txm \<Rightarrow> ('w txm) outcome" where
  "checkFinalized E accs ids t =
     for_range (\<lambda>(acc, confirmedTxs) t. for_range (finalize_one E acc) confirmedTxs (touch_store acc t))
       (entries accs (GetAllConfirmed ids (accounts t))) t"

text \<open>One tick of \<open>confirmLoop\<close>; the second pass ranges over the maps in orders of its own.\<close>

definition confirm_iteration ::
  "'w Env \<Rightarrow> (string list \<times> (string \<Rightarrow> string list)) \<times> (string list \<times> (string \<Rightarrow> string list)) \<Rightarrow> 'w txm \<Rightarrow> ('w txm) outcome" where
  "confirm_iteration E = (\<lambda>((accs, ids), (accs', ids')) t.
     outcome_bind (checkUnconfirmed E accs ids t) (checkFinalized E accs' ids'))"

subsection \<open>The reap loop\<close>

definition reap_ids :: "gtime \<Rightarrow> heap \<Rightarrow> FinishedTx list \<Rightarrow> string list" where
  "reap_ids cutoff h fts = List.map (\<lambda>ft. ID (h (fin_Tx ft))) (filter (\<lambda>ft. fin_RetentionTs ft < cutoff) fts)"

definition reap_targets :: "gtime \<Rightarrow> heap \<Rightarrow> (string \<times> FinishedTx list) list \<Rightarrow> (string \<times> string list) list" where
  "reap_targets cutoff h allFinished =
     filter (\<lambda>(acc, idsToDelete). length idsToDelete > 0)
       (List.map (\<lambda>(acc, fts). (acc, reap_ids cutoff h fts)) allFinished)"

text \<open>
  One tick. The map \<open>accountTxIds\<close> is built and ranged over in the order of the accounts; its entries
  concern different accounts, so the order of the second range does not matter.
\<close>

definition reap_iteration ::
  "'w Env \<Rightarrow> string list \<Rightarrow> (string \<Rightarrow> string list) \<Rightarrow> 'w txm \<Rightarrow> 'w txm" where
  "reap_iteration E accs ids t =
     (let (w, now) = time_Now E (world t);
          cutoff = now - RetentionPeriod (config E);
          accountTxIds = reap_targets cutoff (objects t) (entries accs (GetAllFinished ids (accounts t)));
          t = t\<lparr>world := w\<rparr>
      in if length accountTxIds > 0
         then t\<lparr>accounts := fst (DeleteAllFinishedTxs accountTxIds (accounts t))\<rparr> else t)"

subsection \<open>Queries\<close>

text \<open>The transaction states of chainlink-common.\<close>

datatype TransactionStatus = Unknown | PendingStatus | Unconfirmed | FinalizedStatus | Failed | FatalStatus

definition GetTransactionStatus ::
  "string list \<Rightarrow> string \<Rightarrow> 'w txm \<Rightarrow> TransactionStatus \<times> string option" where
  "GetTransactionStatus accs transactionID t =
     (case GetStatusAll accs transactionID (objects t, accounts t) of
        Some Pending \<Rightarrow> (PendingStatus, None)
      | Some Broadcasted \<Rightarrow> (PendingStatus, None)
      | Some Confirmed \<Rightarrow> (Unconfirmed, None)
      | Some Finalized \<Rightarrow> (FinalizedStatus, None)
      | Some Errored \<Rightarrow> (Failed, None)
      | Some FatallyErrored \<Rightarrow> (FatalStatus, None)
      | None \<Rightarrow> (Unknown, Some (''failed to find transaction with id '' @ transactionID)))"

definition txm_InflightCount :: "string list \<Rightarrow> 'w txm \<Rightarrow> nat \<times> nat" where
  "txm_InflightCount accs t = (length (BroadcastChan t), GetTotalInflightCount accs (accounts t))"

end
