(* ===== verification/Txm_Inv.thy ===== *)
theory Txm_Inv
  imports Txm_Loops
begin

text \<open>
  The invariant of the transaction manager and its preservation by every piece of work a goroutine
  does: the stores satisfy theirs; the transactions in the broadcast channel, with the one the
  broadcast loop holds, are distinct and each of them is pending in the store of its account; every
  tracked transaction was created by \<open>Enqueue\<close> and its retry counters are within their bounds.
\<close>

subsection \<open>The invariant\<close>

definition owner_of :: "'w Env \<Rightarrow> address \<Rightarrow> string" where
  "owner_of E = Address_String (lib_of E)"

definition queue :: "'w txm \<Rightarrow> txref list" where
  "queue t = BroadcastChan t @ (case received t of None \<Rightarrow> [] | Some r \<Rightarrow> [r])"

definition pending_in :: "(bytes \<Rightarrow> string) \<Rightarrow> account_state \<Rightarrow> txref \<Rightarrow> bool" where
  "pending_in owner = (\<lambda>(h, c) r.
     \<exists>s. store c (owner (FromAddress (h r))) = Some s \<and> pendingTxs s (ID (h r)) = Some r)"

text \<open>Five attempts at most, three times out of time at most, one energy bump per retry at most.\<close>

definition counters_ok :: "TronTx \<Rightarrow> bool" where
  "counters_ok tx \<longleftrightarrow> 1 \<le> unat (Attempt tx) \<and> unat (Attempt tx) \<le> 5
     \<and> unat (OutOfTimeErrors tx) \<le> 2 \<and> unat (EnergyBumpTimes tx) < unat (Attempt tx)"

definition tracked_ok :: "txref \<Rightarrow> account_state \<Rightarrow> bool" where
  "tracked_ok n = (\<lambda>(h, c). \<forall>a s r. store c a = Some s \<longrightarrow> r \<in> store_refs s \<longrightarrow> r < n \<and> counters_ok (h r))"

definition state_of :: "'w txm \<Rightarrow> account_state" where
  "state_of t = (objects t, accounts t)"

definition txm_inv :: "'w Env \<Rightarrow> 'w txm \<Rightarrow> bool" where
  "txm_inv E t \<longleftrightarrow> account_inv (owner_of E) (state_of t) \<and> tracked_ok (next_object t) (state_of t)
     \<and> distinct (queue t) \<and> (\<forall>r \<in> set (queue t). pending_in (owner_of E) (state_of t) r)
     \<and> length (BroadcastChan t) \<le> BroadcastChanSize (config E)"

lemma txm_invD:
  assumes "txm_inv E t"
  shows "account_inv (owner_of E) (objects t, accounts t)" "tracked_ok (next_object t) (objects t, accounts t)"
    "distinct (queue t)" "r \<in> set (queue t) \<Longrightarrow> pending_in (owner_of E) (objects t, accounts t) r"
    "length (BroadcastChan t) \<le> BroadcastChanSize (config E)"
  using assms by (auto simp: txm_inv_def state_of_def)

lemma tracked_okD:
  "tracked_ok n (h, c) \<Longrightarrow> store c a = Some s \<Longrightarrow> r \<in> store_refs s \<Longrightarrow> r < n \<and> counters_ok (h r)"
  by (auto simp: tracked_ok_def)

lemma pending_in_tracked:
  "tracked_ok n (h, c) \<Longrightarrow> pending_in owner (h, c) r \<Longrightarrow> r < n \<and> counters_ok (h r)"
  by (auto simp: pending_in_def dest: store_refs_entry(1) tracked_okD)

lemma pending_in_State:
  assumes "account_inv owner (h, c)" and "pending_in owner (h, c) r"
  shows "State (h r) = Pending"
  using assms(2) pending_facts(2) [OF account_invD(1) [OF assms(1)]] by (auto simp: pending_in_def)

text \<open>The clock, the node and the estimate flag are not part of what the invariant looks at.\<close>

lemma txm_inv_world [simp]:
  "txm_inv E (t\<lparr>world := w\<rparr>) = txm_inv E t"
  "txm_inv E (t\<lparr>EstimateEnergyEnabled := b\<rparr>) = txm_inv E t"
  by (auto simp: txm_inv_def queue_def state_of_def)

subsection \<open>The non-blocking send\<close>

lemma txm_inv_try_send:
  assumes "txm_inv E t" and "pending_in (owner_of E) (state_of t) r" and "r \<notin> set (queue t)"
  shows "txm_inv E (fst (try_send E r t))"
  using assms by (auto simp: txm_inv_def try_send_def queue_def state_of_def split: option.splits)

lemma try_send_simps [simp]:
  "objects (fst (try_send E r t)) = objects t" "accounts (fst (try_send E r t)) = accounts t"
  "next_object (fst (try_send E r t)) = next_object t"
  by (auto simp: try_send_def)

subsection \<open>A call on the store of one account\<close>

text \<open>No call but \<open>OnBroadcasted\<close> takes an ID out of the pending table, or changes its transaction.\<close>

lemma call_store_pending:
  assumes "store_inv (h, s)" and "store_allowed x (h, s)" and "call_store x (h, s) = Done ((h', s'), err)"
    and "pendingTxs s j = Some r" and "\<And>y e r'. x \<noteq> OpBroadcasted y e r'"
  shows "pendingTxs s' j = Some r"
proof (cases x)
  case (OpPending r')
  then show ?thesis using assms(3,4)
    by (auto simp: OnPending_def insert_pending_def Let_def split: if_splits)
next
  case (OpRetry r')
  then show ?thesis using assms(3,4)
    by (auto simp: OnPending_def insert_pending_def Let_def split: if_splits option.splits)
next
  case (OpReorg i)
  then show ?thesis using assms(3,4) confirmed_facts(3) [OF assms(1), of i]
    by (auto simp: OnReorg_def split: option.splits)
qed (use assms(3-5) in \<open>auto simp: OnConfirmed_def OnErrored_def OnFatalError_def OnFinalized_def
       split: option.splits if_splits\<close>)

lemma OnBroadcasted_pending:
  "OnBroadcasted y e r (h, s) = ((h', s'), err) \<Longrightarrow> j \<noteq> ID (h r) \<Longrightarrow> pendingTxs s' j = pendingTxs s j"
  by (auto simp: OnBroadcasted_def split: if_splits)

lemma counters_ok_set_State [simp]: "counters_ok (set_State r st h r') = counters_ok (h r')"
  by (simp add: counters_ok_def)

text \<open>One store call at the level of the manager: it returns, and everything but the queue is kept.\<close>

lemma store_call:
  assumes inv: "account_inv (owner_of E) (objects t, accounts t)" and tr: "tracked_ok (next_object t) (objects t, accounts t)"
    and al: "account_allowed (owner_of E) (a, x) (objects t, accounts t)"
    and new: "\<And>r. r \<in> new_refs x \<Longrightarrow> r < next_object t \<and> counters_ok (objects t r)"
  shows "\<exists>h c s' err. with_store_outcome a (call_store x) t = Done (t\<lparr>objects := h, accounts := c\<rparr>, err)
    \<and> account_inv (owner_of E) (h, c) \<and> tracked_ok (next_object t) (h, c)
    \<and> call_store x (objects t, snd (GetTxStore a (accounts t))) = Done ((h, s'), err)
    \<and> store c = (store (accounts t))(a \<mapsto> s')
    \<and> (\<forall>r. ID (h r) = ID (objects t r) \<and> FromAddress (h r) = FromAddress (objects t r))
    \<and> account_status (h, c) = spec_status (store_event x)
        (a, store_target x (objects t, snd (GetTxStore a (accounts t)))) (account_status (objects t, accounts t))"
proof -
  let ?s = "snd (GetTxStore a (accounts t))"
  obtain h c s' err where res: "on_store_outcome a (call_store x) (objects t, accounts t) = Done ((h, c), err)"
    and inv': "account_inv (owner_of E) (h, c)"
    and call: "call_store x (objects t, ?s) = Done ((h, s'), err)"
    and upd: "store c = (store (accounts t))(a \<mapsto> s')"
    using account_call [OF inv al] by blast
  have al': "store_allowed x (objects t, ?s)" using al by simp
  have heap: "h = objects t \<or> (\<exists>r st. h = set_State r st (objects t))"
    using call_store_heap [OF al' call] by blast
  have old: "r < next_object t \<and> counters_ok (objects t r)" if "r \<in> store_refs ?s" for r
  proof (cases "store (accounts t) a")
    case None
    then show ?thesis using that by (simp add: GetTxStore_def store_refs_def NewTxStore_def)
  next
    case (Some u)
    then show ?thesis using that tracked_okD [OF tr Some] by (simp add: GetTxStore_def)
  qed
  have "r < next_object t \<and> counters_ok (h r)" if b: "store c b = Some s" and r: "r \<in> store_refs s" for b s r
  proof (cases "b = a")
    case True
    then have "r \<in> store_refs ?s \<union> new_refs x" using b r upd call_store_refs [OF al' call] by auto
    then show ?thesis using old new heap by auto
  next
    case False
    then show ?thesis using b r upd tr heap by (auto dest!: tracked_okD)
  qed
  then have tr': "tracked_ok (next_object t) (h, c)" by (simp add: tracked_ok_def)
  have st: "run_account_op (a, x) (objects t, accounts t) = Done (h, c)" using res by simp
  have status: "account_status (h, c) = spec_status (store_event x) (a, store_target x (objects t, ?s))
      (account_status (objects t, accounts t))"
    using run_account_op_ok [OF inv al] st by (auto simp: account_event_def simp del: account_status.simps)
  have "with_store_outcome a (call_store x) t = Done (t\<lparr>objects := h, accounts := c\<rparr>, err)"
    using res by (simp add: with_store_outcome_def)
  then show ?thesis using inv' call upd tr' heap status by auto
qed

text \<open>The queue stays pending under every call but a broadcast.\<close>

lemma pending_in_call:
  assumes inv: "account_inv (owner_of E) (objects t, accounts t)"
    and al: "store_allowed x (objects t, snd (GetTxStore a (accounts t)))"
    and call: "call_store x (objects t, snd (GetTxStore a (accounts t))) = Done ((h, s'), err)"
    and upd: "store c = (store (accounts t))(a \<mapsto> s')"
    and ids: "\<And>r. ID (h r) = ID (objects t r) \<and> FromAddress (h r) = FromAddress (objects t r)"
    and pend: "pending_in (owner_of E) (objects t, accounts t) r"
    and x: "\<And>y e r'. x = OpBroadcasted y e r' \<Longrightarrow> ID (objects t r') \<noteq> ID (objects t r) \<or> owner_of E (FromAddress (objects t r)) \<noteq> a"
  shows "pending_in (owner_of E) (h, c) r"
proof -
  let ?b = "owner_of E (FromAddress (objects t r))"
  obtain s where s: "store (accounts t) ?b = Some s" "pendingTxs s (ID (objects t r)) = Some r"
    using pend by (auto simp: pending_in_def)
  show ?thesis
  proof (cases "?b = a")
    case False
    then show ?thesis using s upd ids by (auto simp: pending_in_def)
  next
    case True
    then have G: "snd (GetTxStore a (accounts t)) = s" using s by (simp add: GetTxStore_existing)
    have "pendingTxs s' (ID (objects t r)) = Some r"
    proof (cases "\<exists>y e r'. x = OpBroadcasted y e r'")
      case False
      then show ?thesis using call_store_pending [OF account_invD(1) [OF inv s(1)], of x h s' err] al call s(2) G
        by auto
    next
      case bc: True
      then obtain y e r' where y: "x = OpBroadcasted y e r'" by blast
      then have "OnBroadcasted y e r' (objects t, s) = ((h, s'), err)" using call G by simp
      moreover have "ID (objects t r) \<noteq> ID (objects t r')" using x [OF y] True by auto
      ultimately show ?thesis using OnBroadcasted_pending s(2) by metis
    qed
    then show ?thesis using True upd ids by (auto simp: pending_in_def)
  qed
qed

text \<open>The calls the confirm loop makes directly.\<close>

fun direct_op :: "store_op \<Rightarrow> bool" where
  "direct_op (OpPending r) = False"
| "direct_op (OpRetry r) = False"
| "direct_op (OpBroadcasted x e r) = False"
| "direct_op _ = True"

lemma txm_store_call:
  assumes "txm_inv E t" and "direct_op x"
  shows "\<exists>h c s' err. with_store_outcome a (call_store x) t = Done (t\<lparr>objects := h, accounts := c\<rparr>, err)
    \<and> txm_inv E (t\<lparr>objects := h, accounts := c\<rparr>)
    \<and> call_store x (objects t, snd (GetTxStore a (accounts t))) = Done ((h, s'), err)
    \<and> store c = (store (accounts t))(a \<mapsto> s')
    \<and> (\<forall>r. ID (h r) = ID (objects t r) \<and> FromAddress (h r) = FromAddress (objects t r))
    \<and> account_status (h, c) = spec_status (store_event x)
        (a, store_target x (objects t, snd (GetTxStore a (accounts t)))) (account_status (objects t, accounts t))"
proof -
  note inv = txm_invD [OF assms(1)]
  have al: "account_allowed (owner_of E) (a, x) (objects t, accounts t)" and new: "new_refs x = {}"
    using assms(2) by (cases x; simp)+
  obtain h c s' err where res: "with_store_outcome a (call_store x) t = Done (t\<lparr>objects := h, accounts := c\<rparr>, err)"
    "account_inv (owner_of E) (h, c)" "tracked_ok (next_object t) (h, c)"
    "call_store x (objects t, snd (GetTxStore a (accounts t))) = Done ((h, s'), err)"
    "store c = (store (accounts t))(a \<mapsto> s')"
    "\<And>r. ID (h r) = ID (objects t r) \<and> FromAddress (h r) = FromAddress (objects t r)"
    "account_status (h, c) = spec_status (store_event x)
        (a, store_target x (objects t, snd (GetTxStore a (accounts t)))) (account_status (objects t, accounts t))"
    using store_call [OF inv(1,2) al] new by auto
  have "pending_in (owner_of E) (h, c) r" if "r \<in> set (queue t)" for r
  proof (rule pending_in_call [OF inv(1) _ res(4,5,6) inv(4) [OF that]])
    show "store_allowed x (objects t, snd (GetTxStore a (accounts t)))" using al by simp
  qed (use assms(2) in auto)
  then have "txm_inv E (t\<lparr>objects := h, accounts := c\<rparr>)"
    using res(2,3) inv(3,5) by (auto simp: txm_inv_def state_of_def queue_def)
  then show ?thesis using res by blast
qed

text \<open>The same for the operations that cannot panic, which the code calls without a result to check.\<close>

lemma with_store_call:
  assumes "\<And>st. call_store x st = Done (f st)"
  shows "with_store_outcome a (call_store x) t = Done (with_store a f t)"
  using assms
  by (auto simp: with_store_outcome_def with_store_def on_store_outcome_def on_store_def split: prod.splits)

lemma txm_with_store:
  assumes "txm_inv E t" and "direct_op x" and "\<And>st. call_store x st = Done (f st)"
  shows "txm_inv E (fst (with_store a f t))"
    and "account_status (state_of (fst (with_store a f t))) = spec_status (store_event x)
        (a, store_target x (objects t, snd (GetTxStore a (accounts t)))) (account_status (state_of t))"
    and "queue (fst (with_store a f t)) = queue t" "next_object (fst (with_store a f t)) = next_object t"
  using txm_store_call [OF assms(1,2), of a] with_store_call [OF assms(3), of a t]
  by (auto simp: state_of_def queue_def simp del: account_status.simps)

lemma touch_store_inv:
  assumes "txm_inv E t"
  shows "txm_inv E (touch_store a t)"
proof -
  note inv = txm_invD [OF assms]
  obtain c s where G: "GetTxStore a (accounts t) = (c, s)" by fastforce
  have st: "store c b = (if b = a then Some s else store (accounts t) b)" for b
    using store_GetTxStore [of a "accounts t" b] G by simp
  have old: "store (accounts t) a = Some s \<or> (store (accounts t) a = None \<and> s = NewTxStore)"
    using G by (auto simp: GetTxStore_def split: option.splits)
  have "account_inv (owner_of E) (objects t, c)" using GetTxStore_inv(1) [OF inv(1) G] .
  moreover have "tracked_ok (next_object t) (objects t, c)"
    using inv(2) old st by (auto simp: tracked_ok_def store_refs_def NewTxStore_def split: if_splits)
  moreover have "pending_in (owner_of E) (objects t, c) r" if "r \<in> set (queue t)" for r
    using inv(4) [OF that] old st by (auto simp: pending_in_def)
  ultimately show ?thesis
    using inv(3,5) G by (auto simp: txm_inv_def touch_store_def state_of_def queue_def)
qed

end
