(* ===== verification/Txm_Steps.thy ===== *)
theory Txm_Steps
  imports Txm_Inv
begin

text \<open>
  What each goroutine's piece of work does to the manager's state: it returns, keeps the invariant,
  and concerns one transaction of one account. The node is used through the interface
  \<open>node_reads\<close>: its reads return a response or an error.
\<close>

subsection \<open>The interface of the node\<close>

definition call_ok :: "('w, 'r) call \<Rightarrow> bool" where
  "call_ok f \<longleftrightarrow> (\<forall>w. \<exists>w' r e. f w = Done (w', r, e) \<and> (e = None \<longrightarrow> r \<noteq> None))"

lemma call_okE:
  assumes "call_ok f"
  obtains w' r where "f w = Done (w', Some r, None)" | w' r e where "f w = Done (w', r, Some e)"
  using assms unfolding call_ok_def by (metis option.exhaust)

subsection \<open>Touching one transaction only\<close>

definition same_entries :: "string \<Rightarrow> TxStore \<Rightarrow> TxStore \<Rightarrow> bool" where
  "same_entries j s s' \<longleftrightarrow> pendingTxs s' j = pendingTxs s j \<and> unconfirmedTxs s' j = unconfirmedTxs s j
     \<and> confirmedTxs s' j = confirmedTxs s j \<and> finishedTxs s' j = finishedTxs s j"

definition only_touches :: "string \<Rightarrow> string \<Rightarrow> account_state \<Rightarrow> account_state \<Rightarrow> bool" where
  "only_touches a i = (\<lambda>(h, c) (h', c').
     (\<forall>r. ID (h' r) = ID (h r) \<and> FromAddress (h' r) = FromAddress (h r)) \<and>
     (\<forall>b s. store c b = Some s \<longrightarrow> (\<exists>s'. store c' b = Some s'
        \<and> (\<forall>j. (b, j) \<noteq> (a, i) \<longrightarrow> same_entries j s s'))))"

definition unconfirmed_in :: "account_state \<Rightarrow> string \<Rightarrow> InflightTx \<Rightarrow> bool" where
  "unconfirmed_in = (\<lambda>(h, c) a p. \<exists>s. store c a = Some s \<and> unconfirmedTxs s (ID (h (inf_Tx p))) = Some p)"

definition confirmed_in :: "account_state \<Rightarrow> string \<Rightarrow> InflightTx \<Rightarrow> bool" where
  "confirmed_in = (\<lambda>(h, c) a p. \<exists>s. store c a = Some s \<and> confirmedTxs s (ID (h (inf_Tx p))) = Some p)"

lemma only_touches_refl [simp]: "only_touches a i st st"
  by (cases st) (auto simp: only_touches_def same_entries_def)

lemma only_touches_trans:
  assumes "only_touches a i st st'" and "only_touches a i st' st''"
  shows "only_touches a i st st''"
proof -
  obtain h c h' c' h'' c'' where st: "st = (h, c)" "st' = (h', c')" "st'' = (h'', c'')"
    by (cases st, cases st', cases st'')
  have "\<exists>u. store c'' b = Some u \<and> (\<forall>j. (b, j) \<noteq> (a, i) \<longrightarrow> same_entries j s u)" if s: "store c b = Some s" for b s
  proof -
    obtain s' where s': "store c' b = Some s'" "\<And>j. (b, j) \<noteq> (a, i) \<Longrightarrow> same_entries j s s'"
      using assms(1) s unfolding st only_touches_def by blast
    obtain u where u: "store c'' b = Some u" "\<And>j. (b, j) \<noteq> (a, i) \<Longrightarrow> same_entries j s' u"
      using assms(2) s'(1) unfolding st only_touches_def by blast
    have "same_entries j s u" if "(b, j) \<noteq> (a, i)" for j
      using s'(2) [OF that] u(2) [OF that] by (simp add: same_entries_def)
    then show ?thesis using u(1) by blast
  qed
  then show ?thesis using assms by (simp add: st only_touches_def)
qed

lemma only_touches_unconfirmed:
  assumes "only_touches a i st st'" and "unconfirmed_in st b p" and "(b, ID (fst st (inf_Tx p))) \<noteq> (a, i)"
  shows "unconfirmed_in st' b p"
proof -
  obtain h c h' c' where st: "st = (h, c)" "st' = (h', c')" by (cases st, cases st')
  obtain s where s: "store c b = Some s" "unconfirmedTxs s (ID (h (inf_Tx p))) = Some p"
    using assms(2) by (auto simp: st unconfirmed_in_def)
  then obtain s' where "store c' b = Some s'" "\<And>j. (b, j) \<noteq> (a, i) \<Longrightarrow> same_entries j s s'"
    using assms(1) unfolding st only_touches_def by blast
  moreover have "ID (h' (inf_Tx p)) = ID (h (inf_Tx p))" using assms(1) by (simp add: st only_touches_def)
  ultimately show ?thesis using s(2) assms(3) by (simp add: st unconfirmed_in_def same_entries_def)
qed

lemma only_touches_confirmed:
  assumes "only_touches a i st st'" and "confirmed_in st b p" and "(b, ID (fst st (inf_Tx p))) \<noteq> (a, i)"
  shows "confirmed_in st' b p"
proof -
  obtain h c h' c' where st: "st = (h, c)" "st' = (h', c')" by (cases st, cases st')
  obtain s where s: "store c b = Some s" "confirmedTxs s (ID (h (inf_Tx p))) = Some p"
    using assms(2) by (auto simp: st confirmed_in_def)
  then obtain s' where "store c' b = Some s'" "\<And>j. (b, j) \<noteq> (a, i) \<Longrightarrow> same_entries j s s'"
    using assms(1) unfolding st only_touches_def by blast
  moreover have "ID (h' (inf_Tx p)) = ID (h (inf_Tx p))" using assms(1) by (simp add: st only_touches_def)
  ultimately show ?thesis using s(2) assms(3) by (simp add: st confirmed_in_def same_entries_def)
qed

lemma only_touches_ID: "only_touches a i st st' \<Longrightarrow> ID (fst st' r) = ID (fst st r)"
  by (cases st; cases st') (simp add: only_touches_def)

text \<open>A direct store call touches its target only.\<close>

lemma call_store_same_entries:
  assumes "call_store x (h, s) = Done ((h', s'), err)" and "direct_op x" and "j \<noteq> store_target x (h, s)"
  shows "same_entries j s s'"
  using assms
  by (cases x) (auto simp: same_entries_def OnConfirmed_def OnErrored_def OnFatalError_def OnReorg_def
      OnFinalized_def split: option.splits if_splits)

lemma with_store_touches:
  assumes "txm_inv E t" and "direct_op x" and "\<And>st. call_store x st = Done (f st)"
    and "\<And>st. store_target x st = i"
  shows "only_touches a i (state_of t) (state_of (fst (with_store a f t)))"
proof -
  obtain h c s' err where res: "with_store_outcome a (call_store x) t = Done (t\<lparr>objects := h, accounts := c\<rparr>, err)"
    and call: "call_store x (objects t, snd (GetTxStore a (accounts t))) = Done ((h, s'), err)"
    and upd: "store c = (store (accounts t))(a \<mapsto> s')"
    and ids: "\<And>r. ID (h r) = ID (objects t r) \<and> FromAddress (h r) = FromAddress (objects t r)"
    using txm_store_call [OF assms(1,2), of a] by blast
  have t': "fst (with_store a f t) = t\<lparr>objects := h, accounts := c\<rparr>"
    using res with_store_call [OF assms(3), of a t] by simp
  have "\<exists>u. store c b = Some u \<and> (\<forall>j. (b, j) \<noteq> (a, i) \<longrightarrow> same_entries j s u)"
    if s: "store (accounts t) b = Some s" for b s
  proof (cases "b = a")
    case True
    then have "snd (GetTxStore a (accounts t)) = s" using s by (simp add: GetTxStore_existing)
    then show ?thesis using True call_store_same_entries [OF call assms(2)] assms(4) upd by auto
  next
    case False
    then show ?thesis using s upd by (auto simp: same_entries_def)
  qed
  then show ?thesis using ids by (simp add: t' only_touches_def state_of_def)
qed

lemma touch_store_touches: "only_touches a i (state_of t) (state_of (touch_store a t))"
  using store_GetTxStore [of a "accounts t"]
  by (auto simp: only_touches_def state_of_def touch_store_def same_entries_def GetTxStore_existing)

subsection \<open>Retry\<close>

lemma counters_ok_bump:
  assumes "counters_ok tx" and "Attempt tx < 5" and "OutOfTimeErrors tx < 2"
  shows "counters_ok (bump_tx b oo tx)"
proof -
  have a: "unat (Attempt tx) < 5" using assms(2) by (simp add: word_less_nat_alt)
  have ov: "unat (OutOfTimeErrors tx) < 2" using assms(3) by (simp add: word_less_nat_alt)
  have e: "unat (EnergyBumpTimes tx) < 5" using assms(1) a by (simp add: counters_ok_def)
  have "unat (Attempt tx + 1) = unat (Attempt tx) + 1" using a by (simp add: unat_word_ariths)
  moreover have "unat (OutOfTimeErrors tx + 1) = unat (OutOfTimeErrors tx) + 1"
    using ov by (simp add: unat_word_ariths)
  moreover have "unat (EnergyBumpTimes tx + 1) = unat (EnergyBumpTimes tx) + 1"
    using e by (simp add: unat_word_ariths)
  ultimately show ?thesis using assms(1) a ov e by (auto simp: counters_ok_def bump_tx_def)
qed

lemma unconfirmed_not_queued:
  assumes "txm_inv E t" and "unconfirmed_in (state_of t) a p"
  shows "inf_Tx p \<notin> set (queue t)"
proof
  assume q: "inf_Tx p \<in> set (queue t)"
  note inv = txm_invD [OF assms(1)]
  have "State (objects t (inf_Tx p)) = Pending" using pending_in_State [OF inv(1) inv(4) [OF q]] .
  moreover obtain s where "store (accounts t) a = Some s" "unconfirmedTxs s (ID (objects t (inf_Tx p))) = Some p"
    using assms(2) by (auto simp: unconfirmed_in_def state_of_def)
  ultimately show False using unconfirmed_facts(2) [OF account_invD(1) [OF inv(1)]] by fastforce
qed

lemma retry_ok:
  assumes inv: "txm_inv E t" and p: "unconfirmed_in (state_of t) a p"
    and "Attempt (objects t (inf_Tx p)) < 5" and "OutOfTimeErrors (objects t (inf_Tx p)) < 2"
  shows "\<exists>c s. store (accounts t) a = Some s \<and> unconfirmedTxs s (ID (objects t (inf_Tx p))) = Some p
    \<and> store c = (store (accounts t))(a \<mapsto> retried (ID (objects t (inf_Tx p))) p s)
    \<and> with_store_outcome a (OnPending (inf_Tx p) True)
        (t\<lparr>objects := (objects t)(inf_Tx p := bump_tx b oo (objects t (inf_Tx p)))\<rparr>)
      = Done (t\<lparr>objects := (objects t)(inf_Tx p := bump_tx b oo (objects t (inf_Tx p))), accounts := c\<rparr>, None)
    \<and> txm_inv E (t\<lparr>objects := (objects t)(inf_Tx p := bump_tx b oo (objects t (inf_Tx p))), accounts := c\<rparr>)
    \<and> only_touches a (ID (objects t (inf_Tx p))) (state_of t)
        ((objects t)(inf_Tx p := bump_tx b oo (objects t (inf_Tx p))), c)
    \<and> pending_in (owner_of E) ((objects t)(inf_Tx p := bump_tx b oo (objects t (inf_Tx p))), c) (inf_Tx p)"
proof -
  note I = txm_invD [OF inv]
  let ?r = "inf_Tx p" and ?i = "ID (objects t (inf_Tx p))"
  let ?h = "(objects t)(?r := bump_tx b oo (objects t ?r))"
  obtain s where s: "store (accounts t) a = Some s" "unconfirmedTxs s ?i = Some p"
    using p by (auto simp: unconfirmed_in_def state_of_def)
  note si = account_invD(1) [OF I(1) s(1)] and own = account_invD(2) [OF I(1) s(1)]
  have h: "ID (?h ?r) = ?i" "State (?h ?r) = Pending" "\<And>r'. r' \<noteq> ?r \<Longrightarrow> ?h r' = objects t r'"
    "\<And>r'. ID (?h r') = ID (objects t r') \<and> FromAddress (?h r') = FromAddress (objects t r')"
    by (auto simp: bump_tx_def)
  have ref: "?r \<in> store_refs s" using store_refs_entry(2) [OF s(2)] .
  have owner: "owner_of E (FromAddress (objects t ?r)) = a" using own ref by (simp add: owned_by_def)
  let ?s = "retried ?i p s" and ?c = "(accounts t)\<lparr>store := (store (accounts t))(a \<mapsto> retried ?i p s)\<rparr>"
  have refs: "store_refs ?s \<subseteq> store_refs s"
    using ref by (auto simp: retried_def elim!: store_refsE dest!: ran_dests simp: store_refs_in_ran)
  have call: "with_store_outcome a (OnPending ?r True) (t\<lparr>objects := ?h\<rparr>)
      = Done (t\<lparr>objects := ?h, accounts := ?c\<rparr>, None)"
    using OnPending_retry [OF si s(2), of ?h] h(1,2) s(1)
    by (simp add: with_store_outcome_def on_store_outcome_def GetTxStore_existing put_store_def)
  have own': "owned_by (owner_of E) ?h a ?s" using own refs h(4) by (auto simp: owned_by_def)
  have "account_inv (owner_of E) (put_store a (?h, ?s) (accounts t))"
    by (rule account_inv_put [OF I(1) store_inv_retry [OF si s(2), of ?h] own']) (use owner h in auto)
  then have ai: "account_inv (owner_of E) (?h, ?c)" by (simp add: put_store_def)
  have bump: "counters_ok (?h r)" if "counters_ok (objects t r)" for r
    using that counters_ok_bump [OF _ assms(3,4)] by auto
  have tr: "tracked_ok (next_object t) (?h, ?c)"
    using I(2) s(1) refs bump by (fastforce simp: tracked_ok_def split: if_splits)
  have touch: "only_touches a ?i (state_of t) (?h, ?c)"
    using s(1) h(4) by (auto simp: only_touches_def state_of_def same_entries_def retried_def)
  have pend: "pending_in (owner_of E) (?h, ?c) r" if q: "r \<in> set (queue t)" for r
  proof -
    have "r \<noteq> ?r" using unconfirmed_not_queued [OF inv p] q by blast
    obtain u where u: "store (accounts t) (owner_of E (FromAddress (objects t r))) = Some u"
      "pendingTxs u (ID (objects t r)) = Some r"
      using I(4) [OF q] by (auto simp: pending_in_def)
    have "ID (objects t r) \<noteq> ?i" if "owner_of E (FromAddress (objects t r)) = a"
      using u that s unconfirmed_facts(3) [OF si s(2)] by auto
    then show ?thesis using u \<open>r \<noteq> ?r\<close> s(1) by (auto simp: pending_in_def retried_def)
  qed
  have "txm_inv E (t\<lparr>objects := ?h, accounts := ?c\<rparr>)"
    using ai tr pend I(3,5) by (auto simp: txm_inv_def state_of_def queue_def)
  moreover have "pending_in (owner_of E) (?h, ?c) ?r"
    using owner h(1) by (simp add: pending_in_def retried_def bump_tx_def)
  moreover have "store ?c = (store (accounts t))(a \<mapsto> ?s)" by simp
  ultimately show ?thesis using call touch s by blast
qed

subsection \<open>The confirm loop\<close>

lemma with_store_errored:
  assumes "txm_inv E t"
  shows "txm_inv E (errored E a i t)" and "only_touches a i (state_of t) (state_of (errored E a i t))"
    and "account_status (state_of (errored E a i t)) = spec_status Fail (a, i) (account_status (state_of t))"
proof -
  obtain w now where now: "time_Now E (world t) = (w, now)" by fastforce
  have inv: "txm_inv E (t\<lparr>world := w\<rparr>)" using assms by simp
  have call: "\<And>st. call_store (OpErrored now i) st = Done (OnErrored now i st)" by simp
  have e: "errored E a i t = fst (with_store a (OnErrored now i) (t\<lparr>world := w\<rparr>))"
    by (simp add: errored_def now)
  have st: "state_of (t\<lparr>world := w\<rparr>) = state_of t" by (simp add: state_of_def)
  show "txm_inv E (errored E a i t)" unfolding e by (rule txm_with_store(1) [OF inv _ call]) simp
  show "only_touches a i (state_of t) (state_of (errored E a i t))"
    using with_store_touches [OF inv _ call, of i a] by (simp add: e st)
  show "account_status (state_of (errored E a i t)) = spec_status Fail (a, i) (account_status (state_of t))"
    using txm_with_store(2) [OF inv _ call, of a] by (simp add: e st)
qed

text \<open>
  What one check of an unconfirmed transaction decides, as a lifecycle event: the function of the
  result of the execution and of the transaction's counters.
\<close>

definition retry_event :: "TronTx \<Rightarrow> lifecycle_event" where
  "retry_event tx = (if 5 \<le> Attempt tx \<or> 2 \<le> OutOfTimeErrors tx then Fail else Retry)"

definition verdict :: "TronTx \<Rightarrow> string \<Rightarrow> lifecycle_event" where
  "verdict tx result =
     (if result = ''SUCCESS'' then Confirm
      else if result \<in> {''OUT_OF_ENERGY'', ''OUT_OF_TIME''} then retry_event tx
      else if result \<in> fatal_results then Fatal
      else retry_event tx)"

definition checked :: "'w Env \<Rightarrow> string \<Rightarrow> string \<Rightarrow> lifecycle_event \<Rightarrow> 'w txm \<Rightarrow> 'w txm \<Rightarrow> bool" where
  "checked E a i e t t' \<longleftrightarrow> txm_inv E t' \<and> only_touches a i (state_of t) (state_of t')
     \<and> account_status (state_of t') = spec_status e (a, i) (account_status (state_of t))"

lemma account_status_retry:
  assumes inv: "account_inv owner (h, c)" and s: "store c a = Some s" "unconfirmedTxs s i = Some p"
    and h: "ID (h' (inf_Tx p)) = i" "State (h' (inf_Tx p)) = Pending" "\<And>r. r \<noteq> inf_Tx p \<Longrightarrow> h' r = h r"
    and c': "store c' = (store c)(a \<mapsto> retried i p s)"
  shows "account_status (h', c') = spec_status Retry (a, i) (account_status (h, c))"
proof -
  note si = account_invD(1) [OF inv s(1)]
  have sim: "simulates Retry i (h, s) ((h', retried i p s), None)" by (rule retry_simulates [OF si s(2) h])
  have own: "owner (FromAddress (h (inf_Tx p))) = a"
    using account_invD(2) [OF inv s(1)] store_refs_entry(2) [OF s(2)] by (simp add: owned_by_def)
  have other: "owner (FromAddress (h r)) \<noteq> a \<Longrightarrow> h' r = h r" for r using h(3) [of r] own by blast
  have st: "status (h, s) = (\<lambda>j. account_status (h, c) (a, j))" using s(1) by (simp add: status_def fun_eq_iff)
  have "account_status (h', c') (b, j) = spec_status Retry (a, i) (account_status (h, c)) (b, j)" for b j
    using account_status_call [OF inv c' other, where b = b and j = j] sim
    by (auto simp: simulates_def st spec_status_def simp del: account_status.simps split: option.splits)
  then show ?thesis by (simp add: fun_eq_iff del: account_status.simps)
qed

lemma maybeRetry_checked:
  assumes inv: "txm_inv E t" and p: "unconfirmed_in (state_of t) a p"
  shows "\<exists>t'. maybeRetry E a p b oo t = Done t'
    \<and> checked E a (ID (objects t (inf_Tx p))) (retry_event (objects t (inf_Tx p))) t t'"
proof (cases "5 \<le> Attempt (objects t (inf_Tx p)) \<or> 2 \<le> OutOfTimeErrors (objects t (inf_Tx p))")
  case True
  then show ?thesis using with_store_errored [OF inv]
    by (auto simp: maybeRetry_def Let_def MAX_RETRY_ATTEMPTS_def checked_def retry_event_def)
next
  case False
  then have lt: "Attempt (objects t (inf_Tx p)) < 5" "OutOfTimeErrors (objects t (inf_Tx p)) < 2" by auto
  let ?h = "(objects t)(inf_Tx p := bump_tx b oo (objects t (inf_Tx p)))" and ?i = "ID (objects t (inf_Tx p))"
  obtain c s where s: "store (accounts t) a = Some s" "unconfirmedTxs s ?i = Some p"
    and sc: "store c = (store (accounts t))(a \<mapsto> retried ?i p s)"
    and c: "with_store_outcome a (OnPending (inf_Tx p) True) (t\<lparr>objects := ?h\<rparr>)
      = Done (t\<lparr>objects := ?h, accounts := c\<rparr>, None)"
    "txm_inv E (t\<lparr>objects := ?h, accounts := c\<rparr>)" "only_touches a ?i (state_of t) (?h, c)"
    "pending_in (owner_of E) (?h, c) (inf_Tx p)"
    using retry_ok [OF inv p lt] by blast
  let ?t = "t\<lparr>objects := ?h, accounts := c\<rparr>"
  have run: "maybeRetry E a p b oo t = Done (fst (try_send E (inf_Tx p) ?t))"
    using lt c(1) by (simp add: maybeRetry_def MAX_RETRY_ATTEMPTS_def Let_def not_le)
  have nq: "inf_Tx p \<notin> set (queue ?t)" using unconfirmed_not_queued [OF inv p] by (simp add: queue_def)
  have "txm_inv E (fst (try_send E (inf_Tx p) ?t))"
    by (rule txm_inv_try_send [OF c(2) _ nq]) (use c(4) in \<open>simp add: state_of_def\<close>)
  moreover have st: "state_of (fst (try_send E (inf_Tx p) ?t)) = (?h, c)" by (simp add: state_of_def)
  moreover have "account_status (?h, c) = spec_status Retry (a, ?i) (account_status (state_of t))"
    unfolding state_of_def
    by (rule account_status_retry [OF txm_invD(1) [OF inv] s _ _ _ sc]) (auto simp: bump_tx_def)
  ultimately show ?thesis using run c(3) False by (simp add: checked_def retry_event_def)
qed

lemma with_store_checked:
  assumes "txm_inv E t" and "direct_op x" and "\<And>st. call_store x st = Done (f st)"
    and "\<And>st. store_target x st = i"
  shows "checked E a i (store_event x) t (fst (with_store a f t))"
  using txm_with_store(1,2) [OF assms(1-3), of a] with_store_touches [OF assms, of a] assms(4)
  by (simp add: checked_def del: account_status.simps)

lemma checked_world: "checked E a i e (t\<lparr>world := w\<rparr>) t' = checked E a i e t t'"
  by (simp add: checked_def state_of_def)

lemma check_result_checked:
  assumes inv: "txm_inv E t" and p: "unconfirmed_in (state_of t) a p"
  shows "\<exists>t'. check_result E a p res t = Done t'
    \<and> checked E a (ID (objects t (inf_Tx p))) (verdict (objects t (inf_Tx p)) res) t t'"
proof -
  let ?i = "ID (objects t (inf_Tx p))"
  have c: "checked E a ?i Confirm t (fst (with_store a (OnConfirmed ?i) t))"
    using with_store_checked [OF inv, of "OpConfirmed ?i"] by simp
  have f: "checked E a ?i Fatal t (fst (with_store a (OnFatalError now ?i) (t\<lparr>world := w\<rparr>)))" for now w
  proof -
    have "checked E a ?i Fatal (t\<lparr>world := w\<rparr>) (fst (with_store a (OnFatalError now ?i) (t\<lparr>world := w\<rparr>)))"
      using with_store_checked [of E "t\<lparr>world := w\<rparr>" "OpFatalError now ?i"] inv by simp
    then show ?thesis by (simp add: checked_world)
  qed
  show ?thesis
    using c f maybeRetry_checked [OF inv p]
    by (auto simp: check_result_def Let_def verdict_def fatal_results_def split: prod.splits)
qed

lemma unconfirmed_in_touch [simp]: "unconfirmed_in (state_of t) a p \<Longrightarrow> touch_store a t = t"
  by (auto simp: unconfirmed_in_def state_of_def touch_store_def GetTxStore_existing)

text \<open>The transaction is reported on the node, or it is not; then it counts as lost once it has expired.\<close>

definition reported :: "lifecycle_event option \<Rightarrow> 'w Env \<Rightarrow> string \<Rightarrow> string \<Rightarrow> 'w txm \<Rightarrow> 'w txm \<Rightarrow> bool" where
  "reported ev E a i t t' \<longleftrightarrow> (case ev of
     None \<Rightarrow> txm_inv E t' \<and> state_of t' = state_of t
   | Some e \<Rightarrow> checked E a i e t t')"

definition node_verdict :: "int64 \<Rightarrow> InflightTx \<Rightarrow> TronTx \<Rightarrow> TransactionInfo option \<times> string option \<Rightarrow> lifecycle_event option" where
  "node_verdict timestampMs p tx = (\<lambda>(info, err).
     if err = None then Some (verdict tx (receipt_Result (ti_Receipt (the info))))
     else if sint (inf_ExpirationMs p) < sint timestampMs then Some (retry_event tx) else None)"

lemma check_one_reported:
  assumes inv: "txm_inv E t" and p: "unconfirmed_in (state_of t) a p"
    and node: "GetTransactionInfoByIdFullNode (client E) (inf_Hash p) (world t) = Done (w, info, err)"
    and ptr: "err = None \<longrightarrow> info \<noteq> None"
  shows "\<exists>t'. check_one E a ts p t = Done t'
    \<and> reported (node_verdict ts p (objects t (inf_Tx p)) (info, err)) E a (ID (objects t (inf_Tx p))) t t'"
proof -
  let ?t = "t\<lparr>world := w\<rparr>"
  have inv': "txm_inv E ?t" using inv by simp
  have p': "unconfirmed_in (state_of ?t) a p" using p by (simp add: state_of_def)
  note touch = unconfirmed_in_touch [OF p']
  note r = check_result_checked [OF inv' p'] maybeRetry_checked [OF inv' p', of False False]
  show ?thesis
  proof (cases err)
    case None
    then obtain inf where "info = Some inf" using ptr by auto
    then show ?thesis using None node touch r(1) [of "receipt_Result (ti_Receipt inf)"]
      by (simp add: check_one_def node_verdict_def reported_def checked_world)
  next
    case (Some e)
    then show ?thesis using node touch r(2) inv'
      by (auto simp: check_one_def node_verdict_def reported_def checked_world state_of_def)
  qed
qed

subsection \<open>The loop over a snapshot of unconfirmed transactions\<close>

definition snapshot_ids :: "heap \<Rightarrow> InflightTx list \<Rightarrow> string list" where
  "snapshot_ids h ps = List.map (\<lambda>p. ID (h (inf_Tx p))) ps"

definition in_table :: "(account_state \<Rightarrow> string \<Rightarrow> InflightTx \<Rightarrow> bool) \<Rightarrow> bool" where
  "in_table tab \<longleftrightarrow> (\<forall>a i st st' b p. only_touches a i st st' \<longrightarrow> tab st b p \<longrightarrow>
     (b, ID (fst st (inf_Tx p))) \<noteq> (a, i) \<longrightarrow> tab st' b p)"

lemma in_table_unconfirmed: "in_table unconfirmed_in"
  unfolding in_table_def using only_touches_unconfirmed by blast

lemma in_table_confirmed: "in_table confirmed_in"
  unfolding in_table_def using only_touches_confirmed by blast

text \<open>Everything of one account that is still to be looked at, and of the accounts after it.\<close>

definition todo ::
  "'w Env \<Rightarrow> (account_state \<Rightarrow> string \<Rightarrow> InflightTx \<Rightarrow> bool) \<Rightarrow> (string \<times> InflightTx list) list \<Rightarrow> 'w txm \<Rightarrow> bool" where
  "todo E tab xs t \<longleftrightarrow> txm_inv E t \<and> distinct (List.map fst xs)
     \<and> (\<forall>(a, ps) \<in> set xs. distinct (snapshot_ids (objects t) ps) \<and> (\<forall>p \<in> set ps. tab (state_of t) a p))"

lemma todo_world: "todo E tab xs (t\<lparr>world := w\<rparr>) = todo E tab xs t"
  by (simp add: todo_def state_of_def)

lemma todo_touch:
  assumes "in_table tab" and "todo E tab xs t"
  shows "todo E tab xs (touch_store a t)"
proof -
  have "tab (state_of (touch_store a t)) b p" if "tab (state_of t) b p" for b p
    using assms(1) that touch_store_touches [of a "CHR ''x'' # ID (fst (state_of t) (inf_Tx p))" t]
    unfolding in_table_def by fastforce
  moreover have "objects (touch_store a t) = objects t" by (simp add: touch_store_def)
  ultimately show ?thesis using assms(2) touch_store_inv [of E t a] by (auto simp: todo_def)
qed

lemma todo_inv: "todo E tab xs t \<Longrightarrow> txm_inv E t"
  by (simp add: todo_def)

text \<open>
  The loop rule of the confirm loop: a snapshot of one table is worked on entry by entry, and the work
  on an entry concerns that entry only, so the entries still to come are still in the table.
\<close>

locale snapshot_loop =
  fixes E :: "'w Env"
    and tab :: "account_state \<Rightarrow> string \<Rightarrow> InflightTx \<Rightarrow> bool"
    and body :: "string \<Rightarrow> InflightTx \<Rightarrow> 'w txm \<Rightarrow> ('w txm) outcome"
  assumes table: "in_table tab"
    and body_ok: "txm_inv E t \<Longrightarrow> tab (state_of t) a p \<Longrightarrow> \<exists>t'. body a p t = Done t' \<and> txm_inv E t'
      \<and> only_touches a (ID (objects t (inf_Tx p))) (state_of t) (state_of t')"
begin

lemma body_todo:
  assumes "todo E tab ((a, p # ps) # xs) t"
  shows "\<exists>t'. body a p t = Done t' \<and> todo E tab ((a, ps) # xs) t'"
proof -
  have inv: "txm_inv E t" and p: "tab (state_of t) a p" using assms by (auto simp: todo_def)
  obtain t' where run: "body a p t = Done t'" and inv': "txm_inv E t'"
    and r: "only_touches a (ID (objects t (inf_Tx p))) (state_of t) (state_of t')"
    using body_ok [OF inv p] by blast
  have id: "ID (objects t' r) = ID (objects t r)" for r
    using only_touches_ID [OF r] by (simp add: state_of_def)
  have keep: "tab (state_of t') b q"
    if "tab (state_of t) b q" "(b, ID (objects t (inf_Tx q))) \<noteq> (a, ID (objects t (inf_Tx p)))" for b q
    using table r that unfolding in_table_def by (metis fst_conv state_of_def)
  have "tab (state_of t') a q" if "q \<in> set ps" for q
    using assms that by (intro keep) (auto simp: todo_def snapshot_ids_def image_iff)
  moreover have "tab (state_of t') b q" if "(b, qs) \<in> set xs" "q \<in> set qs" for b qs q
    using assms that by (intro keep) (auto simp: todo_def rev_image_eqI)
  ultimately have "todo E tab ((a, ps) # xs) t'"
    using assms inv' by (auto simp: todo_def snapshot_ids_def id)
  then show ?thesis using run by blast
qed

lemma bodies_todo:
  "todo E tab ((a, ps) # xs) t \<Longrightarrow> \<exists>t'. for_range (body a) ps t = Done t' \<and> todo E tab xs t'"
proof (induction ps arbitrary: t)
  case Nil
  then show ?case by (simp add: todo_def)
next
  case (Cons p ps)
  obtain t1 where t1: "body a p t = Done t1" "todo E tab ((a, ps) # xs) t1"
    using body_todo [OF Cons.prems] by blast
  show ?case using Cons.IH [OF t1(2)] t1(1) by simp
qed

end

text \<open>The loop over the accounts, whatever is done per account.\<close>

lemma accounts_todo:
  assumes "\<And>a ps xs t. todo E tab ((a, ps) # xs) t \<Longrightarrow> \<exists>t'. account_body (a, ps) t = Done t' \<and> todo E tab xs t'"
  shows "todo E tab xs t \<Longrightarrow> \<exists>t'. for_range account_body xs t = Done t' \<and> txm_inv E t'"
proof (induction xs arbitrary: t)
  case Nil
  then show ?case by (simp add: todo_def)
next
  case (Cons x xs)
  obtain a ps where x: "x = (a, ps)" by (cases x)
  obtain t1 where t1: "account_body x t = Done t1" "todo E tab xs t1"
    using assms Cons.prems x by blast
  show ?case using Cons.IH [OF t1(2)] t1(1) by simp
qed

text \<open>The snapshots, for any orders of the two maps, hold each transaction once.\<close>

lemma snapshot_distinct:
  assumes "\<And>i p. m i = Some p \<Longrightarrow> ID (h (inf_Tx p)) = i" and "distinct ks"
  shows "distinct (snapshot_ids h (sort_key f (map_values ks m)))"
proof -
  have "List.map (\<lambda>p. ID (h (inf_Tx p))) (map_values ks m) = List.map fst (entries ks m)"
    using assms(1) by (induction ks) (auto simp: map_values_def split: option.splits)
  then have "distinct (List.map (\<lambda>p. ID (h (inf_Tx p))) (map_values ks m))"
    using entries_distinct [OF assms(2)] by simp
  then show ?thesis by (simp add: snapshot_ids_def distinct_map)
qed

lemma unconfirmed_snapshot:
  assumes inv: "txm_inv E t" and accs: "distinct accs" and ids: "\<And>a. distinct (ids a)"
  shows "todo E unconfirmed_in (entries accs (GetAllUnconfirmed ids (accounts t))) t"
proof -
  have "distinct (snapshot_ids (objects t) ps) \<and> (\<forall>p \<in> set ps. unconfirmed_in (state_of t) a p)"
    if mem: "(a, ps) \<in> set (entries accs (GetAllUnconfirmed ids (accounts t)))" for a ps
  proof -
    obtain s where s: "store (accounts t) a = Some s" "ps = GetUnconfirmed (ids a) s"
      using mem by (auto simp: set_entries GetAllUnconfirmed_def)
    note f = unconfirmed_facts(1) [OF account_invD(1) [OF txm_invD(1) [OF inv] s(1)]]
    have "distinct (snapshot_ids (objects t) ps)"
      unfolding s(2) GetUnconfirmed_def by (rule snapshot_distinct) (use f ids in auto)
    then show ?thesis using f s by (auto simp: GetUnconfirmed_def set_map_values unconfirmed_in_def state_of_def)
  qed
  then show ?thesis using inv entries_distinct [OF accs] by (auto simp: todo_def)
qed

lemma confirmed_snapshot:
  assumes inv: "txm_inv E t" and accs: "distinct accs" and ids: "\<And>a. distinct (ids a)"
  shows "todo E confirmed_in (entries accs (GetAllConfirmed ids (accounts t))) t"
proof -
  have "distinct (snapshot_ids (objects t) ps) \<and> (\<forall>p \<in> set ps. confirmed_in (state_of t) a p)"
    if mem: "(a, ps) \<in> set (entries accs (GetAllConfirmed ids (accounts t)))" for a ps
  proof -
    obtain s where s: "store (accounts t) a = Some s" "ps = GetConfirmed (ids a) s"
      using mem by (auto simp: set_entries GetAllConfirmed_def)
    note f = confirmed_facts(1) [OF account_invD(1) [OF txm_invD(1) [OF inv] s(1)]]
    have "distinct (snapshot_ids (objects t) ps)"
      unfolding s(2) GetConfirmed_def by (rule snapshot_distinct) (use f ids in auto)
    then show ?thesis using f s by (auto simp: GetConfirmed_def set_map_values confirmed_in_def state_of_def)
  qed
  then show ?thesis using inv entries_distinct [OF accs] by (auto simp: todo_def)
qed

subsection \<open>Finality\<close>

lemma confirmed_not_queued:
  assumes "txm_inv E t" and "confirmed_in (state_of t) a p"
  shows "inf_Tx p \<notin> set (queue t)"
proof
  assume q: "inf_Tx p \<in> set (queue t)"
  note inv = txm_invD [OF assms(1)]
  have "State (objects t (inf_Tx p)) = Pending" using pending_in_State [OF inv(1) inv(4) [OF q]] .
  moreover obtain s where "store (accounts t) a = Some s" "confirmedTxs s (ID (objects t (inf_Tx p))) = Some p"
    using assms(2) by (auto simp: confirmed_in_def state_of_def)
  ultimately show False using confirmed_facts(2) [OF account_invD(1) [OF inv(1)]] by fastforce
qed

text \<open>A reorganised transaction is pending again, and is sent if the channel has room.\<close>

lemma reorg_checked:
  assumes inv: "txm_inv E t" and p: "confirmed_in (state_of t) a p" and i: "i = ID (objects t (inf_Tx p))"
  shows "snd (with_store a (OnReorg i) t) = None"
    and "checked E a i Reorg t (fst (try_send E (inf_Tx p) (fst (with_store a (OnReorg i) t))))"
proof -
  note I = txm_invD [OF inv]
  let ?u = "fst (with_store a (OnReorg i) t)"
  obtain s where s: "store (accounts t) a = Some s" "confirmedTxs s i = Some p"
    using p by (auto simp: confirmed_in_def state_of_def i)
  have own: "owner_of E (FromAddress (objects t (inf_Tx p))) = a"
    using account_invD(2) [OF I(1) s(1)] store_refs_entry(3) [OF s(2)] by (simp add: owned_by_def)
  have run: "objects ?u = set_State (inf_Tx p) Pending (objects t)"
    "\<exists>s'. store (accounts ?u) a = Some s' \<and> pendingTxs s' i = Some (inf_Tx p)"
    "snd (with_store a (OnReorg i) t) = None"
    using s by (auto simp: with_store_def on_store_def GetTxStore_existing OnReorg_def put_store_def)
  show "snd (with_store a (OnReorg i) t) = None" by (rule run(3))
  have chk: "checked E a i Reorg t ?u" using with_store_checked [OF inv, of "OpReorg i"] by simp
  have "pending_in (owner_of E) (state_of ?u) (inf_Tx p)"
    using run own i by (auto simp: pending_in_def state_of_def)
  moreover have "inf_Tx p \<notin> set (queue ?u)"
    using confirmed_not_queued [OF inv p] txm_with_store(3) [OF inv, of "OpReorg i"] by simp
  ultimately have "txm_inv E (fst (try_send E (inf_Tx p) ?u))"
    using txm_inv_try_send chk by (auto simp: checked_def)
  then show "checked E a i Reorg t (fst (try_send E (inf_Tx p) ?u))"
    using chk by (simp add: checked_def state_of_def)
qed

lemma finalize_one_checked:
  assumes inv: "txm_inv E t" and p: "confirmed_in (state_of t) a p"
    and g: "gone E (inf_Hash p) (world t) = Done (w, b)"
  shows "\<exists>t'. finalize_one E a p t = Done t'
    \<and> checked E a (ID (objects t (inf_Tx p))) (if b then Reorg else Finalize) t t'"
proof -
  let ?i = "ID (objects t (inf_Tx p))" and ?t = "t\<lparr>world := w\<rparr>"
  have inv': "txm_inv E ?t" and p': "confirmed_in (state_of ?t) a p" using inv p by (simp_all add: state_of_def)
  show ?thesis
  proof (cases b)
    case True
    then show ?thesis using g reorg_checked [OF inv' p', of ?i]
      by (auto simp: finalize_one_def Let_def split_beta checked_world)
  next
    case False
    obtain w' now where n: "time_Now E w = (w', now)" by fastforce
    have "txm_inv E (?t\<lparr>world := w'\<rparr>)" using inv by simp
    from with_store_checked [OF this, of "OpFinalized now ?i" "OnFinalized now ?i" ?i a]
    have "checked E a ?i Finalize t (fst (with_store a (OnFinalized now ?i) (?t\<lparr>world := w'\<rparr>)))"
      by (simp add: checked_world)
    then show ?thesis using False g n by (simp add: finalize_one_def)
  qed
qed

subsection \<open>The two loops against a node that answers\<close>

lemma reported_ok:
  "reported ev E a i t t' \<Longrightarrow> txm_inv E t' \<and> only_touches a i (state_of t) (state_of t')"
  by (cases ev) (auto simp: reported_def checked_def)

locale node_reads =
  fixes E :: "'w Env"
  assumes info_full: "call_ok (GetTransactionInfoByIdFullNode (client E) x)"
    and info: "call_ok (GetTransactionInfoById (client E) x)"
    and now_block: "call_ok (GetNowBlockFullNode (client E))"
begin

lemma check_one_ok:
  assumes "txm_inv E t" and "unconfirmed_in (state_of t) a p"
  shows "\<exists>t'. check_one E a ts p t = Done t' \<and> txm_inv E t'
    \<and> only_touches a (ID (objects t (inf_Tx p))) (state_of t) (state_of t')"
proof -
  obtain w inf err where "GetTransactionInfoByIdFullNode (client E) (inf_Hash p) (world t) = Done (w, inf, err)"
    "err = None \<longrightarrow> inf \<noteq> None"
    using info_full [of "inf_Hash p"] unfolding call_ok_def by blast
  from check_one_reported [OF assms this] show ?thesis using reported_ok by blast
qed

lemma reorg_retries_ok: "\<exists>w' b. reorg_retries E x n w = Done (w', b)"
proof (induction n arbitrary: w)
  case (Suc n)
  obtain w1 r e where "GetTransactionInfoByIdFullNode (client E) x (time_Sleep E REORG_RETRY_DELAY w) = Done (w1, r, e)"
    using info_full [of x] unfolding call_ok_def by blast
  then show ?case using Suc [of w1] by (cases e) auto
qed (auto intro: exI [of _ True])

lemma gone_ok: "\<exists>w' b. gone E x w = Done (w', b)"
proof -
  obtain w1 r e where 1: "GetTransactionInfoById (client E) x w = Done (w1, r, e)"
    using info [of x] unfolding call_ok_def by blast
  obtain w2 r' e' where "GetTransactionInfoByIdFullNode (client E) x w1 = Done (w2, r', e')"
    using info_full [of x] unfolding call_ok_def by blast
  then show ?thesis using 1 reorg_retries_ok by (auto simp: gone_def checkReorged_def)
qed

lemma finalize_one_ok:
  assumes "txm_inv E t" and "confirmed_in (state_of t) a p"
  shows "\<exists>t'. finalize_one E a p t = Done t' \<and> txm_inv E t'
    \<and> only_touches a (ID (objects t (inf_Tx p))) (state_of t) (state_of t')"
  using gone_ok [of "inf_Hash p" "world t"] finalize_one_checked [OF assms] by (auto simp: checked_def)

end

sublocale node_reads \<subseteq> confirming: snapshot_loop E unconfirmed_in "\<lambda>a. check_one E a ts"
  for ts
  by unfold_locales (use in_table_unconfirmed check_one_ok in auto)

sublocale node_reads \<subseteq> finalizing: snapshot_loop E confirmed_in "finalize_one E"
  by unfold_locales (use in_table_confirmed finalize_one_ok in auto)

context node_reads
begin

lemma check_account_todo:
  assumes "todo E unconfirmed_in ((a, ps) # xs) t"
  shows "\<exists>t'. check_account E (a, ps) t = Done t' \<and> todo E unconfirmed_in xs t'"
proof -
  obtain w b err where b: "GetNowBlockFullNode (client E) (world t) = Done (w, b, err)" "err = None \<longrightarrow> b \<noteq> None"
    using now_block unfolding call_ok_def by blast
  have "todo E unconfirmed_in xs t" using assms by (simp add: todo_def)
  then have "todo E unconfirmed_in ((a, ps) # xs) (t\<lparr>world := w\<rparr>)" "todo E unconfirmed_in xs (t\<lparr>world := w\<rparr>)"
    using assms by (simp_all add: todo_world)
  then show ?thesis using b confirming.bodies_todo
    by (cases err; cases "Option.bind (BlockHeader_of (the b)) bh_RawData") (auto simp: check_account_def)
qed

lemma checkUnconfirmed_ok:
  assumes "txm_inv E t" and "distinct accs" and "\<And>a. distinct (ids a)"
  shows "\<exists>t'. checkUnconfirmed E accs ids t = Done t' \<and> txm_inv E t'"
  unfolding checkUnconfirmed_def
proof (rule accounts_todo [where tab = unconfirmed_in])
  show "todo E unconfirmed_in (entries accs (GetAllUnconfirmed ids (accounts t))) t"
    using assms by (rule unconfirmed_snapshot)
qed (rule check_account_todo)

lemma finalize_account_todo:
  assumes "todo E confirmed_in ((a, ps) # xs) t"
  shows "\<exists>t'. (\<lambda>(acc, confirmedTxs) t. for_range (finalize_one E acc) confirmedTxs (touch_store acc t)) (a, ps) t = Done t'
    \<and> todo E confirmed_in xs t'"
proof -
  have "todo E confirmed_in ((a, ps) # xs) (touch_store a t)" by (rule todo_touch [OF in_table_confirmed assms])
  then show ?thesis using finalizing.bodies_todo by simp
qed

lemma checkFinalized_ok:
  assumes "txm_inv E t" and "distinct accs" and "\<And>a. distinct (ids a)"
  shows "\<exists>t'. checkFinalized E accs ids t = Done t' \<and> txm_inv E t'"
  unfolding checkFinalized_def
proof (rule accounts_todo [where tab = confirmed_in])
  show "todo E confirmed_in (entries accs (GetAllConfirmed ids (accounts t))) t"
    using assms by (rule confirmed_snapshot)
qed (rule finalize_account_todo)

end

end
