(* ===== verification/Txm_Machine.thy ===== *)
theory Txm_Machine
  imports Txm_Steps
begin

text \<open>
  The transaction manager as a state machine: enqueueing, receiving, broadcasting, checking,
  finalizing and reaping as steps that interleave in any order, and the invariant over all
  reachable states.
\<close>

subsection \<open>Enqueue\<close>

lemma account_inv_heap:
  assumes "account_inv owner (h, c)" and "\<And>a s r. store c a = Some s \<Longrightarrow> r \<in> store_refs s \<Longrightarrow> h' r = h r"
  shows "account_inv owner (h', c)"
proof -
  have "store_inv (h', s) \<and> owned_by owner h' a s" if "store c a = Some s" for a s
    using account_invD [OF assms(1) that] assms(2) [OF that] store_inv_heap_cong [of s h' h]
    by (auto simp: owned_by_def)
  then show ?thesis by (simp add: account_inv_def)
qed

lemma counters_ok_new [simp]: "counters_ok (new_tx req i now)"
  by (simp add: counters_ok_def new_tx_def)

text \<open>A fresh object added to the heap is referred to by nothing.\<close>

lemma txm_inv_alloc:
  assumes "txm_inv E t"
  shows "txm_inv E (t\<lparr>world := w, next_object := Suc (next_object t), objects := (objects t)(next_object t := tx)\<rparr>)"
proof -
  note I = txm_invD [OF assms]
  let ?h = "(objects t)(next_object t := tx)"
  have same: "?h r = objects t r" if "store (accounts t) a = Some s" "r \<in> store_refs s" for a s r
    using tracked_okD [OF I(2) that] by simp
  have "account_inv (owner_of E) (?h, accounts t)" by (rule account_inv_heap [OF I(1) same])
  moreover have "tracked_ok (Suc (next_object t)) (?h, accounts t)"
    using I(2) by (fastforce simp: tracked_ok_def)
  moreover have "pending_in (owner_of E) (?h, accounts t) r" if "r \<in> set (queue t)" for r
    using I(4) [OF that] pending_in_tracked [OF I(2) I(4) [OF that]] by (auto simp: pending_in_def)
  ultimately show ?thesis using I(3,5) by (auto simp: txm_inv_def state_of_def queue_def)
qed

definition submitted :: "'w Env \<Rightarrow> TronTxmRequest \<Rightarrow> string \<Rightarrow> 'w txm \<Rightarrow> 'w txm \<Rightarrow> bool" where
  "submitted E req i t t' \<longleftrightarrow> txm_inv E t'
     \<and> account_status (state_of t') =
         (account_status (state_of t))((owner_of E (req_FromAddress req), i) \<mapsto> Pending)"

text \<open>The new object is the request's transaction.\<close>

definition made_from :: "TronTxmRequest \<Rightarrow> TronTx \<Rightarrow> bool" where
  "made_from req tx \<longleftrightarrow> FromAddress tx = req_FromAddress req \<and> ContractAddress tx = req_ContractAddress req
     \<and> Method tx = req_Method req \<and> Params tx = req_Params req"

lemma account_status_heap:
  assumes "\<And>a s r. store c a = Some s \<Longrightarrow> r \<in> store_refs s \<Longrightarrow> h' r = h r"
  shows "account_status (h', c) = account_status (h, c)"
proof
  fix k :: "string \<times> string"
  obtain a i where k: "k = (a, i)" by (cases k)
  show "account_status (h', c) k = account_status (h, c) k"
    using assms by (cases "store c a") (auto simp: k intro: status_heap_cong)
qed

lemma submit_ok:
  assumes inv: "txm_inv E t" and new: "account_status (state_of t) (owner_of E (req_FromAddress req), i) = None"
  shows "\<exists>t' err. submit E req i t = Done (t', err) \<and> submitted E req i t t'
    \<and> err = (if length (BroadcastChan t) < BroadcastChanSize (config E) then None else Some ChannelFull)
    \<and> BroadcastChan t' = BroadcastChan t @ (if err = None then [next_object t] else [])
    \<and> made_from req (objects t' (next_object t))"
proof -
  obtain w now where n: "time_Now E (world t) = (w, now)" by fastforce
  let ?r = "next_object t" and ?a = "owner_of E (req_FromAddress req)" and ?tx = "new_tx req i now"
  let ?t = "t\<lparr>world := w, next_object := Suc ?r, objects := (objects t)(?r := ?tx)\<rparr>"
  have inv1: "txm_inv E ?t" by (rule txm_inv_alloc [OF inv])
  note I = txm_invD [OF inv] and I1 = txm_invD [OF inv1]
  have same: "objects ?t r = objects t r" if "store (accounts t) a = Some s" "r \<in> store_refs s" for a s r
    using tracked_okD [OF I(2) that] by simp
  have status1: "account_status (state_of ?t) = account_status (state_of t)"
    unfolding state_of_def by (simp, rule account_status_heap) (use same in simp)
  let ?s = "snd (GetTxStore ?a (accounts t))"
  have st: "GetStatus i (objects ?t, ?s) = None"
    using new status1 account_status_GetTxStore [of i "objects ?t" ?a "accounts t"]
    by (simp add: state_of_def del: account_status.simps)
  have si: "store_inv (objects ?t, ?s)"
    using GetTxStore_inv(3) [OF I1(1), of ?a "fst (GetTxStore ?a (accounts t))" ?s] by simp
  have notHas: "\<not> Has i ?s"
    using st by (auto simp: Has_def GetStatus_def split: option.splits)
  have al: "account_allowed (owner_of E) (?a, OpPending ?r) (objects ?t, accounts ?t)"
    using notHas by (simp add: new_tx_def)
  have newok: "r < next_object ?t \<and> counters_ok (objects ?t r)" if "r \<in> new_refs (OpPending ?r)" for r
    using that by simp
  have tgt: "store_target (OpPending ?r) (objects ?t, ?s) = i" by (simp add: new_tx_def)
  obtain h c s' err where res: "with_store_outcome ?a (call_store (OpPending ?r)) ?t = Done (?t\<lparr>objects := h, accounts := c\<rparr>, err)"
    "account_inv (owner_of E) (h, c)" "tracked_ok (Suc ?r) (h, c)"
    "call_store (OpPending ?r) (objects ?t, ?s) = Done ((h, s'), err)"
    "store c = (store (accounts t))(?a \<mapsto> s')"
    "\<And>r. ID (h r) = ID (objects ?t r) \<and> FromAddress (h r) = FromAddress (objects ?t r)"
    "account_status (h, c) = spec_status Submit (?a, i) (account_status (objects ?t, accounts ?t))"
    using store_call [OF I1(1,2) al newok] tgt
    by (auto simp del: call_store.simps account_status.simps store_target.simps)
  have call: "h = objects ?t" "s' = ?s\<lparr>pendingTxs := (pendingTxs ?s)(i \<mapsto> ?r)\<rparr>"
    using res(4) store_inv_OnPending(1) [OF si, of ?r] notHas by (auto simp: new_tx_def)
  let ?u = "?t\<lparr>objects := h, accounts := c\<rparr>"
  have pend: "pending_in (owner_of E) (h, c) r" if "r \<in> set (queue t)" for r
  proof (rule pending_in_call [OF I1(1) _ _ _ _ _])
    show "store_allowed (OpPending ?r) (objects ?t, snd (GetTxStore ?a (accounts ?t)))" using al by simp
    show "pending_in (owner_of E) (objects ?t, accounts ?t) r" using I1(4) that by (simp add: queue_def)
  qed (use res(4,5,6) in auto)
  have inv2: "txm_inv E ?u"
    using res(2,3) pend I(3,5) by (auto simp: txm_inv_def state_of_def queue_def)
  have pr: "pending_in (owner_of E) (state_of ?u) ?r"
    using call res(5) by (auto simp: pending_in_def state_of_def new_tx_def)
  have nq: "?r \<notin> set (queue ?u)"
    using pending_in_tracked [OF I(2) I(4)] by (force simp: queue_def)
  have inv3: "txm_inv E (fst (try_send E ?r ?u))" by (rule txm_inv_try_send [OF inv2 pr nq])
  have "account_status (h, c) = (account_status (state_of t))((?a, i) \<mapsto> Pending)"
    using res(7) status1 new by (simp add: spec_status_def state_of_def del: account_status.simps)
  then have "submitted E req i t (fst (try_send E ?r ?u))"
    using inv3 by (simp add: submitted_def state_of_def del: account_status.simps)
  moreover have call_eq: "call_store (OpPending ?r) = OnPending ?r False" by (simp add: fun_eq_iff)
  moreover have "submit E req i t = Done (fst (try_send E ?r ?u), if snd (try_send E ?r ?u) then None else Some ChannelFull)"
    using res(1) n call_eq by (simp add: submit_def owner_of_def split_beta Let_def)
  moreover have "made_from req (objects (fst (try_send E ?r ?u)) ?r)"
    using call(1) by (simp add: made_from_def new_tx_def try_send_def)
  ultimately show ?thesis by (auto simp: try_send_def)
qed

lemma touch_store_status [simp]: "account_status (state_of (touch_store a t)) = account_status (state_of t)"
proof
  fix k :: "string \<times> string"
  obtain b i where k: "k = (b, i)" by (cases k)
  have "snd (GetTxStore b (fst (GetTxStore a (accounts t)))) = snd (GetTxStore b (accounts t))"
    by (auto simp: GetTxStore_def split: option.splits)
  then show "account_status (state_of (touch_store a t)) k = account_status (state_of t) k"
    unfolding k state_of_def touch_store_def account_status_GetTxStore [symmetric] by simp
qed

lemma touch_store_fields [simp]:
  "BroadcastChan (touch_store a t) = BroadcastChan t" "received (touch_store a t) = received t"
  "next_object (touch_store a t) = next_object t" "world (touch_store a t) = world t"
  "objects (touch_store a t) = objects t"
  by (simp_all add: touch_store_def)

lemma Has_status:
  "Has i (snd (GetTxStore a (accounts t))) \<longleftrightarrow> account_status (state_of t) (a, i) \<noteq> None"
  using status_untracked [of "objects t" "snd (GetTxStore a (accounts t))" i]
  unfolding state_of_def account_status_GetTxStore [symmetric] by (simp add: status_def)

text \<open>What a request is refused for before the stores are looked at.\<close>

definition refused :: "'w Env \<Rightarrow> TronTxmRequest \<Rightarrow> 'w \<Rightarrow> enqueue_error option" where
  "refused E req w = (case snd (keystore_Sign E (owner_of E (req_FromAddress req)) [] w) of
     Inl e \<Rightarrow> Some (SignFailed e)
   | Inr _ \<Rightarrow> if length (req_Params req) mod 2 = 1 then Some OddNumberOfParams
       else if \<not> param_types_ok (req_Params req) then Some NonStringParamType else None)"

text \<open>The ID the transaction gets: the one of the request, or a new UUID.\<close>

definition request_id :: "'w Env \<Rightarrow> TronTxmRequest \<Rightarrow> 'w \<Rightarrow> string" where
  "request_id E req w = (if req_ID req = []
     then snd (uuid_New E (fst (keystore_Sign E (owner_of E (req_FromAddress req)) [] w))) else req_ID req)"

definition untouched :: "'w txm \<Rightarrow> 'w txm \<Rightarrow> bool" where
  "untouched t t' \<longleftrightarrow> account_status (state_of t') = account_status (state_of t) \<and> queue t' = queue t
     \<and> BroadcastChan t' = BroadcastChan t"

lemma Enqueue_refused:
  assumes "txm_inv E t" and "refused E req (world t) = Some e"
  shows "\<exists>t'. Enqueue E req t = Done (t', Some e) \<and> txm_inv E t' \<and> untouched t t'"
  using assms
  by (auto simp: refused_def Enqueue_def owner_of_def untouched_def state_of_def queue_def Let_def
      split: prod.splits sum.splits if_splits simp del: account_status.simps)

lemma Enqueue_known:
  assumes inv: "txm_inv E t" and "refused E req (world t) = None" and id: "req_ID req \<noteq> []"
    and "account_status (state_of t) (owner_of E (req_FromAddress req), req_ID req) \<noteq> None"
  shows "\<exists>t'. Enqueue E req t = Done (t', None) \<and> txm_inv E t' \<and> untouched t t'"
proof -
  let ?a = "owner_of E (req_FromAddress req)"
  obtain w sg where k: "keystore_Sign E ?a [] (world t) = (w, sg)" by fastforce
  let ?t = "touch_store ?a (t\<lparr>world := w\<rparr>)"
  have inv': "txm_inv E ?t" by (rule touch_store_inv) (simp add: inv)
  have "Has (req_ID req) (snd (GetTxStore ?a (accounts t)))" using assms(4) by (simp add: Has_status del: account_status.simps)
  then have "Enqueue E req t = Done (?t, None)"
    using assms(2) id k
    by (auto simp: refused_def Enqueue_def owner_of_def touch_store_def Let_def split_beta
        split: sum.splits if_splits)
  moreover have "untouched t ?t" by (simp add: untouched_def queue_def) (simp add: state_of_def)
  ultimately show ?thesis using inv' by blast
qed

lemma Enqueue_new:
  assumes inv: "txm_inv E t" and ok: "refused E req (world t) = None"
    and new: "account_status (state_of t) (owner_of E (req_FromAddress req), request_id E req (world t)) = None"
  shows "\<exists>t' err. Enqueue E req t = Done (t', err) \<and> submitted E req (request_id E req (world t)) t t'
    \<and> err = (if length (BroadcastChan t) < BroadcastChanSize (config E) then None else Some ChannelFull)
    \<and> BroadcastChan t' = BroadcastChan t @ (if err = None then [next_object t] else [])
    \<and> made_from req (objects t' (next_object t))"
proof -
  let ?a = "owner_of E (req_FromAddress req)" and ?i = "request_id E req (world t)"
  obtain w sg where k: "keystore_Sign E ?a [] (world t) = (w, sg)" by fastforce
  obtain u where u: "Enqueue E req t = submit E req ?i u" "txm_inv E u"
    "account_status (state_of u) = account_status (state_of t)" "BroadcastChan u = BroadcastChan t"
    "next_object u = next_object t"
  proof (cases "req_ID req = []")
    case True
    obtain w' i where n: "uuid_New E w = (w', i)" by fastforce
    show thesis
      using True ok k n inv
      by (intro that [of "t\<lparr>world := w'\<rparr>"])
        (auto simp: refused_def request_id_def Enqueue_def owner_of_def state_of_def Let_def
          split: sum.splits if_splits simp del: account_status.simps)
  next
    case False
    let ?t = "touch_store ?a (t\<lparr>world := w\<rparr>)"
    have "\<not> Has (req_ID req) (snd (GetTxStore ?a (accounts t)))"
      using new False by (simp add: request_id_def Has_status del: account_status.simps)
    then have "Enqueue E req t = submit E req ?i ?t"
      using ok False k
      by (auto simp: refused_def request_id_def Enqueue_def owner_of_def touch_store_def Let_def split_beta
          split: sum.splits if_splits)
    moreover have "txm_inv E ?t" by (rule touch_store_inv) (simp add: inv)
    ultimately show thesis
      by (intro that [of ?t]) (simp_all, simp add: state_of_def)
  qed
  show ?thesis
    using submit_ok [OF u(2), of req ?i] new u by (auto simp: submitted_def)
qed

text \<open>Every call of \<open>Enqueue\<close>; a new UUID is one the store of the account does not know.\<close>

definition uuid_fresh :: "'w Env \<Rightarrow> TronTxmRequest \<Rightarrow> 'w txm \<Rightarrow> bool" where
  "uuid_fresh E req t \<longleftrightarrow> (req_ID req = [] \<longrightarrow>
     account_status (state_of t) (owner_of E (req_FromAddress req), request_id E req (world t)) = None)"

lemma Enqueue_ok:
  assumes "txm_inv E t" and "uuid_fresh E req t"
  shows "\<exists>t' err. Enqueue E req t = Done (t', err) \<and> txm_inv E t'
    \<and> (untouched t t' \<or> submitted E req (request_id E req (world t)) t t'
        \<and> account_status (state_of t) (owner_of E (req_FromAddress req), request_id E req (world t)) = None)"
proof (cases "refused E req (world t)")
  case (Some e)
  then show ?thesis using Enqueue_refused [OF assms(1)] by blast
next
  case None
  show ?thesis
  proof (cases "account_status (state_of t) (owner_of E (req_FromAddress req), request_id E req (world t))")
    case None
    from Enqueue_new [OF assms(1) \<open>refused E req (world t) = None\<close> this] this show ?thesis
      by (auto simp: submitted_def)
  next
    case (Some st)
    then have "req_ID req \<noteq> []" using assms(2) by (auto simp: uuid_fresh_def)
    then show ?thesis using Enqueue_known [OF assms(1) None] Some by (auto simp: request_id_def)
  qed
qed

subsection \<open>Broadcast\<close>

text \<open>Preparing a transaction talks to the node and may turn the estimate off; nothing else changes.\<close>

definition only_env :: "'w txm \<Rightarrow> 'w txm \<Rightarrow> bool" where
  "only_env t t' \<longleftrightarrow> (\<exists>w b. t' = t\<lparr>world := w, EstimateEnergyEnabled := b\<rparr>)"

lemma only_env_trans: "only_env t t' \<Longrightarrow> only_env t' t'' \<Longrightarrow> only_env t t''"
  by (auto simp: only_env_def) (metis (no_types, lifting) txm.cases txm.update_convs(6,7))

lemma only_env_refl [simp]: "only_env t t"
  unfolding only_env_def by (rule exI [of _ "world t"], rule exI [of _ "EstimateEnergyEnabled t"]) simp

lemma only_env_world [simp]: "only_env t (t\<lparr>world := w\<rparr>)"
  unfolding only_env_def by (rule exI [of _ w], rule exI [of _ "EstimateEnergyEnabled t"]) simp

lemma only_env_off [simp]: "only_env t (t\<lparr>EstimateEnergyEnabled := b\<rparr>)"
  unfolding only_env_def by (rule exI [of _ "world t"], rule exI [of _ b]) simp

lemma only_env_inv:
  assumes "only_env t t'"
  shows "txm_inv E t' = txm_inv E t" "state_of t' = state_of t" "queue t' = queue t" "next_object t' = next_object t"
    "BroadcastChan t' = BroadcastChan t" "received t' = received t"
  using assms by (auto simp: only_env_def state_of_def queue_def)

lemma estimate_by_call_env: "estimate_by_call E tx t = Done (t', x) \<Longrightarrow> only_env t t'"
  by (cases "TriggerConstantContractFullNode (client E) (FromAddress tx) (ContractAddress tx) (Method tx)
        (Params tx) (world t)")
    (auto simp: estimate_by_call_def Let_def split: prod.splits option.splits if_splits)

lemma estimateEnergy_env: "estimateEnergy E tx t = Done (t', x) \<Longrightarrow> only_env t t'"
  by (cases "EstimateEnergy (client E) (FromAddress tx) (ContractAddress tx) (Method tx) (Params tx) 0 (world t)")
    (auto simp: estimateEnergy_def Let_def split: prod.splits option.splits if_splits
      dest!: estimate_by_call_env intro: only_env_trans [OF only_env_world]
        only_env_trans [OF only_env_trans [OF only_env_world only_env_off]])

lemma energy_unit_price_env: "energy_unit_price E t = Done (t', x) \<Longrightarrow> only_env t t'"
  by (cases "GetEnergyPrices (client E) (world t)")
    (auto simp: energy_unit_price_def Let_def split: option.splits prod.splits)

lemma calculateFeeLimit_env:
  assumes "calculateFeeLimit E tx t = Done (t', x)"
  shows "only_env t t'"
proof -
  obtain t1 en where en: "estimateEnergy E tx t = Done (t1, en)"
    using assms by (auto simp: calculateFeeLimit_def outcome_bind_eq_Done)
  note e = estimateEnergy_env [OF en]
  show ?thesis
  proof (cases en)
    case (Inl err)
    then show ?thesis using assms en e by (simp add: calculateFeeLimit_def)
  next
    case (Inr n)
    then obtain t2 v where v: "energy_unit_price E t1 = Done (t2, v)"
      using assms en by (auto simp: calculateFeeLimit_def outcome_bind_eq_Done)
    then show ?thesis using assms en Inr only_env_trans [OF e energy_unit_price_env [OF v]]
      by (simp add: calculateFeeLimit_def)
  qed
qed

lemma prepare_env:
  assumes "prepare E tx t = Done (t', x)"
  shows "only_env t t'"
proof -
  obtain t1 fee where f: "calculateFeeLimit E tx t = Done (t1, fee)"
    using assms by (auto simp: prepare_def outcome_bind_eq_Done)
  note e = calculateFeeLimit_env [OF f]
  show ?thesis
  proof (cases fee)
    case (Inl err)
    then show ?thesis using assms f e by (simp add: prepare_def)
  next
    case (Inr lim)
    then obtain w ref where ref: "computeRefBlockBytesAndHash E (world t1) = Done (w, ref)"
      using assms f by (auto simp: prepare_def outcome_bind_eq_Done)
    have "\<exists>w. t' = t1\<lparr>world := w\<rparr>"
      using assms f Inr ref
      by (cases ref) (auto simp: prepare_def Let_def outcome_bind_eq_Done split: prod.splits)
    then show ?thesis using only_env_trans [OF e only_env_world] by auto
  qed
qed

text \<open>Entering a broadcast, or the attempt to mark a pending transaction as fatally errored.\<close>

lemma OnFatalError_pending:
  "store_inv (h, s) \<Longrightarrow> pendingTxs s i = Some r \<Longrightarrow>
     OnFatalError now i (h, s) = ((h, s), Some (NoSuchUnconfirmedOrConfirmed i))"
  using pending_facts(3,4) [of h s i r] by (simp add: OnFatalError_def)

lemma with_store_unchanged:
  assumes "store (accounts t) a = Some s" and "f (objects t, s) = ((objects t, s), e)"
  shows "fst (with_store a f t) = t"
proof -
  have "(accounts t)\<lparr>store := (store (accounts t))(a \<mapsto> s)\<rparr> = accounts t" using assms(1) by (simp add: fun_upd_idem)
  then show ?thesis
    using assms by (simp add: with_store_def on_store_def GetTxStore_existing put_store_def)
qed

lemma broadcast_recorded:
  assumes inv: "txm_inv E t" and p: "pending_in (owner_of E) (state_of t) r" and q: "r \<notin> set (queue t)"
    and a: "a = owner_of E (FromAddress (objects t r))"
    and fresh: "\<And>s. store (accounts t) a = Some s \<Longrightarrow> hash_fresh s x"
  shows "txm_inv E (fst (with_store a (OnBroadcasted x e r) t))
    \<and> (account_status (state_of (fst (with_store a (OnBroadcasted x e r) t))) =
         (if \<exists>s. store (accounts t) a = Some s \<and> hashToId s x = None
          then spec_status Broadcast (a, ID (objects t r)) (account_status (state_of t))
          else account_status (state_of t)))"
proof -
  note I = txm_invD [OF inv]
  obtain s where s: "store (accounts t) a = Some s" "pendingTxs s (ID (objects t r)) = Some r"
    using p a by (auto simp: pending_in_def state_of_def)
  show ?thesis
  proof (cases "hashToId s x")
    case (Some j)
    then have "fst (with_store a (OnBroadcasted x e r) t) = t"
      by (intro with_store_unchanged [OF s(1)]) (simp add: OnBroadcasted_def)
    then show ?thesis using inv Some s(1) by simp
  next
    case None
    let ?x = "OpBroadcasted x e r"
    have G: "snd (GetTxStore a (accounts t)) = s" using s(1) by (simp add: GetTxStore_existing)
    have al: "account_allowed (owner_of E) (a, ?x) (objects t, accounts t)"
      using s None fresh [OF s(1)] G by simp
    obtain h c s' err where res: "with_store_outcome a (call_store ?x) t = Done (t\<lparr>objects := h, accounts := c\<rparr>, err)"
      "account_inv (owner_of E) (h, c)" "tracked_ok (next_object t) (h, c)"
      "call_store ?x (objects t, snd (GetTxStore a (accounts t))) = Done ((h, s'), err)"
      "store c = (store (accounts t))(a \<mapsto> s')"
      "\<And>r. ID (h r) = ID (objects t r) \<and> FromAddress (h r) = FromAddress (objects t r)"
      "account_status (h, c) = spec_status (store_event ?x)
          (a, store_target ?x (objects t, snd (GetTxStore a (accounts t)))) (account_status (objects t, accounts t))"
      using store_call [OF I(1,2) al] by auto
    have "pending_in (owner_of E) (h, c) r'" if r': "r' \<in> set (queue t)" for r'
    proof (rule pending_in_call [OF I(1) _ res(4,5,6) I(4) [OF r']])
      show "store_allowed ?x (objects t, snd (GetTxStore a (accounts t)))" using al by simp
      fix y e' r1
      assume "?x = OpBroadcasted y e' r1"
      then have "r1 = r" by simp
      have "r' \<noteq> r" using q r' by blast
      then show "ID (objects t r1) \<noteq> ID (objects t r') \<or> owner_of E (FromAddress (objects t r')) \<noteq> a"
        using I(4) [OF r'] s \<open>r1 = r\<close> by (auto simp: pending_in_def)
    qed
    then have "txm_inv E (t\<lparr>objects := h, accounts := c\<rparr>)"
      using res(2,3) I(3,5) by (auto simp: txm_inv_def state_of_def queue_def)
    moreover have "fst (with_store a (OnBroadcasted x e r) t) = t\<lparr>objects := h, accounts := c\<rparr>"
      using res(1) with_store_call [of ?x "OnBroadcasted x e r" a t] by simp
    ultimately show ?thesis using res(7) s(1) None
      by (auto simp: state_of_def simp del: account_status.simps)
  qed
qed

text \<open>
  The outcomes of \<open>send\<close>: recorded as broadcast; or the broadcast has failed, and as the transaction
  is pending \<open>OnFatalError\<close> refuses it and nothing changes but the environment.
\<close>

lemma send_cases:
  assumes inv: "txm_inv E t" and p: "pending_in (owner_of E) (state_of t) r"
    and run: "send E r coreTx t = Some (Done t')"
  shows "(\<exists>w. t' = t\<lparr>world := w\<rparr>) \<or>
    (\<exists>w. t' = fst (with_store (owner_of E (FromAddress (objects t r)))
       (OnBroadcasted (TxID coreTx) (rd_Expiration (RawData_of coreTx)) r) (t\<lparr>world := w\<rparr>)))"
proof -
  let ?a = "owner_of E (FromAddress (objects t r))"
  note I = txm_invD [OF inv]
  obtain s where s: "store (accounts t) ?a = Some s" "pendingTxs s (ID (objects t r)) = Some r"
    using p by (auto simp: pending_in_def state_of_def)
  have touch: "touch_store ?a t = t" using s(1) by (simp add: touch_store_def GetTxStore_existing)
  obtain w resp err where sb: "SignAndBroadcast E (FromAddress (objects t r)) coreTx (world t) = Some (Done (w, resp, err))"
    using run touch by (auto simp: send_def Let_def owner_of_def outcome_bind_eq_Done)
  show ?thesis
  proof (cases err)
    case None
    then show ?thesis using run touch sb by (auto simp: send_def Let_def owner_of_def)
  next
    case (Some e)
    obtain w' now where n: "time_Now E w = (w', now)" by fastforce
    have "fst (with_store ?a (OnFatalError now (ID (objects t r))) (t\<lparr>world := w'\<rparr>)) = t\<lparr>world := w'\<rparr>"
      using s OnFatalError_pending [OF account_invD(1) [OF I(1) s(1)] s(2)]
      by (intro with_store_unchanged [of _ _ s]) auto
    then show ?thesis using run touch sb Some n by (auto simp: send_def Let_def owner_of_def)
  qed
qed

lemma broadcast_one_ok:
  assumes inv: "txm_inv E t" and p: "pending_in (owner_of E) (state_of t) r" and q: "r \<notin> set (queue t)"
    and run: "broadcast_one E r t = Some (Done t')"
    and fresh: "\<And>t1 coreTx s. prepare E (objects t r) t = Done (t1, Prepared coreTx) \<Longrightarrow>
        store (accounts t) (owner_of E (FromAddress (objects t r))) = Some s \<Longrightarrow> hash_fresh s (TxID coreTx)"
  shows "txm_inv E t' \<and> account_status (state_of t') \<in>
      {account_status (state_of t),
       spec_status Broadcast (owner_of E (FromAddress (objects t r)), ID (objects t r)) (account_status (state_of t))}"
proof -
  obtain t1 x where pr: "prepare E (objects t r) t = Done (t1, x)"
    using run by (cases "prepare E (objects t r) t") (auto simp: broadcast_one_def)
  note env = only_env_inv [OF prepare_env [OF pr]]
  have inv1: "txm_inv E t1" using inv env by simp
  show ?thesis
  proof (cases x)
    case NotPrepared
    then show ?thesis using run pr inv1 env by (simp add: broadcast_one_def del: account_status.simps)
  next
    case (Prepared coreTx)
    have obj: "objects t1 = objects t" "accounts t1 = accounts t" using env(2) by (auto simp: state_of_def)
    have p1: "pending_in (owner_of E) (state_of t1) r" using p env by simp
    have q1: "r \<notin> set (queue t1)" using q env by simp
    have "send E r coreTx t1 = Some (Done t')" using run pr Prepared by (simp add: broadcast_one_def)
    from send_cases [OF inv1 p1 this] show ?thesis
    proof (elim disjE exE)
      fix w assume "t' = t1\<lparr>world := w\<rparr>"
      then show ?thesis using inv1 env by (simp add: state_of_def del: account_status.simps)
    next
      fix w
      let ?u = "t1\<lparr>world := w\<rparr>"
      assume t': "t' = fst (with_store (owner_of E (FromAddress (objects t1 r)))
          (OnBroadcasted (TxID coreTx) (rd_Expiration (RawData_of coreTx)) r) ?u)"
      have i: "txm_inv E ?u" "pending_in (owner_of E) (state_of ?u) r" "r \<notin> set (queue ?u)"
        using inv1 p1 q1 by (simp_all add: state_of_def queue_def)
      have f: "hash_fresh s (TxID coreTx)" if "store (accounts ?u) (owner_of E (FromAddress (objects t r))) = Some s" for s
        using that fresh pr Prepared obj by simp
      show ?thesis
        using broadcast_recorded [OF i refl f] obj env(2) t'
        by (auto simp: state_of_def simp del: account_status.simps split: if_splits)
    qed
  qed
qed

subsection \<open>Reap\<close>

lemma DeleteFinishedTxs_append:
  "fst (DeleteFinishedTxs (xs @ ys) s) = fst (DeleteFinishedTxs ys (fst (DeleteFinishedTxs xs s)))"
  by (induction xs arbitrary: s) (auto simp: split_beta Let_def split: option.splits)

lemma DeleteAllFinishedTxs_stores:
  "store (fst (DeleteAllFinishedTxs xs c)) a = None \<and> store c a = None \<or>
   (\<exists>s is. store c a = Some s \<and> store (fst (DeleteAllFinishedTxs xs c)) a = Some (fst (DeleteFinishedTxs is s)))"
proof (induction xs arbitrary: c)
  case Nil
  have "s = fst (DeleteFinishedTxs [] s)" for s by simp
  then show ?case by (cases "store c a") (auto intro: exI [of _ "[]"])
next
  case (Cons x xs)
  show ?case
  proof (cases "store c (fst x)")
    case None
    then show ?thesis using Cons by (simp add: DeleteAllFinishedTxs_Cons)
  next
    case (Some s)
    let ?c = "c\<lparr>store := (store c)(fst x \<mapsto> fst (DeleteFinishedTxs (snd x) s))\<rparr>"
    have e: "fst (DeleteAllFinishedTxs (x # xs) c) = fst (DeleteAllFinishedTxs xs ?c)"
      using Some by (simp add: DeleteAllFinishedTxs_Cons)
    from Cons [of ?c] show ?thesis
      unfolding e using Some DeleteFinishedTxs_append [symmetric, of _ "snd x" s] by (auto split: if_splits)
  qed
qed

lemma store_refs_reap: "store_refs (fst (DeleteFinishedTxs is s)) \<subseteq> store_refs s"
  using DeleteFinishedTxs_tables [of "is" s] by (auto simp: store_refs_def dest!: ran_restrictD intro: ranI)

lemma account_status_reap:
  assumes "account_inv owner (h, c)"
  shows "account_status (h, fst (DeleteAllFinishedTxs xs c)) k = account_status (h, c) k
    \<or> (account_status (h, fst (DeleteAllFinishedTxs xs c)) k = None \<and> account_status (h, c) k \<in> Some ` finished_states)"
proof -
  obtain a i where k: "k = (a, i)" by (cases k)
  from DeleteAllFinishedTxs_stores [of xs c a] show ?thesis
  proof (elim disjE exE conjE)
    fix s "is"
    assume s: "store c a = Some s" "store (fst (DeleteAllFinishedTxs xs c)) a = Some (fst (DeleteFinishedTxs is s))"
    then show ?thesis using DeleteFinishedTxs_status [OF account_invD(1) [OF assms s(1)], of "is" i]
      by (auto simp: k status_def)
  qed (simp add: k)
qed

lemma reap_iteration_ok:
  assumes inv: "txm_inv E t"
  shows "txm_inv E (reap_iteration E accs ids t)"
    and "account_status (state_of (reap_iteration E accs ids t)) k = account_status (state_of t) k
      \<or> (account_status (state_of (reap_iteration E accs ids t)) k = None
          \<and> account_status (state_of t) k \<in> Some ` finished_states)"
proof -
  note I = txm_invD [OF inv]
  obtain xs w where r: "reap_iteration E accs ids t = t\<lparr>world := w, accounts := fst (DeleteAllFinishedTxs xs (accounts t))\<rparr>"
  proof -
    obtain w now where n: "time_Now E (world t) = (w, now)" by fastforce
    let ?xs = "reap_targets (now - RetentionPeriod (config E)) (objects t) (entries accs (GetAllFinished ids (accounts t)))"
    have "reap_iteration E accs ids t = t\<lparr>world := w, accounts := fst (DeleteAllFinishedTxs ?xs (accounts t))\<rparr>"
      using n by (cases ?xs) (simp_all add: reap_iteration_def Let_def)
    then show thesis using that by blast
  qed
  let ?c = "fst (DeleteAllFinishedTxs xs (accounts t))"
  have "account_inv (owner_of E) (objects t, ?c)" by (rule account_inv_DeleteAll [OF I(1)])
  moreover have "tracked_ok (next_object t) (objects t, ?c)"
    unfolding tracked_ok_def prod.case
  proof (intro allI impI)
    fix a s r
    assume s: "store ?c a = Some s" and r: "r \<in> store_refs s"
    obtain s0 "is" where "store (accounts t) a = Some s0" "s = fst (DeleteFinishedTxs is s0)"
      using DeleteAllFinishedTxs_stores [of xs "accounts t" a] s by auto
    then show "r < next_object t \<and> counters_ok (objects t r)"
      using tracked_okD [OF I(2)] store_refs_reap [of "is" s0] r by blast
  qed
  moreover have "pending_in (owner_of E) (objects t, ?c) r" if mem: "r \<in> set (queue t)" for r
  proof -
    let ?a = "owner_of E (FromAddress (objects t r))"
    obtain s where s: "store (accounts t) ?a = Some s" "pendingTxs s (ID (objects t r)) = Some r"
      using I(4) [OF mem] by (auto simp: pending_in_def)
    then obtain "is" where "store ?c ?a = Some (fst (DeleteFinishedTxs is s))"
      using DeleteAllFinishedTxs_stores [of xs "accounts t" ?a] by auto
    then show ?thesis using s DeleteFinishedTxs_tables [of "is" s] by (simp add: pending_in_def)
  qed
  ultimately show "txm_inv E (reap_iteration E accs ids t)"
    using I(3,5) by (auto simp: r txm_inv_def state_of_def queue_def)
  show "account_status (state_of (reap_iteration E accs ids t)) k = account_status (state_of t) k
      \<or> (account_status (state_of (reap_iteration E accs ids t)) k = None
          \<and> account_status (state_of t) k \<in> Some ` finished_states)"
    using account_status_reap [OF I(1), of xs k] by (simp add: r state_of_def del: account_status.simps)
qed

end
