(* ===== verification/Txm_Spec.thy ===== *)
theory Txm_Spec
  imports Txm_Machine
begin

text \<open>
  The transaction manager as a state machine: the steps of its goroutines, interleaved in any order,
  refine the lifecycle of a transaction; what holds in every reachable state; and the properties of
  the single operations.
\<close>

subsection \<open>The machine\<close>

text \<open>
  \<open>Tick\<close> is whatever the node, the clock and the other processes do. A transaction is received by the
  broadcast loop, prepared, and then sent; between the two the other goroutines may run. \<open>Sends\<close> takes
  any transaction whose ID is not the hash of a finished one, in particular the prepared one.
  \<open>Checks\<close> and \<open>Finalizes\<close> are one iteration of the inner loops of the confirm loop, for an entry that is
  in the table; that every iteration of a pass finds its entry there is a theorem of \<open>Txm_Steps\<close>.
\<close>

inductive txm_step :: "'w Env \<Rightarrow> 'w txm \<Rightarrow> 'w txm \<Rightarrow> bool" for E where
  Tick: "txm_step E t (t\<lparr>world := w\<rparr>)"
| Enqueues: "uuid_fresh E req t \<Longrightarrow> Enqueue E req t = Done (t', err) \<Longrightarrow> txm_step E t t'"
| Receives: "received t = None \<Longrightarrow> BroadcastChan t = r # q \<Longrightarrow>
    txm_step E t (t\<lparr>BroadcastChan := q, received := Some r\<rparr>)"
| Prepares: "received t = Some r \<Longrightarrow> prepare E (objects t r) t = Done (t', Prepared coreTx) \<Longrightarrow> txm_step E t t'"
| Drops: "received t = Some r \<Longrightarrow> prepare E (objects t r) t = Done (t', NotPrepared) \<Longrightarrow>
    txm_step E t (t'\<lparr>received := None\<rparr>)"
| Sends: "received t = Some r \<Longrightarrow>
    (\<And>s. store (accounts t) (owner_of E (FromAddress (objects t r))) = Some s \<Longrightarrow> hash_fresh s (TxID coreTx)) \<Longrightarrow>
    send E r coreTx (t\<lparr>received := None\<rparr>) = Some (Done t') \<Longrightarrow> txm_step E t t'"
| Checks: "unconfirmed_in (state_of t) a p \<Longrightarrow>
    GetTransactionInfoByIdFullNode (client E) (inf_Hash p) (world t) = Done (w, info, err) \<Longrightarrow>
    err = None \<longrightarrow> info \<noteq> None \<Longrightarrow> check_one E a ts p t = Done t' \<Longrightarrow> txm_step E t t'"
| Finalizes: "confirmed_in (state_of t) a p \<Longrightarrow> finalize_one E a p t = Done t' \<Longrightarrow> txm_step E t t'"
| Reaps: "txm_step E t (reap_iteration E accs ids t)"

inductive_cases txm_stepE: "txm_step E t t'"

text \<open>Several transactions may move at once (reaping), each along an edge of the lifecycle.\<close>

definition lifecycle_moves :: "('k \<rightharpoonup> TxState) \<Rightarrow> ('k \<rightharpoonup> TxState) \<Rightarrow> bool" where
  "lifecycle_moves m m' \<longleftrightarrow> (\<forall>k. m' k = m k \<or> (\<exists>e. lifecycle e (m k) = Some (m' k)))"

lemma lifecycle_moves_refl [simp]: "lifecycle_moves m m"
  by (simp add: lifecycle_moves_def)

lemma lifecycle_moves_spec [simp]: "lifecycle_moves m (spec_status e k m)"
  by (auto simp: lifecycle_moves_def spec_status_def split: option.splits)

lemma lifecycle_moves_submit: "m k = None \<Longrightarrow> lifecycle_moves m (m(k \<mapsto> Pending))"
  using lifecycle_moves_spec [of m Submit k] by (simp add: spec_status_def)

lemma lifecycle_moves_checked:
  "checked E a i e t t' \<Longrightarrow> lifecycle_moves (account_status (state_of t)) (account_status (state_of t'))"
  by (simp add: checked_def del: account_status.simps)

lemma lifecycle_moves_finished:
  assumes "lifecycle_moves m m'" and "m k = Some x" and "x \<in> finished_states"
  shows "m' k = Some x \<or> m' k = None"
proof -
  consider "m' k = m k" | e where "lifecycle e (m k) = Some (m' k)"
    using assms(1) by (auto simp: lifecycle_moves_def)
  then show ?thesis
  proof cases
    case (2 e)
    then show ?thesis using assms(2,3) lifecycle_finished [OF assms(3), of e]
      by (cases "e = Reap") (simp_all add: lifecycle_eqs(9))
  qed (simp add: assms(2))
qed

lemma lifecycle_moves_finalized:
  assumes "lifecycle_moves m m'" and "m' k = Some Finalized"
  shows "m k = Some Finalized \<or> m k = Some Confirmed"
proof -
  consider "m' k = m k" | e where "lifecycle e (m k) = Some (Some Finalized)"
    using assms unfolding lifecycle_moves_def by metis
  then show ?thesis by cases (use assms(2) in \<open>auto elim: lifecycle_SomeE\<close>)
qed

subsection \<open>Every step keeps the invariant and follows the lifecycle\<close>

definition step_ok :: "'w Env \<Rightarrow> 'w txm \<Rightarrow> 'w txm \<Rightarrow> bool" where
  "step_ok E t t' \<longleftrightarrow> txm_inv E t'
     \<and> lifecycle_moves (account_status (state_of t)) (account_status (state_of t'))"

lemma step_ok_same: "txm_inv E t' \<Longrightarrow> state_of t' = state_of t \<Longrightarrow> step_ok E t t'"
  by (simp add: step_ok_def del: account_status.simps)

lemma received_queued: "received t = Some r \<Longrightarrow> r \<in> set (queue t)"
  by (simp add: queue_def)

lemma txm_inv_drop:
  assumes "txm_inv E t" and "received t = Some r"
  shows "txm_inv E (t\<lparr>received := None\<rparr>)" "pending_in (owner_of E) (state_of t) r"
    "r \<notin> set (queue (t\<lparr>received := None\<rparr>))"
  using assms by (auto simp: txm_inv_def queue_def state_of_def)

lemma send_ok:
  assumes inv: "txm_inv E t" and p: "pending_in (owner_of E) (state_of t) r" and q: "r \<notin> set (queue t)"
    and fresh: "\<And>s. store (accounts t) (owner_of E (FromAddress (objects t r))) = Some s \<Longrightarrow> hash_fresh s (TxID coreTx)"
    and run: "send E r coreTx t = Some (Done t')"
  shows "step_ok E t t'"
  using send_cases [OF inv p run]
proof (elim disjE exE)
  fix w assume "t' = t\<lparr>world := w\<rparr>"
  then show ?thesis using inv by (intro step_ok_same) (simp_all add: state_of_def)
next
  fix w
  let ?u = "t\<lparr>world := w\<rparr>"
  assume t': "t' = fst (with_store (owner_of E (FromAddress (objects t r)))
      (OnBroadcasted (TxID coreTx) (rd_Expiration (RawData_of coreTx)) r) ?u)"
  have i: "txm_inv E ?u" "pending_in (owner_of E) (state_of ?u) r" "r \<notin> set (queue ?u)"
    using inv p q by (simp_all add: state_of_def queue_def)
  have "account_status (state_of ?u) = account_status (state_of t)" by (simp add: state_of_def)
  moreover have f: "hash_fresh s (TxID coreTx)" if "store (accounts ?u) (owner_of E (FromAddress (objects t r))) = Some s" for s
    using that fresh by simp
  ultimately show ?thesis
    using broadcast_recorded [OF i _ f] t' by (simp add: step_ok_def del: account_status.simps split: if_splits)
qed

lemma receive_ok:
  assumes "txm_inv E t" and "received t = None" and "BroadcastChan t = r # q"
  shows "step_ok E t (t\<lparr>BroadcastChan := q, received := Some r\<rparr>)"
  using assms by (intro step_ok_same) (auto simp: txm_inv_def queue_def state_of_def)

lemma enqueue_step_ok:
  assumes "txm_inv E t" and "uuid_fresh E req t" and "Enqueue E req t = Done (t', err)"
  shows "step_ok E t t'"
  using Enqueue_ok [OF assms(1,2)] assms(3)
  by (auto simp: step_ok_def untouched_def submitted_def lifecycle_moves_submit simp del: account_status.simps)

lemma check_step_ok:
  assumes "txm_inv E t" and "unconfirmed_in (state_of t) a p" and "check_one E a ts p t = Done t'"
    and "GetTransactionInfoByIdFullNode (client E) (inf_Hash p) (world t) = Done (w, info, err)"
    and "err = None \<longrightarrow> info \<noteq> None"
  shows "step_ok E t t'"
  using check_one_reported [OF assms(1,2,4,5), of ts] assms(3) lifecycle_moves_checked
  by (auto simp: reported_def step_ok_def checked_def simp del: account_status.simps split: option.splits)

lemma finalize_step_ok:
  assumes "txm_inv E t" and "confirmed_in (state_of t) a p" and "finalize_one E a p t = Done t'"
  shows "step_ok E t t'"
proof -
  obtain w b where "gone E (inf_Hash p) (world t) = Done (w, b)"
    using assms(3) by (auto simp: finalize_one_def outcome_bind_eq_Done Let_def)
  from finalize_one_checked [OF assms(1,2) this] show ?thesis
    using assms(3) lifecycle_moves_checked by (auto simp: step_ok_def checked_def simp del: account_status.simps)
qed

lemma reap_step_ok:
  assumes "txm_inv E t"
  shows "step_ok E t (reap_iteration E accs ids t)"
  using reap_iteration_ok [OF assms, of accs ids] lifecycle_eqs(9)
  unfolding step_ok_def lifecycle_moves_def by metis

lemma step_preserves:
  assumes "txm_inv E t" and "txm_step E t t'"
  shows "step_ok E t t'"
  using assms(2)
proof (cases rule: txm_step.cases)
  case (Tick w)
  then show ?thesis using assms(1) by (intro step_ok_same) (simp_all add: state_of_def)
next
  case (Prepares r coreTx)
  note e = only_env_inv [OF prepare_env [OF Prepares(2)]]
  show ?thesis using assms(1) e by (intro step_ok_same) simp_all
next
  case (Drops r t1)
  note e = only_env_inv [OF prepare_env [OF Drops(3)]]
  have "txm_inv E (t1\<lparr>received := None\<rparr>)" using txm_inv_drop(1) [of E t1 r] assms(1) Drops(2) e by simp
  then show ?thesis using Drops(1) e by (intro step_ok_same) (simp_all add: state_of_def)
next
  case (Sends r coreTx)
  let ?u = "t\<lparr>received := None\<rparr>"
  have s: "state_of ?u = state_of t" by (simp add: state_of_def)
  have p: "pending_in (owner_of E) (state_of ?u) r" using txm_inv_drop(2) [OF assms(1) Sends(1)] s by simp
  have "step_ok E ?u t'"
    by (rule send_ok [OF txm_inv_drop(1) [OF assms(1) Sends(1)] p txm_inv_drop(3) [OF assms(1) Sends(1)] _ Sends(3)])
      (use Sends(2) in simp)
  then show ?thesis using s by (simp add: step_ok_def del: account_status.simps)
next
  case (Enqueues req err)
  then show ?thesis using enqueue_step_ok [OF assms(1)] by simp
next
  case (Receives r q)
  then show ?thesis using receive_ok [OF assms(1)] by simp
next
  case (Checks a p w info err ts)
  then show ?thesis using check_step_ok [OF assms(1)] by simp
next
  case (Finalizes a p)
  then show ?thesis using finalize_step_ok [OF assms(1)] by simp
next
  case (Reaps accs ids)
  then show ?thesis using reap_step_ok [OF assms(1)] by simp
qed

subsection \<open>Reachable states\<close>

inductive reachable :: "'w Env \<Rightarrow> 'w txm \<Rightarrow> bool" for E where
  start: "reachable E (New w)"
| step: "reachable E t \<Longrightarrow> txm_step E t t' \<Longrightarrow> reachable E t'"

lemma txm_inv_New: "txm_inv E (New w)"
  by (simp add: txm_inv_def New_def state_of_def queue_def account_inv_def tracked_ok_def NewAccountStore_def)

lemma reachable_inv: "reachable E t \<Longrightarrow> txm_inv E t"
proof (induction rule: reachable.induct)
  case (start w)
  show ?case by (rule txm_inv_New)
next
  case (step t t')
  then show ?case using step_preserves [of E t t'] by (simp add: step_ok_def)
qed

subsection \<open>A node, a clock and a request to evaluate on\<close>

definition sample_config :: TronTxmConfig where
  "sample_config = \<lparr>BroadcastChanSize = 1, ConfirmPollSecs = 1, EnergyMultiplier = DEFAULT_ENERGY_MULTIPLIER,
     FixedEnergyValue = 0, RetentionPeriod = 10, ReapInterval = 1\<rparr>"

definition sample_env :: "nat Env" where
  "sample_env = \<lparr>client = sample_client ''0000000000000005'', lib_of = sample_lib, oob = (\<lambda>_. 0),
     time_Now = (\<lambda>w. (w, int w)), time_Sleep = (\<lambda>d w. w + nat d), uuid_New = (\<lambda>w. (Suc w, ''u'')),
     keystore_Sign = (\<lambda>_ _ w. (w, Inr [])), config = sample_config\<rparr>"

definition sample_request :: "string \<Rightarrow> TronTxmRequest" where
  "sample_request i = \<lparr>req_FromAddress = sample_address, req_ContractAddress = sample_address,
     req_Method = ''f()'', req_Params = [], req_ID = i\<rparr>"

definition sample_key :: "string \<times> string" where
  "sample_key = (owner_of sample_env sample_address, ''x'')"

lemma account_status_New_txm: "account_status (state_of (New w)) = (\<lambda>_. None)"
  by (rule ext) (auto simp: state_of_def New_def NewAccountStore_def)

lemma sample_enqueued:
  obtains t where "Enqueue sample_env (sample_request ''x'') (New 0) = Done (t, None)" "reachable sample_env t"
    "txm_step sample_env (New 0) t" "BroadcastChan t = [0]" "account_status (state_of t) = [sample_key \<mapsto> Pending]"
proof -
  have ok: "refused sample_env (sample_request ''x'') (world (New (0 :: nat))) = None"
    by (simp add: refused_def sample_env_def sample_request_def)
  have id: "request_id sample_env (sample_request ''x'') w = ''x''" for w
    by (simp add: request_id_def sample_request_def)
  obtain t err where t: "Enqueue sample_env (sample_request ''x'') (New 0) = Done (t, err)"
    "submitted sample_env (sample_request ''x'') ''x'' (New 0) t"
    "err = (if length (BroadcastChan (New (0 :: nat))) < BroadcastChanSize (config sample_env) then None else Some ChannelFull)"
    "BroadcastChan t = BroadcastChan (New (0 :: nat)) @ (if err = None then [next_object (New (0 :: nat))] else [])"
    using Enqueue_new [OF txm_inv_New ok] by (auto simp: id account_status_New_txm)
  have "err = None" using t(3) by (simp add: New_def sample_env_def sample_config_def)
  moreover have "BroadcastChan t = [0]" using t(4) calculation by (simp add: New_def)
  moreover have "account_status (state_of t) = [sample_key \<mapsto> Pending]"
    using t(2) by (simp add: submitted_def account_status_New_txm sample_key_def sample_request_def)
  moreover have step: "txm_step sample_env (New 0) t"
    using t(1) by (intro Enqueues [of _ "sample_request ''x''"]) (simp_all add: uuid_fresh_def sample_request_def)
  moreover have "reachable sample_env t" by (rule reachable.step [OF reachable.start step])
  ultimately show thesis using t(1) that by blast
qed

subsection \<open>What holds in every run\<close>





text \<open>
  C14. Bounds: in every reachable state every tracked transaction, in whatever table, has
  been tried at most five times, was out of time at most twice and was bumped fewer times than it
  was tried. The counters do not wrap.
\<close>

theorem txm_retries_bounded:
  assumes "reachable E t" and "store (accounts t) a = Some s" and "r \<in> store_refs s"
  shows "1 \<le> unat (Attempt (objects t r)) \<and> unat (Attempt (objects t r)) \<le> 5
    \<and> unat (OutOfTimeErrors (objects t r)) \<le> 2
    \<and> unat (EnergyBumpTimes (objects t r)) < unat (Attempt (objects t r))"
  using tracked_okD [OF txm_invD(2) [OF reachable_inv [OF assms(1)]] assms(2,3)] by (simp add: counters_ok_def)

theorem txm_retries_bounded_witness:
  "\<exists>t. reachable sample_env t \<and> account_status (state_of t) sample_key = Some Pending
     \<and> unat (Attempt (objects t 0)) \<le> 5 \<and> 1 \<le> unat (Attempt (objects t 0))"
proof -
  obtain t where t: "reachable sample_env t" "BroadcastChan t = [0]" "account_status (state_of t) = [sample_key \<mapsto> Pending]"
    by (rule sample_enqueued)
  then obtain s where s: "store (accounts t) (owner_of sample_env (FromAddress (objects t 0))) = Some s"
    "pendingTxs s (ID (objects t 0)) = Some 0"
    using txm_invD(4) [OF reachable_inv [OF t(1)], of 0] by (auto simp: queue_def pending_in_def)
  then have "0 \<in> store_refs s" by (auto dest: store_refs_entry)
  from txm_retries_bounded [OF t(1) s(1) this] t show ?thesis by (auto simp del: account_status.simps)
qed



end
