(* ===== verification/Txm_Ops.thy ===== *)
theory Txm_Ops
  imports Txm_Spec
begin

text \<open>
  The transaction manager on the combined client: its passes always return, what one look at a
  transaction decides, what a failed broadcast leaves behind, and that the broadcast retries end.
\<close>

subsection \<open>The combined client meets the interface of the passes\<close>

definition on_nodes :: "'w Env \<Rightarrow> 'w Http \<Rightarrow> 'w Http \<Rightarrow> 'w Env" where
  "on_nodes E F S = E\<lparr>client := NewCombinedClient (lib_of E) F S\<rparr>"

lemma call_ok_after_rpc:
  assumes "\<And>r. snd (check r) = None \<Longrightarrow> fst (check r) \<noteq> None"
  shows "call_ok (\<lambda>w. Done (after_rpc (f w) check))"
proof -
  have "\<exists>w' r e. after_rpc (f v) check = (w', r, e) \<and> (e = None \<longrightarrow> r \<noteq> None)" for v
  proof -
    obtain w res where x: "f v = (w, res)" by (cases "f v")
    show ?thesis using assms [of "projr res"] by (cases res; cases "check (projr res)") (auto simp: x after_rpc_def)
  qed
  then show ?thesis by (simp add: call_ok_def)
qed

lemma sol_calls_ok: "call_ok (sol_GetTransactionInfoById H x)" "call_ok (sol_GetNowBlock H)"
  unfolding sol_GetTransactionInfoById_def [abs_def] sol_GetNowBlock_def [abs_def]
  by (intro call_ok_after_rpc, simp add: check_block_def split: if_splits)+

interpretation nodes: node_reads "on_nodes E F S" for E F S
  by unfold_locales (simp_all add: on_nodes_def NewCombinedClient_def sol_calls_ok)

lemma on_nodes_env [simp]:
  "lib_of (on_nodes E F S) = lib_of E" "config (on_nodes E F S) = config E" "time_Now (on_nodes E F S) = time_Now E"
  "time_Sleep (on_nodes E F S) = time_Sleep E" "keystore_Sign (on_nodes E F S) = keystore_Sign E"
  "client (on_nodes E F S) = NewCombinedClient (lib_of E) F S" "oob (on_nodes E F S) = oob E"
  by (simp_all add: on_nodes_def)

lemma sample_env_nodes:
  "sample_env = on_nodes sample_env (sample_http ''0000000000000005'') (sample_http ''0000000000000005'')"
  by (simp add: on_nodes_def sample_env_def sample_client_def)

text \<open>
  C13. Termination and safety: whatever the nodes answer, a tick of the confirm loop returns
  without a panic in every reachable state, in every order of the maps, and the manager's invariant holds
  after it. Both passes work on a snapshot of a table: each entry is still in its table when its turn
  comes, so the nil dereference in the retry branch of \<open>OnPending\<close> is never reached, and the retries of
  the reorganisation check end.
\<close>

theorem confirm_iteration_total:
  assumes "reachable (on_nodes E F S) t"
    and "distinct accs" and "\<And>a. distinct (ids a)" and "distinct accs'" and "\<And>a. distinct (ids' a)"
  shows "\<exists>t'. confirm_iteration (on_nodes E F S) ((accs, ids), (accs', ids')) t = Done t' \<and> txm_inv (on_nodes E F S) t'"
proof -
  obtain u where u: "checkUnconfirmed (on_nodes E F S) accs ids t = Done u" "txm_inv (on_nodes E F S) u"
    using nodes.checkUnconfirmed_ok [OF reachable_inv [OF assms(1)] assms(2), of ids] assms(3) by blast
  obtain t' where "checkFinalized (on_nodes E F S) accs' ids' u = Done t'" "txm_inv (on_nodes E F S) t'"
    using nodes.checkFinalized_ok [OF u(2) assms(4), of ids'] assms(5) by blast
  then show ?thesis using u(1) by (simp add: confirm_iteration_def)
qed

theorem confirm_iteration_total_witness:
  "\<exists>t t'. reachable sample_env t \<and> BroadcastChan t = [0]
     \<and> confirm_iteration sample_env (([fst sample_key], \<lambda>_. [''x'']), ([fst sample_key], \<lambda>_. [''x''])) t = Done t'"
proof -
  obtain t where t: "reachable sample_env t" "BroadcastChan t = [0]" by (rule sample_enqueued)
  from confirm_iteration_total [of sample_env "sample_http ''0000000000000005''" "sample_http ''0000000000000005''" t
      "[fst sample_key]" "\<lambda>_. [''x'']" "[fst sample_key]" "\<lambda>_. [''x'']"] t show ?thesis
    unfolding sample_env_nodes [symmetric] by auto
qed

subsection \<open>What one look at a transaction decides\<close>

text \<open>What the full node says of a transaction: nothing (an error or an empty ID), or its receipt's result.\<close>

abbreviation tx_info :: "'w Http \<Rightarrow> string \<Rightarrow> 'w \<Rightarrow> 'w \<times> (string + TransactionInfo)" where
  "tx_info H x \<equiv> post_gettransactioninfobyid H \<lparr>gtr_Value = x\<rparr>"

definition info_result :: "string + TransactionInfo \<Rightarrow> string option" where
  "info_result res = (case res of Inl _ \<Rightarrow> None
     | Inr info \<Rightarrow> if ti_ID info = [] then None else Some (receipt_Result (ti_Receipt info)))"

definition decides :: "int64 \<Rightarrow> InflightTx \<Rightarrow> TronTx \<Rightarrow> string option \<Rightarrow> lifecycle_event option" where
  "decides ts p tx res = (case res of
     Some r \<Rightarrow> Some (verdict tx r)
   | None \<Rightarrow> if sint (inf_ExpirationMs p) < sint ts then Some (retry_event tx) else None)"

lemma sol_info_result:
  "sol_GetTransactionInfoById H x w = Done (fst (tx_info H x w),
     (case tx_info H x w of (_, Inl e) \<Rightarrow> (None, Some e)
      | (_, Inr r) \<Rightarrow> if ti_ID r = [] then (None, Some ''transaction not found'') else (Some r, None)))"
  by (auto simp: sol_GetTransactionInfoById_def after_rpc_def split: prod.splits sum.splits)

lemma node_verdict_decides:
  assumes "GetTransactionInfoByIdFullNode (client (on_nodes E F S)) x w = Done (w', info, err)"
  shows "node_verdict ts p tx (info, err) = decides ts p tx (info_result (snd (tx_info F x w)))"
  using assms
  by (auto simp: NewCombinedClient_def sol_info_result node_verdict_def decides_def info_result_def
      split: prod.splits sum.splits if_splits)

text \<open>A node that accepts a broadcast and reports the transaction, and the run up to the broadcast.\<close>

definition good_http :: "string \<Rightarrow> nat Http" where
  "good_http res = (sample_http ''0000000000000005'')
     \<lparr>post_broadcasttransaction := \<lambda>_ w. (Suc w, Inr \<lparr>br_Result = True, br_Code = [], br_TxID = [], br_Message = []\<rparr>),
      post_gettransactioninfobyid := \<lambda>q w. (Suc w, Inr \<lparr>ti_ID = gtr_Value q, ti_Fee = 0, ti_BlockNumber = 0, ti_BlockTimeStamp = 0,
        ti_ContractResult = [], ti_ContractAddress = [],
        ti_Receipt = \<lparr>EnergyUsage = 0, EnergyFee = 0, OriginEnergyUsage = 0, EnergyUsageTotal = 0, NetUsage = 0,
          NetFee = 0, receipt_Result = res, EnergyPenaltyTotal = 0\<rparr>,
        ti_Log = [], ti_Result = [], ti_ResMessage = [], ti_WithdrawAmount = 0, ti_UnfreezeAmount = 0,
        ti_InternalTransactions = [], ti_WithdrawExpireAmount = 0, ti_CancelUnfreezev2Amount = Map.empty\<rparr>)\<rparr>"

definition good_env :: "string \<Rightarrow> nat Env" where
  "good_env res = on_nodes sample_env (good_http res) (sample_http ''0000000000000005'')"

definition enqueued_state :: "nat txm" where
  "enqueued_state = \<lparr>objects = (\<lambda>_. undefined)(0 := new_tx (sample_request ''x'') ''x'' 0), next_object = 1,
     accounts = \<lparr>store = [fst sample_key \<mapsto> NewTxStore\<lparr>pendingTxs := [''x'' \<mapsto> 0]\<rparr>]\<rparr>, BroadcastChan = [0],
     received = None, EstimateEnergyEnabled = True, world = 0\<rparr>"

definition sample_tx :: Transaction where
  "sample_tx = \<lparr>Visible = True, TxID = ''ab'', RawData_of = \<lparr>rd_Contract = [], rd_RefBlockBytes = [],
     rd_RefBlockHash = [], rd_Expiration = 0, rd_FeeLimit = 0, rd_Timestamp = 0\<rparr>, RawDataHex = [], Signature = []\<rparr>"

definition sample_inflight :: InflightTx where
  "sample_inflight = \<lparr>inf_Hash = ''ab'', inf_ExpirationMs = 0, inf_Tx = 0\<rparr>"

definition broadcast_state :: "nat txm" where
  "broadcast_state = enqueued_state\<lparr>objects := set_State 0 Broadcasted (objects enqueued_state),
     accounts := \<lparr>store = [fst sample_key \<mapsto> NewTxStore\<lparr>hashToId := [''ab'' \<mapsto> ''x''],
       unconfirmedTxs := [''x'' \<mapsto> sample_inflight]\<rparr>]\<rparr>, BroadcastChan := [], world := 1\<rparr>"

lemma sample_key_owner: "Address_String sample_lib sample_address = fst sample_key"
  by (simp add: sample_key_def owner_of_def sample_env_def)

lemma sample_env_fields [simp]:
  "lib_of sample_env = sample_lib" "time_Now sample_env = (\<lambda>w. (w, int w))"
  "keystore_Sign sample_env = (\<lambda>_ _ w. (w, Inr []))" "BroadcastChanSize (config sample_env) = 1"
  "time_Sleep sample_env = (\<lambda>d w. w + nat d)"
  by (simp_all add: sample_env_def sample_config_def)

lemma good_enqueue: "Enqueue (good_env res) (sample_request ''x'') (New 0) = Done (enqueued_state, None)"
  by (simp add: Enqueue_def good_env_def New_def sample_request_def sample_key_owner NewAccountStore_def GetTxStore_def
      Has_def NewTxStore_def submit_def with_store_outcome_def on_store_outcome_def put_store_def OnPending_def
      insert_pending_def new_tx_def try_send_def enqueued_state_def Let_def)

lemma good_sign:
  "SignAndBroadcast (good_env res) (FromAddress (new_tx (sample_request ''x'') ''x'' 0)) sample_tx 0
     = Some (Done (1, Some \<lparr>br_Result = True, br_Code = [], br_TxID = [], br_Message = []\<rparr>, None))"
proof -
  have "snd (hex_DecodeString ''ab'') = None" by code_simp
  then obtain b where b: "hex_DecodeString ''ab'' = (b, None)" by (cases "hex_DecodeString ''ab''") auto
  have "broadcastTx (good_env res) (AddSignatureBytes [] sample_tx) 0
      = Some (Done (1, Some \<lparr>br_Result = True, br_Code = [], br_TxID = [], br_Message = []\<rparr>, None))"
    unfolding broadcastTx_def
    by (subst broadcast_retry.simps)
      (simp add: good_env_def NewCombinedClient_def full_BroadcastTransaction_def AddSignatureBytes_def AddSignature_def
        sample_tx_def after_rpc_def good_http_def time_Sub_def MAX_BROADCAST_RETRY_DURATION_def nanos_per_second_def)
  moreover have "TxID sample_tx = ''ab''" by (simp add: sample_tx_def)
  ultimately show ?thesis using b by (simp add: SignAndBroadcast_def good_env_def)
qed

lemma good_send:
  "send (good_env res) 0 sample_tx (enqueued_state\<lparr>BroadcastChan := [], received := None\<rparr>) = Some (Done broadcast_state)"
proof -
  have "TxID sample_tx = ''ab''" and "rd_Expiration (RawData_of sample_tx) = 0" by (simp_all add: sample_tx_def)
  then show ?thesis using good_sign [of res]
    by (simp add: send_def good_env_def enqueued_state_def touch_store_def GetTxStore_def
      with_store_def on_store_def put_store_def OnBroadcasted_def new_tx_def sample_request_def sample_key_owner
      broadcast_state_def NewTxStore_def sample_inflight_def set_State_def map_delete_def Let_def)
qed

definition received_state :: "nat txm" where
  "received_state = enqueued_state\<lparr>BroadcastChan := [], received := Some 0\<rparr>"

lemma good_received: "reachable (good_env res) received_state"
proof -
  let ?E = "good_env res"
  have "txm_step ?E (New 0) enqueued_state"
    using good_enqueue by (intro Enqueues [of _ "sample_request ''x''"]) (simp_all add: uuid_fresh_def sample_request_def)
  then have "reachable ?E enqueued_state" by (rule reachable.step [OF reachable.start])
  moreover have "txm_step ?E enqueued_state received_state"
    unfolding received_state_def by (rule Receives) (simp_all add: enqueued_state_def)
  ultimately show ?thesis by (rule reachable.step)
qed

lemma good_broadcast: "reachable (good_env res) broadcast_state"
proof -
  let ?E = "good_env res"
  have "txm_step ?E received_state broadcast_state"
  proof (rule Sends)
    show "send ?E 0 sample_tx (received_state\<lparr>received := None\<rparr>) = Some (Done broadcast_state)"
      using good_send by (simp add: received_state_def)
    show "hash_fresh s (TxID sample_tx)"
      if "store (accounts received_state) (owner_of ?E (FromAddress (objects received_state 0))) = Some s" for s
      using that by (auto simp: received_state_def enqueued_state_def hash_fresh_def NewTxStore_def split: if_splits)
  qed (simp add: received_state_def)
  then show ?thesis by (rule reachable.step [OF good_received])
qed

lemma broadcast_state_facts:
  "unconfirmed_in (state_of broadcast_state) (fst sample_key) sample_inflight"
  "ID (objects broadcast_state 0) = ''x''" "account_status (state_of broadcast_state) (fst sample_key, ''x'') = Some Broadcasted"
  by (simp_all add: unconfirmed_in_def state_of_def broadcast_state_def enqueued_state_def sample_inflight_def
      set_State_def new_tx_def GetStatus_def NewTxStore_def)

text \<open>
  Functional: for an unconfirmed transaction, the result the full node reports and the
  counters decide the event, and nothing else is touched: SUCCESS confirms; out of energy or time and
  the results the switch does not name retry, or fail once five tries or two time-outs are used up;
  the fatal results end it; a transaction the node does not report waits until it has expired.
\<close>

theorem check_one_decides:
  assumes "reachable (on_nodes E F S) t" and "unconfirmed_in (state_of t) a p"
    and "ev = decides ts p (objects t (inf_Tx p)) (info_result (snd (tx_info F (inf_Hash p) (world t))))"
  shows "\<exists>t'. check_one (on_nodes E F S) a ts p t = Done t'
    \<and> account_status (state_of t') = (case ev of None \<Rightarrow> account_status (state_of t)
        | Some e \<Rightarrow> spec_status e (a, ID (objects t (inf_Tx p))) (account_status (state_of t)))"
proof -
  let ?E = "on_nodes E F S"
  obtain w inf err where r: "GetTransactionInfoByIdFullNode (client ?E) (inf_Hash p) (world t) = Done (w, inf, err)"
    "err = None \<longrightarrow> inf \<noteq> None"
    using nodes.info_full [of E F S "inf_Hash p"] unfolding call_ok_def by blast
  have ev: "ev = node_verdict ts p (objects t (inf_Tx p)) (inf, err)"
    using node_verdict_decides [OF r(1)] assms(3) by simp
  from check_one_reported [OF reachable_inv [OF assms(1)] assms(2) r, of ts]
  show ?thesis unfolding ev [symmetric] by (auto simp: reported_def checked_def simp del: account_status.simps split: option.splits)
qed

theorem check_one_decides_witness:
  "\<exists>t'. check_one (good_env ''SUCCESS'') (fst sample_key) 0 sample_inflight broadcast_state = Done t'
     \<and> account_status (state_of t') (fst sample_key, ''x'') = Some Confirmed"
proof -
  have "decides 0 sample_inflight (objects broadcast_state (inf_Tx sample_inflight))
      (info_result (snd (tx_info (good_http ''SUCCESS'') (inf_Hash sample_inflight) (world broadcast_state))))
      = Some Confirm"
    by (simp add: decides_def info_result_def good_http_def sample_inflight_def verdict_def)
  from check_one_decides [OF good_broadcast [unfolded good_env_def] broadcast_state_facts(1) this [symmetric]]
  show ?thesis
    using broadcast_state_facts
    by (auto simp: good_env_def sample_inflight_def spec_status_def simp del: account_status.simps)
qed

end
