(* ===== verification/Txm_Node.thy ===== *)
theory Txm_Node
  imports Txm_Ops
begin

text \<open>
  The manager's conversations with the node: the finality decision, the broadcast retries, the reference
  block and the fee limit.
\<close>

subsection \<open>Finality\<close>

definition reports :: "'w Http \<Rightarrow> string \<Rightarrow> 'w \<Rightarrow> bool" where
  "reports H x w \<longleftrightarrow> info_result (snd (tx_info H x w)) \<noteq> None"

definition asked :: "'w Http \<Rightarrow> string \<Rightarrow> 'w \<Rightarrow> 'w" where
  "asked H x w = fst (tx_info H x w)"

fun seen_later :: "'w Env \<Rightarrow> 'w Http \<Rightarrow> string \<Rightarrow> nat \<Rightarrow> 'w \<Rightarrow> bool" where
  "seen_later E F x 0 w \<longleftrightarrow> False"
| "seen_later E F x (Suc n) w \<longleftrightarrow>
     (let w' = time_Sleep E REORG_RETRY_DELAY w in reports F x w' \<or> seen_later E F x n (asked F x w'))"

text \<open>Known to the solidity node, or to the full node at once or at one of three retries.\<close>

definition known :: "'w Env \<Rightarrow> 'w Http \<Rightarrow> 'w Http \<Rightarrow> string \<Rightarrow> 'w \<Rightarrow> bool" where
  "known E F S x w \<longleftrightarrow> reports S x w
     \<or> (let w1 = asked S x w in reports F x w1 \<or> seen_later E F x REORG_RETRY_COUNT (asked F x w1))"

lemma lookup_reports:
  "\<exists>r e. sol_GetTransactionInfoById H x w = Done (asked H x w, r, e) \<and> (e = None \<longleftrightarrow> reports H x w)"
  by (auto simp: sol_info_result asked_def reports_def info_result_def split: prod.splits sum.splits)

lemma reorg_retries_seen:
  "\<exists>w'. reorg_retries (on_nodes E F S) x n w = Done (w', \<not> seen_later E F x n w)"
proof (induction n arbitrary: w)
  case (Suc n)
  let ?w = "time_Sleep E REORG_RETRY_DELAY w"
  obtain r e where "sol_GetTransactionInfoById F x ?w = Done (asked F x ?w, r, e)" "e = None \<longleftrightarrow> reports F x ?w"
    using lookup_reports [of F x ?w] by (elim exE conjE)
  then show ?case using Suc [of "asked F x ?w"] by (auto simp: NewCombinedClient_def Let_def)
qed simp

lemma gone_known: "\<exists>w'. gone (on_nodes E F S) x w = Done (w', \<not> known E F S x w)"
proof -
  obtain r e where s: "sol_GetTransactionInfoById S x w = Done (asked S x w, r, e)" "e = None \<longleftrightarrow> reports S x w"
    using lookup_reports [of S x w] by (elim exE conjE)
  obtain r' e' where f: "sol_GetTransactionInfoById F x (asked S x w) = Done (asked F x (asked S x w), r', e')"
    "e' = None \<longleftrightarrow> reports F x (asked S x w)"
    using lookup_reports [of F x "asked S x w"] by (elim exE conjE)
  obtain v where "reorg_retries (on_nodes E F S) x REORG_RETRY_COUNT (asked F x (asked S x w))
      = Done (v, \<not> seen_later E F x REORG_RETRY_COUNT (asked F x (asked S x w)))"
    using reorg_retries_seen [of E F S x REORG_RETRY_COUNT "asked F x (asked S x w)"] by (elim exE)
  then show ?thesis using s f
    by (cases e; cases e')
      (simp_all add: gone_def checkReorged_def NewCombinedClient_def known_def Let_def)
qed

text \<open>
  C11. Functional: a confirmed transaction that any of the lookups finds is finalized, and
  otherwise it is pending again. The full node's word is enough: a transaction the solidity node does
  not know yet, which is not final, is finalized when the full node has it.
\<close>

theorem finalize_one_decides:
  assumes "reachable (on_nodes E F S) t" and "confirmed_in (state_of t) a p"
  shows "\<exists>t'. finalize_one (on_nodes E F S) a p t = Done t'
    \<and> account_status (state_of t') (a, ID (objects t (inf_Tx p))) =
        Some (if known E F S (inf_Hash p) (world t) then Finalized else Pending)
    \<and> (\<forall>k. k \<noteq> (a, ID (objects t (inf_Tx p))) \<longrightarrow> account_status (state_of t') k = account_status (state_of t) k)"
proof -
  note inv = reachable_inv [OF assms(1)]
  let ?k = "(a, ID (objects t (inf_Tx p)))" and ?b = "\<not> known E F S (inf_Hash p) (world t)"
  obtain w where g: "gone (on_nodes E F S) (inf_Hash p) (world t) = Done (w, ?b)" 
    using gone_known [of E F S "inf_Hash p" "world t"] by (elim exE)
  have st: "account_status (state_of t) ?k = Some Confirmed"
  proof -
    note I = txm_invD(1) [OF inv]
    obtain s where s: "store (accounts t) a = Some s" "confirmedTxs s (ID (objects t (inf_Tx p))) = Some p"
      using assms(2) by (auto simp: confirmed_in_def state_of_def)
    then show ?thesis using status_confirmed [OF account_invD(1) [OF I s(1)] s(2)] by (simp add: state_of_def status_def)
  qed
  from finalize_one_checked [OF inv assms(2) g] obtain t' where t': "finalize_one (on_nodes E F S) a p t = Done t'"
    "account_status (state_of t') = spec_status (if ?b then Reorg else Finalize) ?k (account_status (state_of t))"
    by (auto simp: checked_def simp del: account_status.simps)
  have "account_status (state_of t') ?k = Some (if known E F S (inf_Hash p) (world t) then Finalized else Pending)"
    using t'(2) st by (simp add: spec_status_def lifecycle_eqs del: account_status.simps)
  then show ?thesis using t' spec_status_other by metis
qed

text \<open>The sample run, confirmed; the solidity node does not know the transaction, the full node does.\<close>

definition confirmed_state :: "nat txm" where
  "confirmed_state = broadcast_state\<lparr>objects := set_State 0 Confirmed (objects broadcast_state),
     accounts := \<lparr>store = [fst sample_key \<mapsto> NewTxStore\<lparr>hashToId := [''ab'' \<mapsto> ''x''],
       unconfirmedTxs := map_delete ''x'' [''x'' \<mapsto> sample_inflight], confirmedTxs := [''x'' \<mapsto> sample_inflight]\<rparr>]\<rparr>,
     world := 2\<rparr>"

lemma good_check: "check_one (good_env ''SUCCESS'') (fst sample_key) 0 sample_inflight broadcast_state = Done confirmed_state"
  by (simp add: check_one_def good_env_def NewCombinedClient_def sol_info_result good_http_def sample_inflight_def
      broadcast_state_def enqueued_state_def check_result_def touch_store_def GetTxStore_def with_store_def on_store_def
      put_store_def OnConfirmed_def set_State_def new_tx_def NewTxStore_def confirmed_state_def Let_def)

lemma good_confirmed: "reachable (good_env ''SUCCESS'') confirmed_state"
proof (rule reachable.step [OF good_broadcast])
  have "\<exists>i. GetTransactionInfoByIdFullNode (client (good_env ''SUCCESS'')) (inf_Hash sample_inflight) (world broadcast_state)
      = Done (2, Some i, None)"
    by (simp add: good_env_def NewCombinedClient_def sol_info_result good_http_def sample_inflight_def broadcast_state_def)
  then obtain i where "GetTransactionInfoByIdFullNode (client (good_env ''SUCCESS'')) (inf_Hash sample_inflight)
      (world broadcast_state) = Done (2, Some i, None)" ..
  then show "txm_step (good_env ''SUCCESS'') broadcast_state confirmed_state"
    by (rule Checks [OF broadcast_state_facts(1) _ _ good_check]) simp
qed

lemma confirmed_state_facts: "confirmed_in (state_of confirmed_state) (fst sample_key) sample_inflight"
  by (simp add: confirmed_in_def state_of_def confirmed_state_def broadcast_state_def enqueued_state_def
      sample_inflight_def set_State_def new_tx_def NewTxStore_def)

theorem finalize_one_decides_witness:
  "\<not> reports (sample_http ''0000000000000005'') (inf_Hash sample_inflight) (world confirmed_state) \<and>
   (\<exists>t'. finalize_one (good_env ''SUCCESS'') (fst sample_key) sample_inflight confirmed_state = Done t'
     \<and> account_status (state_of t') (fst sample_key, ID (objects confirmed_state (inf_Tx sample_inflight))) = Some Finalized)"
proof -
  have "\<not> reports (sample_http ''0000000000000005'') (inf_Hash sample_inflight) (world confirmed_state)"
    by (simp add: reports_def info_result_def sample_http_def)
  moreover have "known sample_env (good_http ''SUCCESS'') (sample_http ''0000000000000005'') (inf_Hash sample_inflight) w" for w
    by (simp add: known_def reports_def info_result_def good_http_def sample_inflight_def Let_def)
  ultimately show ?thesis
    using finalize_one_decides [OF good_confirmed [unfolded good_env_def] confirmed_state_facts]
    by (auto simp: good_env_def simp del: account_status.simps)
qed

subsection \<open>The broadcast retries end\<close>

lemma full_broadcast_cases:
  obtains w' r e where "full_BroadcastTransaction F (Some tx) w = Done (w', r, e)"
    "w' = w \<or> w' = fst (post_broadcasttransaction F tx w)" "e = None \<or> r = None \<or> \<not> br_Result (the r)"
proof -
  obtain v res where p: "post_broadcasttransaction F tx w = (v, res)" by fastforce
  show thesis
  proof (cases "TxID tx = [] \<or> length (Signature tx) < 1")
    case True
    then have "\<exists>e. full_BroadcastTransaction F (Some tx) w = Done (w, None, e)" by (auto simp: full_BroadcastTransaction_def)
    then show thesis using that by auto
  next
    case False
    then have "\<exists>r e. full_BroadcastTransaction F (Some tx) w = Done (v, r, e) \<and> (e = None \<or> r = None \<or> \<not> br_Result (the r))"
      using p by (cases res) (auto simp: full_BroadcastTransaction_def after_rpc_def)
    then show thesis using that [of v] p by auto
  qed
qed

lemma broadcast_retry_ends:
  assumes now: "\<And>w w' n. time_Now E w = (w', n) \<Longrightarrow> n = clock w \<and> clock w \<le> clock w'"
    and sleep: "\<And>w d. clock w + d \<le> clock (time_Sleep E d w)"
    and post: "\<And>x w. clock w \<le> clock (fst (post_broadcasttransaction F x w))"
  shows "\<exists>res. broadcast_retry (on_nodes E F S) start tx resp err w = Some res"
proof (induction "nat (start + MAX_BROADCAST_RETRY_DURATION - clock w)" arbitrary: resp err w rule: less_induct)
  case less
  let ?E = "on_nodes E F S"
  obtain w1 n where n: "time_Now E w = (w1, n)" by fastforce
  note c1 = now [OF n]
  show ?case
  proof (cases "time_Sub n start < MAX_BROADCAST_RETRY_DURATION")
    case False
    then show ?thesis by (subst broadcast_retry.simps) (auto simp: n split: option.splits)
  next
    case early: True
    then have lt: "clock w < start + MAX_BROADCAST_RETRY_DURATION"
      using c1 by (simp add: time_Sub_def MAX_BROADCAST_RETRY_DURATION_def nanos_per_second_def)
    obtain w2 r e where b: "full_BroadcastTransaction F (Some tx) w1 = Done (w2, r, e)"
      and w2: "w2 = w1 \<or> w2 = fst (post_broadcasttransaction F tx w1)" and ok: "e = None \<or> r = None \<or> \<not> br_Result (the r)"
      by (rule full_broadcast_cases)
    have c2: "clock w1 \<le> clock w2" using w2 post [of w1 tx] by auto
    let ?w = "time_Sleep E BROADCAST_DELAY_DURATION w2"
    have "clock w + 2 * nanos_per_second \<le> clock ?w"
      using sleep [of w2 BROADCAST_DELAY_DURATION] c1 c2 by (simp add: BROADCAST_DELAY_DURATION_def)
    then have "nat (start + MAX_BROADCAST_RETRY_DURATION - clock ?w) < nat (start + MAX_BROADCAST_RETRY_DURATION - clock w)"
      using lt by (simp add: nanos_per_second_def)
    note again = less [OF this]
    have step: "broadcast_retry ?E start tx resp err w = (case e of None \<Rightarrow> Some (Done (w2, r, None))
      | Some e' \<Rightarrow> (case r of None \<Rightarrow> Some Panic | Some r' \<Rightarrow>
          if busy r' then broadcast_retry ?E start tx r e ?w else Some (Done (w2, None, Some e'))))"
      using early b ok by (subst broadcast_retry.simps) (auto simp: n NewCombinedClient_def split: option.splits)
    show ?thesis unfolding step using again [of r e] by (cases e; cases r) auto
  qed
qed

text \<open>
  C12. Termination: on the combined client \<open>broadcastTx\<close> ends, when sleeping takes at least the time
  asked for and the clock never runs backwards: each retry sleeps, and after 30 seconds no other starts.
\<close>

theorem broadcast_ends:
  assumes "\<And>w w' n. time_Now E w = (w', n) \<Longrightarrow> n = clock w \<and> clock w \<le> clock w'"
    and "\<And>w d. clock w + d \<le> clock (time_Sleep E d w)"
    and "\<And>x w. clock w \<le> clock (fst (post_broadcasttransaction F x w))"
  shows "\<exists>res. broadcastTx (on_nodes E F S) tx w = Some res"
  using broadcast_retry_ends [of E clock F, OF assms] by (simp add: broadcastTx_def split_beta Let_def)

text \<open>A node that is always busy.\<close>

definition busy_http :: "nat Http" where
  "busy_http = (sample_http ''0000000000000005'')\<lparr>post_broadcasttransaction := \<lambda>_ w. (Suc w,
     Inr \<lparr>br_Result = False, br_Code = ResponseCodeServerBusy, br_TxID = [], br_Message = []\<rparr>)\<rparr>"

theorem broadcast_ends_witness:
  "\<exists>res. broadcastTx (on_nodes sample_env busy_http busy_http) (AddSignatureBytes [] sample_tx) 0 = Some res"
  using broadcast_ends [of sample_env int busy_http busy_http "AddSignatureBytes [] sample_tx" 0]
  by (simp add: busy_http_def)

subsection \<open>The reference block\<close>

lemma two_bytes:
  "256 * uint (ucast (drop_bit 8 n) :: byte) + uint (ucast n :: byte) = uint n mod 65536" for n :: int64
proof -
  have "uint n mod 65536 = 256 * (uint n div 256 mod 256) + uint n mod 256"
    using zmod_zmult2_eq [of 256 "uint n" 256] by simp
  then show ?thesis
    by (simp add: unsigned_ucast_eq take_bit_eq_mod unsigned_drop_bit_eq drop_bit_eq_div uint_div)
qed

text \<open>
  Functional: the reference block is that of the full node's head: two bytes, big endian, of the
  block number, and the eight bytes 8 to 16 of the block ID, as the serializer and the node require.
\<close>

theorem ref_block_of_head:
  assumes "get_getnowblock F () w = (w', Inr b)"
    and "BlockHeader_of b = Some h" and "bh_RawData h = Some raw"
    and "BlockID b = hex_EncodeToString i" and "16 \<le> length i"
  shows "\<exists>b1 b2 hash. computeRefBlockBytesAndHash (on_nodes E F S) w = Done (w', Inr ([b1, b2], hash))
    \<and> 256 * uint b1 + uint b2 = uint (bh_Number raw) mod 65536 \<and> length hash = 8 \<and> hash = take 8 (drop 8 i)"
proof -
  have "sol_GetNowBlock F w = Done (w', Some b, None)"
    using assms(1,2) by (simp add: sol_GetNowBlock_def after_rpc_def check_block_def)
  then have "computeRefBlockBytesAndHash (on_nodes E F S) w = Done (w',
      Inr ([ucast (drop_bit 8 (bh_Number raw)), ucast (bh_Number raw)], take 8 (drop 8 i)))"
    using assms(2-5) by (simp add: computeRefBlockBytesAndHash_def NewCombinedClient_def hex_roundtrip)
  then show ?thesis using two_bytes assms(5) by auto
qed

definition head_id :: bytes where
  "head_id = replicate 8 0 @ [8, 9, 10, 11, 12, 13, 14, 15] @ replicate 16 0"

definition head_http :: "nat Http" where
  "head_http = (sample_http [])\<lparr>get_getnowblock := \<lambda>_ w. (Suc w, Inr (sample_block (hex_EncodeToString head_id) 70000 0))\<rparr>"

theorem ref_block_of_head_witness:
  "\<exists>b1 b2. computeRefBlockBytesAndHash (on_nodes sample_env head_http head_http) 0
      = Done (1, Inr ([b1, b2], [8, 9, 10, 11, 12, 13, 14, 15])) \<and> 256 * uint b1 + uint b2 = 4464"
proof -
  have "take 8 (drop 8 head_id) = [8, 9, 10, 11, 12, 13, 14, 15]" "16 \<le> length head_id"
    by (simp_all add: head_id_def)
  then show ?thesis
    using ref_block_of_head [of head_http 0 1 "sample_block (hex_EncodeToString head_id) 70000 0"
        "\<lparr>bh_RawData = Some (sample_raw 70000 0), bh_WitnessSignature = []\<rparr>"
        "sample_raw 70000 0" head_id sample_env head_http]
    by (simp add: head_http_def sample_block_def sample_raw_def)
qed

subsection \<open>The fee limit\<close>

text \<open>
  C19. Bounds: with a configured energy value, the default multiplier and at most the four bumps the
  retries allow, the fee limit is \<open>price * energy * 1.5 ^ (bumps + 1)\<close>, rounded down, as long as that is
  below \<open>2 ^ 31\<close>; neither the int32 product nor the floating-point padding loses anything.
\<close>

theorem fee_limit_exact:
  assumes "FixedEnergyValue (config E) \<noteq> 0" and "EnergyMultiplier (config E) = DEFAULT_ENERGY_MULTIPLIER"
    and "get_getenergyprices F () (world t) = (w, Inr p)" and "ParseLatestEnergyPrice (Prices p) = (v, None)"
    and "EnergyBumpTimes tx = of_nat n" and "n \<le> 4"
    and "1 \<le> sint v" and "0 \<le> sint (FixedEnergyValue (config E))"
    and "fee = sint v * sint (FixedEnergyValue (config E)) * 3 ^ (n + 1) div 2 ^ (n + 1)" and "fee < 2 ^ 31"
  shows "calculateFeeLimit (on_nodes E F S) tx t = Done (t\<lparr>world := w\<rparr>, Inr (word_of_int fee))"
proof -
  let ?e = "FixedEnergyValue (config E)"
  let ?P = "sint v * sint ?e"
  have P0: "0 \<le> ?P" using assms(7,8) by simp
  have n: "n = 0 \<or> n = 1 \<or> n = 2 \<or> n = 3 \<or> n = 4" using assms(6) by linarith
  have P: "?P < 2 ^ 31" using assms(9,10) P0 n by auto
  have "sint ?e \<le> ?P" using assms(7,8) by (simp add: mult_le_cancel_right1)
  then have e: "sint (ucast ?e :: int32) = sint ?e"
    using P assms(8) signed_take_bit_int_eq_self [of 31 "sint ?e"] take_bit_int_eq_self [of "sint ?e" 64]
    by (simp add: signed_ucast_eq uint_sint)
  have prod: "sint (v * ucast ?e) = ?P"
    using P P0 e signed_take_bit_int_eq_self [of 31 ?P] by (simp add: sint_word_ariths)
  have "calculateFeeLimit (on_nodes E F S) tx t = Done (t\<lparr>world := w\<rparr>,
      Inr (CalculatePaddedFeeLimit (oob E) (v * ucast ?e) (of_nat n) DEFAULT_ENERGY_MULTIPLIER))"
    using assms(1-5)
    by (simp add: calculateFeeLimit_def estimateEnergy_def energy_unit_price_def NewCombinedClient_def
        full_GetEnergyPrices_def after_rpc_def)
  also have "CalculatePaddedFeeLimit (oob E) (v * ucast ?e) (of_nat n) DEFAULT_ENERGY_MULTIPLIER = word_of_int fee"
    using padded_fee_limit_exact [of "v * ucast ?e" n] prod assms(6,9,10) P0 by simp
  finally show ?thesis .
qed

text \<open>An energy of 8 million at the price of 420 sun: the product wraps and the fee limit is negative.\<close>

theorem fee_limit_wraps:
  "CalculatePaddedFeeLimit f (420 * ucast (8000000 :: int64)) 0 DEFAULT_ENERGY_MULTIPLIER = - 1402450944"
proof -
  have "sint (420 * ucast (8000000 :: int64) :: int32) = - 934967296" by simp
  then show ?thesis
    using float_mul_exact [of "- 934967296" 3 0 "- 1"] math_Pow_default(1)
    by (simp add: CalculatePaddedFeeLimit_def DEFAULT_ENERGY_MULTIPLIER_def float_trunc_def)
qed

definition fixed_env :: "nat Env" where
  "fixed_env = sample_env\<lparr>config := sample_config\<lparr>FixedEnergyValue := 100000\<rparr>\<rparr>"

theorem fee_limit_exact_witness:
  "\<exists>w. calculateFeeLimit (on_nodes fixed_env (sample_http []) (sample_http [])) (new_tx (sample_request ''x'') ''x'' 0) (New 0)
     = Done ((New 0)\<lparr>world := w\<rparr>, Inr 63000000)"
proof -
  have "snd (ParseLatestEnergyPrice ''0:420'') = None" "fst (ParseLatestEnergyPrice ''0:420'') = 420" by code_simp+
  then have "ParseLatestEnergyPrice ''0:420'' = (420, None)" by (cases "ParseLatestEnergyPrice ''0:420''") auto
  moreover have "get_getenergyprices (sample_http []) () (world (New 0)) = (Suc 0, Inr \<lparr>Prices = ''0:420''\<rparr>)"
    by (simp add: sample_http_def New_def)
  moreover have "FixedEnergyValue (config fixed_env) = 100000"
    "EnergyMultiplier (config fixed_env) = DEFAULT_ENERGY_MULTIPLIER" "EnergyBumpTimes (new_tx (sample_request ''x'') ''x'' 0) = 0"
    by (simp_all add: fixed_env_def sample_config_def new_tx_def)
  ultimately show ?thesis
    using fee_limit_exact [of fixed_env "sample_http []" "New 0" "Suc 0" "\<lparr>Prices = ''0:420''\<rparr>" 420
      "new_tx (sample_request ''x'') ''x'' 0" 0 63000000 "sample_http []"] by auto
qed

end
