(* ===== verification/Txm_Stuck.thy ===== *)
theory Txm_Stuck
  imports Txm_Ops
begin

text \<open>
  What becomes of a transaction that is pending but not in the broadcast channel: no step of any
  goroutine ever queues or broadcasts it again. A failed broadcast, a failed preparation and a full
  channel all leave a transaction so.
\<close>

subsection \<open>Transactions keep their key\<close>

definition key :: "'w Env \<Rightarrow> TronTx \<Rightarrow> string \<times> string" where
  "key E tx = (owner_of E (FromAddress tx), ID tx)"

lemma key_upd [simp]:
  "key E (tx\<lparr>State := st\<rparr>) = key E tx" "key E (bump_tx b oo tx) = key E tx" "key E (set_State r st h r') = key E (h r')"
  by (simp_all add: key_def bump_tx_def)

text \<open>What is called, on whose behalf and under which ID; the counters and the state are left out.\<close>

definition call_of :: "TronTx \<Rightarrow> string \<times> address \<times> address \<times> string \<times> goval list" where
  "call_of tx = (ID tx, FromAddress tx, ContractAddress tx, Method tx, Params tx)"

lemma call_of_upd [simp]:
  "call_of (tx\<lparr>State := st\<rparr>) = call_of tx" "call_of (bump_tx b oo tx) = call_of tx"
  "call_of (set_State r st h r') = call_of (h r')"
  by (simp_all add: call_of_def bump_tx_def set_State_def)

definition keeps :: "heap \<Rightarrow> heap \<Rightarrow> bool" where
  "keeps h h' \<longleftrightarrow> (\<forall>r. call_of (h' r) = call_of (h r))"

lemma keeps_key: "keeps h h' \<Longrightarrow> key E (h' r) = key E (h r)"
  by (simp add: keeps_def call_of_def key_def)

lemma keeps_store_calls [simp]:
  "keeps h (fst (fst (OnBroadcasted x e r (h, s))))" "keeps h (fst (fst (OnConfirmed i (h, s))))"
  "keeps h (fst (fst (OnErrored now i (h, s))))" "keeps h (fst (fst (OnFatalError now i (h, s))))"
  "keeps h (fst (fst (OnReorg i (h, s))))" "keeps h (fst (fst (OnFinalized now i (h, s))))"
  by (auto simp: keeps_def OnBroadcasted_def OnConfirmed_def OnErrored_def OnFatalError_def OnReorg_def OnFinalized_def
      split: option.splits)

lemma OnPending_heap: "OnPending r b (h, s) = Done ((h', s'), err) \<Longrightarrow> h' = h"
  by (auto simp: OnPending_def insert_pending_def Let_def split: if_splits option.splits)

text \<open>A step adds nothing to the queue but what it is about.\<close>

definition adds :: "txref set \<Rightarrow> 'w txm \<Rightarrow> 'w txm \<Rightarrow> bool" where
  "adds R t t' \<longleftrightarrow> keeps (objects t) (objects t') \<and> set (queue t') \<subseteq> set (queue t) \<union> R \<and> next_object t' = next_object t"

lemma adds_refl [simp]: "adds R t t"
  by (simp add: adds_def keeps_def)

lemma adds_trans: "adds R t t' \<Longrightarrow> adds R t' t'' \<Longrightarrow> adds R t t''"
  by (auto simp: adds_def keeps_def)

lemma adds_world [simp]: "adds R (t\<lparr>world := w\<rparr>) t' = adds R t t'" "adds R t (t'\<lparr>world := w\<rparr>) = adds R t t'"
  by (simp_all add: adds_def queue_def)

lemma adds_with_store:
  assumes "\<And>h s. keeps h (fst (fst (f (h, s))))"
  shows "adds R t (fst (with_store a f t))"
  using assms by (simp add: adds_def with_store_def on_store_def put_store_def queue_def split_beta)

lemma adds_touch [simp]: "adds R t (touch_store a t)"
  by (simp add: adds_def keeps_def queue_def)

lemma adds_try_send: "r \<in> R \<Longrightarrow> adds R t (fst (try_send E r t))"
  by (auto simp: adds_def keeps_def try_send_def queue_def split: option.splits)

lemma adds_errored: "adds R t (errored E a i t)"
proof -
  obtain w now where n: "time_Now E (world t) = (w, now)" by fastforce
  have "adds R (t\<lparr>world := w\<rparr>) (fst (with_store a (OnErrored now i) (t\<lparr>world := w\<rparr>)))"
    by (rule adds_with_store) simp
  then show ?thesis using n by (simp add: errored_def)
qed

lemma maybeRetry_adds:
  assumes "maybeRetry E a p b oo t = Done t'"
  shows "adds {inf_Tx p} t t'"
proof (cases "MAX_RETRY_ATTEMPTS \<le> Attempt (objects t (inf_Tx p)) \<or> 2 \<le> OutOfTimeErrors (objects t (inf_Tx p))")
  case True
  then show ?thesis using assms adds_errored by (auto simp: maybeRetry_def Let_def split: if_splits)
next
  case False
  let ?t = "t\<lparr>objects := (objects t)(inf_Tx p := bump_tx b oo (objects t (inf_Tx p)))\<rparr>"
  obtain u err where u: "with_store_outcome a (OnPending (inf_Tx p) True) ?t = Done (u, err)"
    "t' = fst (try_send E (inf_Tx p) u)"
    using assms False by (auto simp: maybeRetry_def Let_def outcome_bind_eq_Done)
  have "adds {inf_Tx p} t ?t" by (auto simp: adds_def keeps_def queue_def)
  moreover have "adds {inf_Tx p} ?t u"
    using u(1)
    by (auto simp: with_store_outcome_def on_store_outcome_def put_store_def outcome_bind_eq_Done adds_def keeps_def
        queue_def split: prod.splits dest!: OnPending_heap)
  ultimately have "adds {inf_Tx p} t u" by (rule adds_trans)
  then show ?thesis unfolding u(2) by (rule adds_trans) (simp add: adds_try_send)
qed

lemma check_result_adds:
  assumes "check_result E a p res t = Done t'"
  shows "adds {inf_Tx p} t t'"
proof -
  have "adds {inf_Tx p} t (fst (with_store a (OnConfirmed i) t))" for i
    by (rule adds_with_store) simp
  moreover have "adds {inf_Tx p} t (fst (with_store a (OnFatalError now i) (t\<lparr>world := w\<rparr>)))" for now i w
    using adds_with_store [of "OnFatalError now i" "{inf_Tx p}" "t\<lparr>world := w\<rparr>" a] by simp
  ultimately show ?thesis using assms maybeRetry_adds [of E a p _ _ t t']
    by (auto simp: check_result_def Let_def split: if_splits prod.splits)
qed

lemma check_one_adds:
  assumes "check_one E a ts p t = Done t'"
  shows "adds {inf_Tx p} t t'"
proof -
  obtain w inf err where g: "GetTransactionInfoByIdFullNode (client E) (inf_Hash p) (world t) = Done (w, inf, err)"
    using assms by (auto simp: check_one_def outcome_bind_eq_Done)
  let ?t = "touch_store a (t\<lparr>world := w\<rparr>)"
  have "adds {inf_Tx p} (t\<lparr>world := w\<rparr>) ?t" by (rule adds_touch)
  moreover have "adds {inf_Tx p} ?t t'"
  proof (cases err)
    case (Some e)
    then show ?thesis using assms g maybeRetry_adds [of E a p False False ?t t']
      by (simp add: check_one_def Let_def split: if_splits)
  next
    case None
    then obtain info where "inf = Some info" using assms g by (cases inf) (simp_all add: check_one_def Let_def)
    then show ?thesis using assms g None check_result_adds [of E a p "receipt_Result (ti_Receipt info)" ?t t']
      by (simp add: check_one_def Let_def)
  qed
  ultimately have "adds {inf_Tx p} (t\<lparr>world := w\<rparr>) t'" by (rule adds_trans)
  then show ?thesis by simp
qed

lemma finalize_one_adds:
  assumes "finalize_one E a p t = Done t'"
  shows "adds {inf_Tx p} t t'"
proof -
  obtain w b where g: "gone E (inf_Hash p) (world t) = Done (w, b)"
    using assms by (auto simp: finalize_one_def Let_def outcome_bind_eq_Done)
  let ?t = "t\<lparr>world := w\<rparr>" and ?i = "ID (objects t (inf_Tx p))"
  have 1: "adds {inf_Tx p} ?t (fst (with_store a (OnReorg ?i) ?t))" by (rule adds_with_store) simp
  then have 2: "adds {inf_Tx p} ?t (fst (try_send E (inf_Tx p) (fst (with_store a (OnReorg ?i) ?t))))"
    by (rule adds_trans) (simp add: adds_try_send)
  have 3: "adds {inf_Tx p} ?t (fst (with_store a (OnFinalized now ?i) (?t\<lparr>world := v\<rparr>)))" for now v
    using adds_with_store [of "OnFinalized now ?i" "{inf_Tx p}" "?t\<lparr>world := v\<rparr>" a] by simp
  show ?thesis using assms g 1 2 3
    by (auto simp: finalize_one_def Let_def split: if_splits prod.splits)
qed

lemma submit_adds:
  assumes "submit E req i t = Done (t', err)"
  shows "(\<exists>now. objects t' = (objects t)(next_object t := new_tx req i now))
    \<and> set (queue t') \<subseteq> set (queue t) \<union> {next_object t} \<and> next_object t' = Suc (next_object t)"
proof -
  obtain w now where n: "time_Now E (world t) = (w, now)" by fastforce
  let ?r = "next_object t"
  let ?u = "t\<lparr>world := w, next_object := Suc ?r, objects := (objects t)(?r := new_tx req i now)\<rparr>"
  obtain v e where v: "with_store_outcome (Address_String (lib_of E) (req_FromAddress req)) (OnPending ?r False) ?u = Done (v, e)"
    "t' = fst (try_send E ?r v)"
    using assms n by (auto simp: submit_def Let_def outcome_bind_eq_Done split_beta)
  have "objects v = objects ?u \<and> queue v = queue ?u \<and> next_object v = Suc ?r"
    using v(1)
    by (auto simp: with_store_outcome_def on_store_outcome_def put_store_def outcome_bind_eq_Done queue_def
        split: prod.splits dest!: OnPending_heap)
  moreover have "set (queue t') \<subseteq> set (queue v) \<union> {?r}"
    unfolding v(2) using adds_try_send [of ?r "{?r}" v E] by (simp add: adds_def)
  ultimately show ?thesis using v(2) by (auto simp: queue_def)
qed

lemma Enqueue_adds:
  assumes "Enqueue E req t = Done (t', err)"
  shows "objects t' = objects t \<and> queue t' = queue t \<and> next_object t' = next_object t \<or>
    (\<exists>now. objects t' = (objects t)(next_object t := new_tx req (request_id E req (world t)) now))
    \<and> set (queue t') \<subseteq> set (queue t) \<union> {next_object t} \<and> next_object t' = Suc (next_object t)"
proof -
  let ?a = "owner_of E (req_FromAddress req)"
  obtain w sg where k: "keystore_Sign E ?a [] (world t) = (w, sg)" by fastforce
  obtain w' u where u: "uuid_New E w = (w', u)" by fastforce
  obtain c s where G: "GetTxStore ?a (accounts t) = (c, s)" by fastforce
  consider (same) "objects t' = objects t" "queue t' = queue t" "next_object t' = next_object t"
    | (uuid) "req_ID req = []" "submit E req u (t\<lparr>world := w'\<rparr>) = Done (t', err)"
    | (given) "req_ID req \<noteq> []" "submit E req (req_ID req) (t\<lparr>world := w, accounts := c\<rparr>) = Done (t', err)"
    using assms k u G
    by (cases "length (req_Params req) mod 2 = 1"; cases "param_types_ok (req_Params req)"; cases "req_ID req = []")
      (auto simp: Enqueue_def owner_of_def Let_def queue_def split: sum.splits if_splits)
  then show ?thesis
  proof cases
    case uuid
    then show ?thesis using submit_adds [OF uuid(2)] k u by (simp add: request_id_def queue_def)
  next
    case given
    then show ?thesis using submit_adds [OF given(2)] by (simp add: request_id_def queue_def)
  qed simp
qed

subsection \<open>Stuck transactions\<close>

definition stuck :: "'w Env \<Rightarrow> 'w txm \<Rightarrow> string \<times> string \<Rightarrow> bool" where
  "stuck E t k \<longleftrightarrow> account_status (state_of t) k = Some Pending \<and> (\<forall>r \<in> set (queue t). key E (objects t r) \<noteq> k)"

lemma stuck_adds:
  assumes "stuck E t k" and "adds R t t'" and "\<And>r. r \<in> R \<Longrightarrow> key E (objects t r) \<noteq> k"
    and "account_status (state_of t') k = Some Pending"
  shows "stuck E t' k"
  using assms keeps_key [of "objects t" "objects t'" E] by (auto simp: stuck_def adds_def simp del: account_status.simps)

lemma stuck_same:
  "stuck E t k \<Longrightarrow> state_of t' = state_of t \<Longrightarrow> set (queue t') \<subseteq> set (queue t) \<Longrightarrow> stuck E t' k"
  by (auto simp: stuck_def state_of_def simp del: account_status.simps)

lemma unconfirmed_key:
  assumes "txm_inv E t" and "unconfirmed_in (state_of t) a p"
  shows "key E (objects t (inf_Tx p)) = (a, ID (objects t (inf_Tx p)))"
    and "account_status (state_of t) (a, ID (objects t (inf_Tx p))) = Some Broadcasted"
proof -
  note I = txm_invD(1) [OF assms(1)]
  obtain s where s: "store (accounts t) a = Some s" "unconfirmedTxs s (ID (objects t (inf_Tx p))) = Some p"
    using assms(2) by (auto simp: unconfirmed_in_def state_of_def)
  show "key E (objects t (inf_Tx p)) = (a, ID (objects t (inf_Tx p)))"
    using account_invD(2) [OF I s(1)] store_refs_entry(2) [OF s(2)] by (simp add: key_def owned_by_def)
  show "account_status (state_of t) (a, ID (objects t (inf_Tx p))) = Some Broadcasted"
    using status_unconfirmed [OF account_invD(1) [OF I s(1)] s(2)] s(1) by (simp add: state_of_def status_def)
qed

lemma confirmed_key:
  assumes "txm_inv E t" and "confirmed_in (state_of t) a p"
  shows "key E (objects t (inf_Tx p)) = (a, ID (objects t (inf_Tx p)))"
    and "account_status (state_of t) (a, ID (objects t (inf_Tx p))) = Some Confirmed"
proof -
  note I = txm_invD(1) [OF assms(1)]
  obtain s where s: "store (accounts t) a = Some s" "confirmedTxs s (ID (objects t (inf_Tx p))) = Some p"
    using assms(2) by (auto simp: confirmed_in_def state_of_def)
  show "key E (objects t (inf_Tx p)) = (a, ID (objects t (inf_Tx p)))"
    using account_invD(2) [OF I s(1)] store_refs_entry(3) [OF s(2)] by (simp add: key_def owned_by_def)
  show "account_status (state_of t) (a, ID (objects t (inf_Tx p))) = Some Confirmed"
    using status_confirmed [OF account_invD(1) [OF I s(1)] s(2)] s(1) by (simp add: state_of_def status_def)
qed

lemma stuck_checked:
  assumes "stuck E t k" and "adds {r} t t'" and "key E (objects t r) = (a, i)"
    and "account_status (state_of t) (a, i) \<noteq> Some Pending"
    and "account_status (state_of t') \<in> {account_status (state_of t), spec_status e (a, i) (account_status (state_of t))}"
  shows "stuck E t' k"
proof (rule stuck_adds [OF assms(1,2)])
  have k: "k \<noteq> (a, i)" using assms(1,4) by (auto simp: stuck_def simp del: account_status.simps)
  show "key E (objects t r') \<noteq> k" if "r' \<in> {r}" for r' using that k assms(3) by simp
  show "account_status (state_of t') k = Some Pending"
    using assms(1,5) spec_status_other [OF k] by (auto simp: stuck_def simp del: account_status.simps)
qed

lemma stuck_enqueue:
  assumes inv: "txm_inv E t" and s: "stuck E t k" and u: "uuid_fresh E req t" and run: "Enqueue E req t = Done (t', err)"
  shows "stuck E t' k"
proof -
  let ?k = "(owner_of E (req_FromAddress req), request_id E req (world t))"
  note a = Enqueue_adds [OF run]
  have st: "account_status (state_of t) k = Some Pending" using s by (simp add: stuck_def del: account_status.simps)
  consider "untouched t t'" | "submitted E req (request_id E req (world t)) t t'" "account_status (state_of t) ?k = None"
    using Enqueue_ok [OF inv u] run by auto
  then have new: "queue t' = queue t \<or> ?k \<noteq> k" and st': "account_status (state_of t') k = Some Pending"
    using st by (cases; auto simp: untouched_def submitted_def simp del: account_status.simps)+
  have old: "r \<noteq> next_object t" "key E (objects t r) \<noteq> k" if "r \<in> set (queue t)" for r
    using pending_in_tracked [OF txm_invD(2) [OF inv] txm_invD(4) [OF inv that]] s that by (auto simp: stuck_def)
  have newkey: "key E (new_tx req (request_id E req (world t)) now) = ?k" for now by (simp add: key_def new_tx_def)
  have "key E (objects t' r) \<noteq> k" if r: "r \<in> set (queue t')" for r
  proof (cases "r \<in> set (queue t)")
    case True
    then show ?thesis using old [OF True] a by auto
  next
    case False
    then have "queue t' \<noteq> queue t" using r by auto
    then have "?k \<noteq> k" "r = next_object t" "key E (objects t' (next_object t)) = ?k"
      using new a r False newkey by auto
    then show ?thesis by simp
  qed
  then show ?thesis using st' by (simp add: stuck_def del: account_status.simps)
qed

lemma stuck_send:
  assumes inv: "txm_inv E t" and s: "stuck E t k" and r: "received t = Some r"
    and fresh: "\<And>s. store (accounts t) (owner_of E (FromAddress (objects t r))) = Some s \<Longrightarrow> hash_fresh s (TxID coreTx)"
    and run: "send E r coreTx (t\<lparr>received := None\<rparr>) = Some (Done t')"
  shows "stuck E t' k"
proof -
  let ?u = "t\<lparr>received := None\<rparr>"
  have su: "state_of ?u = state_of t" by (simp add: state_of_def)
  note I = txm_inv_drop [OF inv r]
  have u: "txm_inv E ?u" "pending_in (owner_of E) (state_of ?u) r" "r \<notin> set (queue ?u)" using I su by simp_all
  have sk: "stuck E ?u k" by (rule stuck_same [OF s su]) (auto simp: queue_def r)
  have kr: "key E (objects t r) \<noteq> k" using s received_queued [OF r] by (auto simp: stuck_def)
  from send_cases [OF u(1,2) run] show ?thesis
  proof (elim disjE exE)
    fix w assume t': "t' = ?u\<lparr>world := w\<rparr>"
    show ?thesis unfolding t' by (rule stuck_same [OF sk]) (simp_all add: state_of_def queue_def)
  next
    fix w
    let ?v = "?u\<lparr>world := w\<rparr>"
    assume t': "t' = fst (with_store (owner_of E (FromAddress (objects ?u r)))
        (OnBroadcasted (TxID coreTx) (rd_Expiration (RawData_of coreTx)) r) ?v)"
    have v: "txm_inv E ?v" "pending_in (owner_of E) (state_of ?v) r" "r \<notin> set (queue ?v)"
      using u by (simp_all add: state_of_def queue_def)
    have sv: "stuck E ?v k" by (rule stuck_same [OF sk]) (simp_all add: state_of_def queue_def)
    have f: "hash_fresh s (TxID coreTx)" if "store (accounts ?v) (owner_of E (FromAddress (objects t r))) = Some s" for s
      using that fresh by simp
    have "account_status (state_of t') \<in> {account_status (state_of ?v),
        spec_status Broadcast (key E (objects t r)) (account_status (state_of ?v))}"
      using broadcast_recorded [OF v _ f] t' by (simp add: key_def del: account_status.simps)
    then have st: "account_status (state_of t') k = Some Pending"
      using sv spec_status_other [OF not_sym [OF kr]] by (auto simp: stuck_def simp del: account_status.simps)
    have "adds {} ?v t'" unfolding t' by (rule adds_with_store) simp
    from stuck_adds [OF sv this _ st] show ?thesis by blast
  qed
qed

lemma stuck_reap:
  assumes "txm_inv E t" and "stuck E t k"
  shows "stuck E (reap_iteration E accs ids t) k"
proof -
  have st: "account_status (state_of (reap_iteration E accs ids t)) k = Some Pending"
    using reap_iteration_ok(2) [OF assms(1), of accs ids k] assms(2)
    by (auto simp: stuck_def finished_states_def simp del: account_status.simps)
  have "adds {} t (reap_iteration E accs ids t)"
    by (auto simp: reap_iteration_def adds_def keeps_def queue_def Let_def split: prod.splits)
  from stuck_adds [OF assms(2) this _ st] show ?thesis by blast
qed

lemma stuck_step:
  assumes inv: "txm_inv E t" and s: "stuck E t k" and step: "txm_step E t t'"
  shows "stuck E t' k"
  using step
proof (cases rule: txm_step.cases)
  case (Tick w)
  show ?thesis unfolding Tick by (rule stuck_same [OF s]) (simp_all add: state_of_def queue_def)
next
  case (Enqueues req err)
  then show ?thesis using stuck_enqueue [OF inv s] by simp
next
  case (Receives r q)
  show ?thesis unfolding Receives(1) by (rule stuck_same [OF s]) (use Receives in \<open>auto simp: state_of_def queue_def\<close>)
next
  case (Prepares r coreTx)
  show ?thesis by (rule stuck_same [OF s]) (use only_env_inv [OF prepare_env [OF Prepares(2)]] in simp_all)
next
  case (Drops r t1)
  note e = only_env_inv [OF prepare_env [OF Drops(3)]]
  show ?thesis unfolding Drops(1)
  proof (rule stuck_same [OF s])
    show "state_of (t1\<lparr>received := None\<rparr>) = state_of t" using e(2) by (simp add: state_of_def)
    show "set (queue (t1\<lparr>received := None\<rparr>)) \<subseteq> set (queue t)" using e(5) by (simp add: queue_def)
  qed
next
  case (Sends r coreTx)
  then show ?thesis using stuck_send [OF inv s Sends(1) _ Sends(3)] by blast
next
  case (Checks a p w info err ts)
  note k = unconfirmed_key [OF inv Checks(1)]
  obtain e where "account_status (state_of t') \<in> {account_status (state_of t),
      spec_status e (a, ID (objects t (inf_Tx p))) (account_status (state_of t))}"
    using check_one_reported [OF inv Checks(1-3), of ts] Checks(4)
    by (auto simp: reported_def checked_def simp del: account_status.simps split: option.splits)
  then show ?thesis using stuck_checked [OF s check_one_adds [OF Checks(4)] k(1)] k(2) by simp
next
  case (Finalizes a p)
  note k = confirmed_key [OF inv Finalizes(1)]
  obtain w b where g: "gone E (inf_Hash p) (world t) = Done (w, b)"
    using Finalizes(2) by (auto simp: finalize_one_def outcome_bind_eq_Done Let_def)
  obtain e where "account_status (state_of t') \<in> {account_status (state_of t),
      spec_status e (a, ID (objects t (inf_Tx p))) (account_status (state_of t))}"
    using finalize_one_checked [OF inv Finalizes(1) g] Finalizes(2)
    by (auto simp: checked_def simp del: account_status.simps)
  then show ?thesis using stuck_checked [OF s finalize_one_adds [OF Finalizes(2)] k(1)] k(2) by simp
next
  case (Reaps accs ids)
  then show ?thesis using stuck_reap [OF inv s] by simp
qed

subsection \<open>What is called never changes\<close>

lemma send_calls:
  assumes "send E r coreTx t = Some (Done t')"
  shows "keeps (objects t) (objects t') \<and> next_object t' = next_object t"
proof -
  let ?a = "Address_String (lib_of E) (FromAddress (objects t r))"
  obtain w resp err where sb: "SignAndBroadcast E (FromAddress (objects t r)) coreTx (world (touch_store ?a t)) = Some (Done (w, resp, err))"
    using assms by (auto simp: send_def Let_def outcome_bind_eq_Done)
  let ?t = "(touch_store ?a t)\<lparr>world := w\<rparr>"
  have 0: "adds {} t ?t" by simp
  have 1: "adds {} ?t (fst (with_store ?a (OnBroadcasted x e r) ?t))" for x e by (rule adds_with_store) simp
  have 2: "adds {} ?t (fst (with_store ?a (OnFatalError now i) (?t\<lparr>world := v\<rparr>)))" for now i v
    using adds_with_store [of "OnFatalError now i" "{}" "?t\<lparr>world := v\<rparr>" ?a] by simp
  have "adds {} t t'"
    using assms sb adds_trans [OF 0 1] adds_trans [OF 0 2]
    by (auto simp: send_def Let_def split: option.splits prod.splits)
  then show ?thesis by (simp add: adds_def)
qed

lemma step_calls:
  assumes "txm_step E t t'"
  shows "next_object t \<le> next_object t' \<and> (\<forall>r < next_object t. call_of (objects t' r) = call_of (objects t r))"
  using assms
proof (cases rule: txm_step.cases)
  case (Enqueues req err)
  then show ?thesis using Enqueue_adds [OF Enqueues(2)] by auto
next
  case (Prepares r coreTx)
  then show ?thesis using only_env_inv [OF prepare_env [OF Prepares(2)]] by (simp add: state_of_def)
next
  case (Drops r t1)
  then show ?thesis using only_env_inv [OF prepare_env [OF Drops(3)]] by (simp add: state_of_def)
next
  case (Sends r coreTx)
  then show ?thesis using send_calls [OF Sends(3)] by (simp add: keeps_def)
next
  case (Checks a p w info err ts)
  then show ?thesis using check_one_adds [OF Checks(4)] by (simp add: adds_def keeps_def)
next
  case (Finalizes a p)
  then show ?thesis using finalize_one_adds [OF Finalizes(2)] by (simp add: adds_def keeps_def)
next
  case (Reaps accs ids)
  then show ?thesis by (simp add: reap_iteration_def Let_def split_beta)
qed auto

text \<open>Once entered, a transaction calls the same method with the same parameters for ever.\<close>

lemma steps_calls:
  assumes "(txm_step E)\<^sup>*\<^sup>* t t'" and "r < next_object t"
  shows "call_of (objects t' r) = call_of (objects t r)"
proof -
  have "next_object t \<le> next_object t' \<and> call_of (objects t' r) = call_of (objects t r)"
    using assms(1)
  proof (induction rule: rtranclp_induct)
    case (step t' t'')
    then show ?case using step_calls [OF step(2)] assms(2) by auto
  qed simp
  then show ?thesis by simp
qed

subsection \<open>How transactions get stuck\<close>

lemma same_key_same_ref:
  assumes "txm_inv E t" and "r \<in> set (queue t)" and "r' \<in> set (queue t)" and "key E (objects t r) = key E (objects t r')"
  shows "r = r'"
  using txm_invD(4) [OF assms(1) assms(2)] txm_invD(4) [OF assms(1) assms(3)] assms(4)
  by (auto simp: pending_in_def key_def)

lemma queued_Pending:
  assumes "txm_inv E t" and "r \<in> set (queue t)"
  shows "account_status (state_of t) (key E (objects t r)) = Some Pending"
proof -
  note I = txm_invD [OF assms(1)]
  obtain s where s: "store (accounts t) (owner_of E (FromAddress (objects t r))) = Some s"
    "pendingTxs s (ID (objects t r)) = Some r"
    using I(4) [OF assms(2)] by (auto simp: pending_in_def)
  then show ?thesis using status_pending [OF account_invD(1) [OF I(1) s(1)] s(2)]
    by (simp add: state_of_def status_def key_def)
qed

lemma dropped_stuck:
  assumes inv: "txm_inv E t" and r: "received t = Some r" and "state_of t' = state_of t"
    and "BroadcastChan t' = BroadcastChan t" and "received t' = None"
  shows "stuck E t' (key E (objects t r))"
proof -
  have "key E (objects t r') \<noteq> key E (objects t r)" if "r' \<in> set (BroadcastChan t)" for r'
  proof
    assume "key E (objects t r') = key E (objects t r)"
    then have "r' = r" using same_key_same_ref [OF inv, of r' r] that r by (auto simp: queue_def)
    then show False using txm_invD(3) [OF inv] that r by (auto simp: queue_def)
  qed
  moreover have "account_status (state_of t) (key E (objects t r)) = Some Pending"
    by (rule queued_Pending [OF inv received_queued [OF r]])
  ultimately show ?thesis using assms(3-5)
    by (auto simp: stuck_def queue_def state_of_def simp del: account_status.simps)
qed

lemma failed_send:
  assumes inv: "txm_inv E t" and p: "pending_in (owner_of E) (state_of t) r"
    and sb: "SignAndBroadcast E (FromAddress (objects t r)) coreTx (world t) = Some (Done (w, resp, Some e))"
  shows "\<exists>w. send E r coreTx t = Some (Done (t\<lparr>world := w\<rparr>))"
proof -
  let ?a = "owner_of E (FromAddress (objects t r))"
  note I = txm_invD [OF inv]
  obtain s where s: "store (accounts t) ?a = Some s" "pendingTxs s (ID (objects t r)) = Some r"
    using p by (auto simp: pending_in_def state_of_def)
  have touch: "touch_store ?a t = t" using s(1) by (simp add: touch_store_def GetTxStore_existing)
  obtain w' now where n: "time_Now E w = (w', now)" by fastforce
  have "fst (with_store ?a (OnFatalError now (ID (objects t r))) (t\<lparr>world := w'\<rparr>)) = t\<lparr>world := w'\<rparr>"
    using s OnFatalError_pending [OF account_invD(1) [OF I(1) s(1)] s(2)]
    by (intro with_store_unchanged [of _ _ s]) auto
  then show ?thesis using touch sb n by (auto simp: send_def Let_def owner_of_def)
qed


definition full_env :: "nat Env" where
  "full_env = sample_env\<lparr>config := sample_config\<lparr>BroadcastChanSize := 0\<rparr>\<rparr>"

definition full_state :: "nat txm" where
  "full_state = enqueued_state\<lparr>BroadcastChan := []\<rparr>"

lemma full_enqueue: "Enqueue full_env (sample_request ''x'') (New 0) = Done (full_state, Some ChannelFull)"
  by (simp add: Enqueue_def full_env_def full_state_def New_def sample_request_def sample_key_owner NewAccountStore_def
      GetTxStore_def Has_def NewTxStore_def submit_def with_store_outcome_def on_store_outcome_def put_store_def
      OnPending_def insert_pending_def new_tx_def try_send_def enqueued_state_def Let_def)

lemma full_reachable: "reachable full_env full_state"
proof (rule reachable.step [OF reachable.start])
  show "txm_step full_env (New 0) full_state"
    using full_enqueue by (intro Enqueues [of _ "sample_request ''x''"]) (simp_all add: uuid_fresh_def sample_request_def)
qed

lemma enqueued_status: "account_status (objects enqueued_state, accounts enqueued_state) (fst sample_key, ''x'') = Some Pending"
  by (simp add: enqueued_state_def NewTxStore_def GetStatus_def new_tx_def)

lemma full_stuck: "stuck full_env full_state (fst sample_key, ''x'')"
  using enqueued_status
  by (simp add: stuck_def full_state_def state_of_def queue_def del: account_status.simps) (simp add: enqueued_state_def)


text \<open>
  C18. Error path: when the preparation of a received transaction fails, or signing or
  broadcasting it does, the transaction is left pending and outside the channel: the loop's
  \<open>OnFatalError\<close> refuses a pending transaction, so it never becomes fatally errored.
\<close>

theorem failed_broadcast_stuck:
  assumes "reachable E t" and "received t = Some r"
    and "prepare E (objects t r) t = Done (t1, NotPrepared) \<and> t' = t1\<lparr>received := None\<rparr>
      \<or> SignAndBroadcast E (FromAddress (objects t r)) coreTx (world t) = Some (Done (w, resp, Some e))
        \<and> send E r coreTx (t\<lparr>received := None\<rparr>) = Some (Done t')"
  shows "stuck E t' (key E (objects t r))"
proof -
  note inv = reachable_inv [OF assms(1)]
  show ?thesis using assms(3)
  proof (elim disjE conjE)
    assume p: "prepare E (objects t r) t = Done (t1, NotPrepared)" and t': "t' = t1\<lparr>received := None\<rparr>"
    note e = only_env_inv [OF prepare_env [OF p]]
    have "state_of t' = state_of t" using e(2) by (simp add: t' state_of_def)
    then show ?thesis by (rule dropped_stuck [OF inv assms(2)]) (use e in \<open>simp_all add: t'\<close>)
  next
    assume sb: "SignAndBroadcast E (FromAddress (objects t r)) coreTx (world t) = Some (Done (w, resp, Some e))"
      and run: "send E r coreTx (t\<lparr>received := None\<rparr>) = Some (Done t')"
    have "pending_in (owner_of E) (state_of (t\<lparr>received := None\<rparr>)) r"
      using txm_inv_drop(2) [OF inv assms(2)] by (simp add: state_of_def)
    from failed_send [OF txm_inv_drop(1) [OF inv assms(2)] this, of coreTx] sb
    obtain v where "send E r coreTx (t\<lparr>received := None\<rparr>) = Some (Done (t\<lparr>received := None, world := v\<rparr>))" by auto
    then have "t' = t\<lparr>received := None, world := v\<rparr>" using run by simp
    then show ?thesis by (intro dropped_stuck [OF inv assms(2)]) (simp_all add: state_of_def)
  qed
qed

theorem failed_broadcast_stuck_witness:
  "\<exists>t'. send (good_env []) 0 (sample_tx\<lparr>TxID := ''zz''\<rparr>) (received_state\<lparr>received := None\<rparr>) = Some (Done t')
     \<and> stuck (good_env []) t' (key (good_env []) (objects received_state 0))"
proof -
  let ?tx = "sample_tx\<lparr>TxID := ''zz''\<rparr>"
  have r: "received received_state = Some 0" by (simp add: received_state_def)
  have "snd (hex_DecodeString ''zz'') \<noteq> None" by code_simp
  then obtain b e where "hex_DecodeString ''zz'' = (b, Some e)" by (cases "hex_DecodeString ''zz''") auto
  then have sb: "SignAndBroadcast (good_env []) (FromAddress (objects received_state 0)) ?tx (world received_state)
      = Some (Done (world received_state, None, Some ''failed to decode transaction id''))"
    by (simp add: SignAndBroadcast_def)
  note inv = reachable_inv [OF good_received [of "[]"]]
  have "pending_in (owner_of (good_env [])) (state_of (received_state\<lparr>received := None\<rparr>)) 0"
    using txm_inv_drop(2) [OF inv r] by (simp add: state_of_def)
  from failed_send [OF txm_inv_drop(1) [OF inv r] this, of ?tx] sb
  obtain t' where run: "send (good_env []) 0 ?tx (received_state\<lparr>received := None\<rparr>) = Some (Done t')" by auto
  then have "stuck (good_env []) t' (key (good_env []) (objects received_state 0))"
    using failed_broadcast_stuck [OF good_received r, of "[]" undefined t' ?tx] sb by blast
  with run show ?thesis by blast
qed

text \<open>
  C6. Functional: in every reachable state \<open>Enqueue\<close> returns without a panic. A refused request, and
  one whose ID the account already knows, changes no status and no queue (the known ID without an
  error). A new one becomes pending; with room in the channel it is queued last; with the channel full
  the error is returned and the transaction is stuck, so that sending the request again reports
  success and does nothing.
\<close>

theorem Enqueue_outcome:
  assumes "reachable E t" and "uuid_fresh E req t"
    and "k = (owner_of E (req_FromAddress req), request_id E req (world t))"
  shows "\<exists>t' err. Enqueue E req t = Done (t', err) \<and>
    (case refused E req (world t) of
       Some e \<Rightarrow> err = Some e \<and> untouched t t'
     | None \<Rightarrow>
         if account_status (state_of t) k \<noteq> None then err = None \<and> untouched t t'
         else account_status (state_of t') = (account_status (state_of t))(k \<mapsto> Pending)
           \<and> (if length (BroadcastChan t) < BroadcastChanSize (config E)
              then err = None \<and> BroadcastChan t' = BroadcastChan t @ [next_object t]
              else err = Some ChannelFull \<and> BroadcastChan t' = BroadcastChan t))"
proof -
  note inv = reachable_inv [OF assms(1)]
  show ?thesis
  proof (cases "refused E req (world t)")
    case (Some e)
    then show ?thesis using Enqueue_refused [OF inv Some] by auto
  next
    case None
    show ?thesis
    proof (cases "account_status (state_of t) k")
      case (Some st)
      then have id: "req_ID req \<noteq> []" using assms(2,3) by (auto simp: uuid_fresh_def)
      then have "account_status (state_of t) (owner_of E (req_FromAddress req), req_ID req) \<noteq> None"
        using Some assms(3) by (simp add: request_id_def)
      from Enqueue_known [OF inv None id this] show ?thesis using Some None by auto
    next
      case new: None
      from Enqueue_new [OF inv None] new show ?thesis
        using None assms(3) by (auto simp: submitted_def simp del: account_status.simps split: if_splits)
    qed
  qed
qed

theorem Enqueue_outcome_witness:
  "\<exists>t' err. Enqueue full_env (sample_request ''x'') (full_state) = Done (t', err) \<and> err = None \<and> untouched full_state t'"
proof -
  have ok: "refused full_env (sample_request ''x'') (world full_state) = None"
    by (simp add: refused_def full_env_def sample_request_def)
  have k: "(owner_of full_env (req_FromAddress (sample_request ''x'')),
      request_id full_env (sample_request ''x'') (world full_state)) = (fst sample_key, ''x'')"
    by (simp add: request_id_def sample_request_def owner_of_def full_env_def sample_key_owner)
  have u: "uuid_fresh full_env (sample_request ''x'') full_state" by (simp add: uuid_fresh_def sample_request_def)
  from Enqueue_outcome [OF full_reachable u k [symmetric]] show ?thesis
    using ok full_stuck by (auto simp: stuck_def simp del: account_status.simps)
qed

end
