(* ===== verification/Utils.thy ===== *)
theory Utils
  imports Address
begin

text \<open>
  relayer/utils.go: the topic hash of an event, the text of a list of byte strings and the TRON
  address of a public key.
\<close>

definition GetEventTopicHash :: "lib \<Rightarrow> string \<Rightarrow> string" where
  "GetEventTopicHash L eventSignature = hex_EncodeToString (LegacyKeccak256 L (string_bytes eventSignature))"

definition ByteArrayToStr :: "bytes list \<Rightarrow> string" where
  "ByteArrayToStr b =
     (if length b = 0 then ''[]''
      else let str = foldl (\<lambda>str v. str @ ''0x'' @ hex_EncodeToString v @ '','') ''['' b
           in take (length str - 1) str @ '']'')"

datatype pubkey_error = EmptyPubKey | InvalidPubKey hex_error | PubKeyAddress address_error

definition PublicKeyToTronAddress :: "lib \<Rightarrow> string \<Rightarrow> (pubkey_error + address) outcome" where
  "PublicKeyToTronAddress L pubKey =
     (if pubKey = [] then Done (Inl EmptyPubKey)
      else case StringToAddress L pubKey of
        Inr addr \<Rightarrow> Done (Inr addr)
      | Inl _ \<Rightarrow>
          (case hex_DecodeString pubKey of
             (pubKeyBytes, Some err) \<Rightarrow> Done (Inl (InvalidPubKey err))
           | (pubKeyBytes, None) \<Rightarrow>
               if length pubKeyBytes < 1 then Panic
               else
                 let hashed = LegacyKeccak256 L (drop 1 pubKeyBytes)
                 in if length hashed < 20 then Panic
                    else
                      let addressBytes = drop (length hashed - 20) hashed;
                          tronHexAddress = ''41'' @ hex_EncodeToString addressBytes
                      in Done (case HexToAddress tronHexAddress of
                                 Inl e \<Rightarrow> Inl (PubKeyAddress e) | Inr a \<Rightarrow> Inr a)))"

subsection \<open>Facts\<close>

lemma byte_array_fold:
  "foldl (\<lambda>str v. str @ ''0x'' @ hex_EncodeToString v @ '','') s b
     = s @ concat (List.map (\<lambda>v. ''0x'' @ hex_EncodeToString v @ '','') b)"
  by (induction b arbitrary: s) auto

text \<open>The text of a nonempty list is its elements in hex, separated by commas, in brackets.\<close>

lemma ByteArrayToStr_join:
  "ByteArrayToStr b = ''['' @ join_char CHR '','' (List.map (\<lambda>v. ''0x'' @ hex_EncodeToString v) b) @ '']''"
proof (cases b)
  case (Cons v vs)
  have j: "concat (List.map (\<lambda>v. ''0x'' @ hex_EncodeToString v @ '','') (u # us))
      = join_char CHR '','' (List.map (\<lambda>v. ''0x'' @ hex_EncodeToString v) (u # us)) @ '',''" for u us
    by (induction us arbitrary: u) auto
  have f: "foldl (\<lambda>str v. str @ ''0x'' @ hex_EncodeToString v @ '','') ''['' b
      = ''['' @ join_char CHR '','' (List.map (\<lambda>v. ''0x'' @ hex_EncodeToString v) b) @ '',''"
    unfolding byte_array_fold Cons by (simp only: j)
  show ?thesis unfolding ByteArrayToStr_def f Let_def using Cons by simp
qed (simp add: ByteArrayToStr_def)

lemma hex_DecodeString_not_Nil: "hex_DecodeString s = (b, None) \<Longrightarrow> s \<noteq> [] \<Longrightarrow> b \<noteq> []"
  by (induction s rule: hex_DecodeString.induct) (auto split: option.splits prod.splits)

text \<open>The conversion never panics, and what it returns on the public key path is a 21-byte TRON address.\<close>

lemma PublicKeyToTronAddress_total:
  assumes "\<And>m. length (LegacyKeccak256 L m) = 32"
  shows "\<exists>r. PublicKeyToTronAddress L pubKey = Done r"
  using hex_DecodeString_not_Nil [of pubKey]
  by (auto simp: PublicKeyToTronAddress_def Let_def assms split: sum.splits prod.splits option.splits)

lemma PublicKeyToTronAddress_key:
  assumes "\<And>m. length (LegacyKeccak256 L m) = 32"
    and "StringToAddress L pubKey = Inl e" and "hex_DecodeString pubKey = (b, None)" and "b \<noteq> []"
  shows "PublicKeyToTronAddress L pubKey = Done (Inr (0x41 # drop 12 (LegacyKeccak256 L (drop 1 b))))"
proof -
  have "pubKey \<noteq> []" using assms(3,4) by auto
  moreover have "FromHex (''41'' @ hex_EncodeToString (drop 12 h)) = (0x41 # drop 12 h, None)" for h
  proof -
    have "hex_char 4 = CHR ''4''" "hex_char 1 = CHR ''1''" by (simp_all add: hex_char_def)
    then have e: "''41'' @ hex_EncodeToString (drop 12 h) = hex_EncodeToString (0x41 # drop 12 h)"
      by (simp add: hex_EncodeToString_def)
    have "\<not> Has0xPrefix (''41'' @ hex_EncodeToString (drop 12 h))" by (simp add: Has0xPrefix_def)
    then show ?thesis using length_hex [of "0x41 # drop 12 h"] unfolding e
      by (simp add: FromHex_def Hex2Bytes_def hex_roundtrip)
  qed
  ultimately show ?thesis using assms
    by (simp add: PublicKeyToTronAddress_def HexToAddress_def Let_def Suc_le_eq)
qed

end
