(* ===== verification/Reader.thy ===== *)
theory Reader
  imports Client Utils
begin

text \<open>
  relayer/reader/reader.go: the contract reader. It calls view methods of a contract and collects the
  events of a block, decoding both with the contract's ABI, which it fetches once and keeps.

  A map of decoded values (\<open>map[string]any\<close>) is a partial function to the dynamic values of GoValues.
  The state is the environment of the client and the ABI cache, keyed by the text of the address.
\<close>

type_synonym gomap = "string \<rightharpoonup> goval"
type_synonym abi_cache = "string \<rightharpoonup> JSONABI option"

text \<open>Indexing a Go map: a missing key gives the zero value, here the nil interface.\<close>

definition gomap_get :: "gomap \<Rightarrow> string \<Rightarrow> goval" where
  "gomap_get m k = (case m k of None \<Rightarrow> GNil | Some v \<Rightarrow> v)"

datatype reader_error =
    FetchABI string                 \<comment> \<open>the node did not return the contract\<close>
  | Sighash jsonabi_error
  | TriggerFailed string
  | CallRefused
  | ABIParser jsonabi_error
  | DecodeHex hex_error
  | Unpack string
  | LatestBlock string
  | BlockNumTooHigh uint64
  | GetBlock string

subsection \<open>The interface\<close>

record 'w Reader =
  CallContract :: "address \<Rightarrow> string \<Rightarrow> goval list \<Rightarrow> 'w \<Rightarrow> ('w \<times> gomap \<times> reader_error option) outcome"
  CallContractFullNode :: "address \<Rightarrow> string \<Rightarrow> goval list \<Rightarrow> 'w \<Rightarrow> ('w \<times> gomap \<times> reader_error option) outcome"
  LatestBlockHeight :: "'w \<Rightarrow> ('w \<times> uint64 \<times> reader_error option) outcome"
  GetEventsFromBlock :: "address \<Rightarrow> string \<Rightarrow> uint64 \<Rightarrow> 'w \<Rightarrow> ('w \<times> gomap list \<times> reader_error option) outcome"

subsection \<open>The ABI cache\<close>

definition getContractABI ::
  "lib \<Rightarrow> 'w CombinedClient \<Rightarrow> address \<Rightarrow> 'w \<times> abi_cache \<Rightarrow>
     (('w \<times> abi_cache) \<times> JSONABI option \<times> reader_error option) outcome" where
  "getContractABI L rpc contractAddress = (\<lambda>(w, abi).
     case abi (Address_String L contractAddress) of
       Some a \<Rightarrow> Done ((w, abi), a, None)
     | None \<Rightarrow>
         outcome_bind (GetContract rpc contractAddress w) (\<lambda>(w, response, err).
           case err of
             Some e \<Rightarrow> Done ((w, abi), None, Some (FetchABI e))
           | None \<Rightarrow>
               (case response of
                  None \<Rightarrow> Panic
                | Some r \<Rightarrow> Done ((w, abi(Address_String L contractAddress \<mapsto> gc_ABI r)), gc_ABI r, None))))"

subsection \<open>Calling a contract\<close>

text \<open>The answer of the node, decoded with the output parser of the method.\<close>

definition decode_result ::
  "lib \<Rightarrow> JSONABI \<Rightarrow> string \<Rightarrow> TriggerConstantContractResponse \<Rightarrow> gomap \<times> reader_error option" where
  "decode_result L abi m res =
     (if \<not> re_Result (tc_Result res) \<or> length (ConstantResult res) = 0 then (Map.empty, Some CallRefused)
      else case GetOutputParser L abi m of
        Inl err \<Rightarrow> (Map.empty, Some (ABIParser err))
      | Inr parser \<Rightarrow>
          (case hex_DecodeString (ConstantResult res ! 0) of
             (constantResultBytes, Some err) \<Rightarrow> (Map.empty, Some (DecodeHex err))
           | (constantResultBytes, None) \<Rightarrow>
               (case abi_UnpackIntoMap L parser constantResultBytes of
                  Inl err \<Rightarrow> (Map.empty, Some (Unpack err))
                | Inr result \<Rightarrow> (result, None))))"

text \<open>
  \<open>CallContract\<close> and \<open>CallContractFullNode\<close> differ in the method of the client they call. A nil
  ABI, which a client may return for a contract, is dereferenced.
\<close>

definition call_contract ::
  "lib \<Rightarrow> 'w CombinedClient \<Rightarrow>
     (address \<Rightarrow> address \<Rightarrow> string \<Rightarrow> goval list \<Rightarrow> ('w, TriggerConstantContractResponse) call) \<Rightarrow>
     address \<Rightarrow> string \<Rightarrow> goval list \<Rightarrow> 'w \<times> abi_cache \<Rightarrow>
     (('w \<times> abi_cache) \<times> gomap \<times> reader_error option) outcome" where
  "call_contract L rpc trigger contractAddress m params s =
     outcome_bind (getContractABI L rpc contractAddress s) (\<lambda>((w, cache), abi, err).
       case err of
         Some e \<Rightarrow> Done ((w, cache), Map.empty, Some e)
       | None \<Rightarrow>
           (case abi of
              None \<Rightarrow> Panic
            | Some abi \<Rightarrow>
                (case GetFunctionSignature abi m of
                   Inl e \<Rightarrow> Done ((w, cache), Map.empty, Some (Sighash e))
                 | Inr methodSignature \<Rightarrow>
                     outcome_bind (trigger ZeroAddress contractAddress methodSignature params w) (\<lambda>(w, res, err).
                       case err of
                         Some e \<Rightarrow> Done ((w, cache), Map.empty, Some (TriggerFailed e))
                       | None \<Rightarrow>
                           (case res of
                              None \<Rightarrow> Panic
                            | Some r \<Rightarrow> Done ((w, cache), decode_result L abi m r))))))"

definition rc_CallContract ::
  "lib \<Rightarrow> 'w CombinedClient \<Rightarrow> address \<Rightarrow> string \<Rightarrow> goval list \<Rightarrow> 'w \<times> abi_cache \<Rightarrow>
     (('w \<times> abi_cache) \<times> gomap \<times> reader_error option) outcome" where
  "rc_CallContract L rpc = call_contract L rpc (TriggerConstantContract rpc)"

definition rc_CallContractFullNode ::
  "lib \<Rightarrow> 'w CombinedClient \<Rightarrow> address \<Rightarrow> string \<Rightarrow> goval list \<Rightarrow> 'w \<times> abi_cache \<Rightarrow>
     (('w \<times> abi_cache) \<times> gomap \<times> reader_error option) outcome" where
  "rc_CallContractFullNode L rpc = call_contract L rpc (TriggerConstantContractFullNode rpc)"

subsection \<open>The latest block\<close>

definition rc_LatestBlockHeight ::
  "'w CombinedClient \<Rightarrow> 'w \<times> abi_cache \<Rightarrow> (('w \<times> abi_cache) \<times> uint64 \<times> reader_error option) outcome" where
  "rc_LatestBlockHeight rpc = (\<lambda>(w, cache).
     outcome_bind (GetNowBlock rpc w) (\<lambda>(w, nowBlock, err).
       case err of
         Some e \<Rightarrow> Done ((w, cache), 0, Some (LatestBlock e))
       | None \<Rightarrow>
           (case nowBlock of
              None \<Rightarrow> Panic
            | Some b \<Rightarrow>
                (case BlockHeader_of b of
                   None \<Rightarrow> Panic
                 | Some h \<Rightarrow>
                     (case bh_RawData h of
                        None \<Rightarrow> Panic
                      | Some r \<Rightarrow> Done ((w, cache), bh_Number r, None))))))"

subsection \<open>Events\<close>

definition MaxInt32 :: int where
  "MaxInt32 = 2 ^ 31 - 1"

text \<open>The transactions whose first contract is a call of the address.\<close>

definition triggers :: "string \<Rightarrow> ExecutedTransaction \<Rightarrow> bool" where
  "triggers contractAddressHex tx =
     (let contract = rd_Contract (RawData_of (et_Transaction tx))
      in \<not> length contract < 1
         \<and> par_TypeUrl (con_Parameter (contract ! 0)) = ''type.googleapis.com/protocol.TriggerSmartContract''
         \<and> contractAddressHex = pv_ContractAddress (par_Value (con_Parameter (contract ! 0))))"

definition has_topic :: "string \<Rightarrow> Log \<Rightarrow> bool" where
  "has_topic eventTopicHash log \<longleftrightarrow> log_Topics log \<noteq> [] \<and> log_Topics log ! 0 = eventTopicHash"

fun append_logs :: "string \<Rightarrow> Log list \<Rightarrow> Log list \<Rightarrow> Log list" where
  "append_logs eventTopicHash [] eventLogs = eventLogs"
| "append_logs eventTopicHash (log # logs) eventLogs =
     append_logs eventTopicHash logs (if \<not> has_topic eventTopicHash log then eventLogs else eventLogs @ [log])"

text \<open>One iteration of the loop over the transactions of the block.\<close>

definition collect_logs ::
  "'w CombinedClient \<Rightarrow> string \<Rightarrow> string \<Rightarrow> ExecutedTransaction \<Rightarrow> 'w \<times> Log list \<Rightarrow> ('w \<times> Log list) outcome" where
  "collect_logs rpc contractAddressHex eventTopicHash tx = (\<lambda>(w, eventLogs).
     if \<not> triggers contractAddressHex tx then Done (w, eventLogs)
     else outcome_bind (GetTransactionInfoById rpc (TxID (et_Transaction tx)) w) (\<lambda>(w, transactionInfo, err).
       if err \<noteq> None then Done (w, eventLogs)
       else case transactionInfo of
         None \<Rightarrow> Panic
       | Some info \<Rightarrow> Done (w, append_logs eventTopicHash (ti_Log info) eventLogs)))"

fun decode_events :: "lib \<Rightarrow> Argument list \<Rightarrow> Log list \<Rightarrow> gomap list \<Rightarrow> gomap list \<times> reader_error option" where
  "decode_events L parser [] events = (events, None)"
| "decode_events L parser (log # logs) events =
     (case hex_DecodeString (log_Data log) of
        (dataBytes, Some err) \<Rightarrow> ([], Some (DecodeHex err))
      | (dataBytes, None) \<Rightarrow>
          (case abi_UnpackIntoMap L parser dataBytes of
             Inl err \<Rightarrow> ([], Some (Unpack err))
           | Inr event \<Rightarrow> decode_events L parser logs (events @ [event])))"

text \<open>The block and its logs, once the ABI is known.\<close>

definition fetch_logs ::
  "lib \<Rightarrow> 'w CombinedClient \<Rightarrow> address \<Rightarrow> string \<Rightarrow> uint64 \<Rightarrow> 'w \<Rightarrow> ('w \<times> (reader_error + Log list)) outcome" where
  "fetch_logs L rpc contractAddress eventSignature blockNum w =
     outcome_bind (GetBlockByNum rpc (ucast blockNum) w) (\<lambda>(w, block, err).
       case err of
         Some e \<Rightarrow> Done (w, Inl (GetBlock e))
       | None \<Rightarrow>
           (case block of
              None \<Rightarrow> Panic
            | Some b \<Rightarrow>
                outcome_bind
                  (for_range (collect_logs rpc (Address_Hex contractAddress) (GetEventTopicHash L eventSignature))
                     (bl_Transactions b) (w, []))
                  (\<lambda>(w, eventLogs). Done (w, Inr eventLogs))))"

definition parse_logs :: "lib \<Rightarrow> JSONABI \<Rightarrow> string \<Rightarrow> Log list \<Rightarrow> gomap list \<times> reader_error option" where
  "parse_logs L abi eventName eventLogs =
     (case GetInputParser L abi eventName of
        Inl e \<Rightarrow> ([], Some (ABIParser e))
      | Inr parser \<Rightarrow> decode_events L parser eventLogs [])"

definition rc_GetEventsFromBlock ::
  "lib \<Rightarrow> 'w CombinedClient \<Rightarrow> address \<Rightarrow> string \<Rightarrow> uint64 \<Rightarrow> 'w \<times> abi_cache \<Rightarrow>
     (('w \<times> abi_cache) \<times> gomap list \<times> reader_error option) outcome" where
  "rc_GetEventsFromBlock L rpc contractAddress eventName blockNum s =
     (if uint blockNum > MaxInt32 then Done (s, [], Some (BlockNumTooHigh blockNum))
      else outcome_bind (getContractABI L rpc contractAddress s) (\<lambda>((w, cache), abi, err).
       case err of
         Some e \<Rightarrow> Done ((w, cache), [], Some e)
       | None \<Rightarrow>
           (case abi of
              None \<Rightarrow> Panic
            | Some abi \<Rightarrow>
                (case GetFunctionSignature abi eventName of
                   Inl e \<Rightarrow> Done ((w, cache), [], Some (Sighash e))
                 | Inr eventSignature \<Rightarrow>
                     outcome_bind (fetch_logs L rpc contractAddress eventSignature blockNum w) (\<lambda>(w, r).
                       Done ((w, cache),
                         (case r of Inl e \<Rightarrow> ([], Some e) | Inr eventLogs \<Rightarrow> parse_logs L abi eventName eventLogs)))))))"

definition NewReader :: "lib \<Rightarrow> 'w CombinedClient \<Rightarrow> ('w \<times> abi_cache) Reader" where
  "NewReader L rpc =
     \<lparr>CallContract = rc_CallContract L rpc,
      CallContractFullNode = rc_CallContractFullNode L rpc,
      LatestBlockHeight = rc_LatestBlockHeight rpc,
      GetEventsFromBlock = rc_GetEventsFromBlock L rpc\<rparr>"

definition empty_cache :: abi_cache where
  "empty_cache = Map.empty"

subsection \<open>What the cache keeps\<close>

lemma getContractABI_Done:
  assumes "getContractABI L rpc a (w, c) = Done ((w', c'), abi, err)"
  shows "c \<subseteq>\<^sub>m c' \<and> (err = None \<longrightarrow> c' (Address_String L a) = Some abi) \<and> (err \<noteq> None \<longrightarrow> c' = c)"
  using assms
  by (auto simp: getContractABI_def outcome_bind_eq_Done map_le_def split: option.splits)

lemma getContractABI_cached:
  "c (Address_String L a) = Some abi \<Longrightarrow> getContractABI L rpc a (w, c) = Done ((w, c), abi, None)"
  by (simp add: getContractABI_def)

text \<open>Case analyses of the two operations, by the point where they end.\<close>

lemma call_contractE:
  assumes "call_contract L rpc trigger a m ps (w, c) = Done ((w', c'), res, err)"
  obtains (no_abi) abi e where "getContractABI L rpc a (w, c) = Done ((w', c'), abi, Some e)"
      "res = Map.empty" "err = Some e"
    | (no_method) A e where "getContractABI L rpc a (w, c) = Done ((w', c'), Some A, None)"
      "GetFunctionSignature A m = Inl e" "res = Map.empty" "err = Some (Sighash e)"
    | (failed) w1 A sig r e where "getContractABI L rpc a (w, c) = Done ((w1, c'), Some A, None)"
      "GetFunctionSignature A m = Inr sig" "trigger ZeroAddress a sig ps w1 = Done (w', r, Some e)"
      "res = Map.empty" "err = Some (TriggerFailed e)"
    | (answered) w1 A sig r where "getContractABI L rpc a (w, c) = Done ((w1, c'), Some A, None)"
      "GetFunctionSignature A m = Inr sig" "trigger ZeroAddress a sig ps w1 = Done (w', Some r, None)"
      "decode_result L A m r = (res, err)"
proof -
  obtain w1 c1 abi e where g: "getContractABI L rpc a (w, c) = Done ((w1, c1), abi, e)"
    using assms by (auto simp: call_contract_def outcome_bind_eq_Done)
  show thesis
  proof (cases e)
    case (Some x)
    then show thesis using no_abi assms g by (simp add: call_contract_def)
  next
    case None
    then obtain A where A: "abi = Some A" using assms g by (cases abi) (auto simp: call_contract_def)
    show thesis
    proof (cases "GetFunctionSignature A m")
      case (Inl x)
      then show thesis using no_method assms g None A by (simp add: call_contract_def)
    next
      case (Inr sig)
      then obtain w2 r f where t: "trigger ZeroAddress a sig ps w1 = Done (w2, r, f)"
        using assms g None A by (auto simp: call_contract_def outcome_bind_eq_Done)
      show thesis using failed answered assms g None A Inr t
        by (cases f; cases r) (simp_all add: call_contract_def)
    qed
  qed
qed

lemma GetEventsE:
  assumes "rc_GetEventsFromBlock L rpc a ev n (w, c) = Done ((w', c'), res, err)"
  obtains (too_high) "uint n > MaxInt32" "w' = w" "c' = c" "res = []" "err = Some (BlockNumTooHigh n)"
    | (no_abi) abi e where "\<not> uint n > MaxInt32" "getContractABI L rpc a (w, c) = Done ((w', c'), abi, Some e)"
      "res = []" "err = Some e"
    | (no_event) A e where "\<not> uint n > MaxInt32" "getContractABI L rpc a (w, c) = Done ((w', c'), Some A, None)"
      "GetFunctionSignature A ev = Inl e" "res = []" "err = Some (Sighash e)"
    | (no_block) w1 A sig e where "\<not> uint n > MaxInt32" "getContractABI L rpc a (w, c) = Done ((w1, c'), Some A, None)"
      "GetFunctionSignature A ev = Inr sig" "fetch_logs L rpc a sig n w1 = Done (w', Inl e)" "res = []" "err = Some e"
    | (logs) w1 A sig logs where "\<not> uint n > MaxInt32" "getContractABI L rpc a (w, c) = Done ((w1, c'), Some A, None)"
      "GetFunctionSignature A ev = Inr sig" "fetch_logs L rpc a sig n w1 = Done (w', Inr logs)"
      "parse_logs L A ev logs = (res, err)"
proof (cases "uint n > MaxInt32")
  case True
  then show thesis using too_high assms by (simp add: rc_GetEventsFromBlock_def)
next
  case False
  obtain w1 c1 abi e where g: "getContractABI L rpc a (w, c) = Done ((w1, c1), abi, e)"
    using assms False by (auto simp: rc_GetEventsFromBlock_def outcome_bind_eq_Done)
  show thesis
  proof (cases e)
    case (Some x)
    then show thesis using no_abi assms g False by (simp add: rc_GetEventsFromBlock_def)
  next
    case None
    then obtain A where A: "abi = Some A"
      using assms g False by (cases abi) (auto simp: rc_GetEventsFromBlock_def)
    show thesis
    proof (cases "GetFunctionSignature A ev")
      case (Inl x)
      then show thesis using no_event assms g None A False by (simp add: rc_GetEventsFromBlock_def)
    next
      case (Inr sig)
      then obtain w2 r where t: "fetch_logs L rpc a sig n w1 = Done (w2, r)"
        using assms g None A False by (auto simp: rc_GetEventsFromBlock_def outcome_bind_eq_Done)
      show thesis using no_block logs assms g None A Inr t False
        by (cases r) (simp_all add: rc_GetEventsFromBlock_def)
    qed
  qed
qed

lemma call_contract_keeps:
  "call_contract L rpc trigger a m ps (w, c) = Done ((w', c'), res, err) \<Longrightarrow> c \<subseteq>\<^sub>m c'"
  by (erule call_contractE) (auto dest: getContractABI_Done)

lemma LatestBlockHeight_keeps:
  "rc_LatestBlockHeight rpc (w, c) = Done ((w', c'), h, err) \<Longrightarrow> c' = c"
  by (auto simp: rc_LatestBlockHeight_def outcome_bind_eq_Done split: option.splits)

lemma GetEvents_keeps:
  "rc_GetEventsFromBlock L rpc a ev n (w, c) = Done ((w', c'), evs, err) \<Longrightarrow> c \<subseteq>\<^sub>m c'"
  by (erule GetEventsE) (auto dest: getContractABI_Done)

lemma getContractABI_again:
  assumes "getContractABI L rpc a (w, c) = Done ((w', c'), abi, None)" and "c' \<subseteq>\<^sub>m c2"
  shows "getContractABI L rpc a (w2, c2) = Done ((w2, c2), abi, None)"
proof (rule getContractABI_cached)
  have "c' (Address_String L a) = Some abi" using getContractABI_Done [OF assms(1)] by simp
  then show "c2 (Address_String L a) = Some abi" using assms(2) by (force simp: map_le_def)
qed

text \<open>
  C31. Invariant: no operation of the reader ever changes or drops a cached ABI, and once the ABI
  of a contract has been fetched the reader uses that one without asking the node again.
\<close>

theorem reader_abi_once:
  "(rc_CallContract L rpc a m ps (w, c) = Done ((w', c'), res, err) \<longrightarrow> c \<subseteq>\<^sub>m c')
   \<and> (rc_CallContractFullNode L rpc a m ps (w, c) = Done ((w', c'), res, err) \<longrightarrow> c \<subseteq>\<^sub>m c')
   \<and> (rc_LatestBlockHeight rpc (w, c) = Done ((w', c'), h, err) \<longrightarrow> c \<subseteq>\<^sub>m c')
   \<and> (rc_GetEventsFromBlock L rpc a ev n (w, c) = Done ((w', c'), evs, err) \<longrightarrow> c \<subseteq>\<^sub>m c')
   \<and> (getContractABI L rpc a (w, c) = Done ((w', c'), abi, None) \<and> c' \<subseteq>\<^sub>m c2 \<longrightarrow>
        getContractABI L rpc a (w2, c2) = Done ((w2, c2), abi, None))"
  by (auto simp: rc_CallContract_def rc_CallContractFullNode_def getContractABI_again
      dest: call_contract_keeps GetEvents_keeps LatestBlockHeight_keeps)

subsection \<open>What a call returns\<close>

lemma decode_result_None:
  "decode_result L abi m r = (res, None) \<longleftrightarrow>
     re_Result (tc_Result r) \<and> (\<exists>h hs parser b. ConstantResult r = h # hs \<and> GetOutputParser L abi m = Inr parser
       \<and> hex_DecodeString h = (b, None) \<and> abi_UnpackIntoMap L parser b = Inr res)"
  by (cases "ConstantResult r"; cases "hex_DecodeString (ConstantResult r ! 0)")
    (auto simp: decode_result_def split: sum.splits option.splits)

lemma decode_result_Some: "decode_result L abi m r = (res, Some e) \<Longrightarrow> res = Map.empty"
  by (auto simp: decode_result_def split: if_splits sum.splits option.splits prod.splits)

lemma call_contract_error:
  assumes "call_contract L rpc trigger a m ps (w, c) = Done ((w', c'), res, Some e)"
  shows "res = Map.empty"
  using assms decode_result_Some by (blast elim: call_contractE)


subsection \<open>Which events are returned\<close>

text \<open>What the node answered for a transaction: no logs when the request failed.\<close>

definition answered :: "'w CombinedClient \<Rightarrow> ExecutedTransaction \<Rightarrow> Log list \<Rightarrow> bool" where
  "answered rpc tx logs \<longleftrightarrow>
     (\<exists>w w' r err. GetTransactionInfoById rpc (TxID (et_Transaction tx)) w = Done (w', r, err)
        \<and> logs = (if err = None then ti_Log (the r) else []))"

lemma append_logs_filter: "append_logs h logs acc = acc @ filter (has_topic h) logs"
  by (induction logs arbitrary: acc) auto

lemma collect_logs_Done:
  assumes "collect_logs rpc x h tx (w, logs) = Done (w', logs')"
  shows "if triggers x tx then \<exists>a. answered rpc tx a \<and> logs' = logs @ filter (has_topic h) a else logs' = logs"
proof (cases "triggers x tx")
  case True
  then obtain w1 r err where t: "GetTransactionInfoById rpc (TxID (et_Transaction tx)) w = Done (w1, r, err)"
    using assms by (auto simp: collect_logs_def outcome_bind_eq_Done)
  then have "answered rpc tx (if err = None then ti_Log (the r) else [])" unfolding answered_def by blast
  moreover have "logs' = logs @ filter (has_topic h) (if err = None then ti_Log (the r) else [])"
    using assms t True by (cases err; cases r) (auto simp: collect_logs_def append_logs_filter)
  ultimately show ?thesis using True by auto
next
  case False
  then show ?thesis using assms by (simp add: collect_logs_def)
qed

lemma collect_all_logs:
  assumes "for_range (collect_logs rpc x h) txs (w, logs) = Done (w', logs')"
  shows "\<exists>answers. list_all2 (answered rpc) (filter (triggers x) txs) answers
    \<and> logs' = logs @ filter (has_topic h) (concat answers)"
  using assms
proof (induction txs arbitrary: w logs)
  case (Cons tx txs)
  then obtain w1 logs1 where one: "collect_logs rpc x h tx (w, logs) = Done (w1, logs1)"
    and rest: "for_range (collect_logs rpc x h) txs (w1, logs1) = Done (w', logs')"
    by (auto simp: outcome_bind_eq_Done)
  obtain answers where a: "list_all2 (answered rpc) (filter (triggers x) txs) answers"
    "logs' = logs1 @ filter (has_topic h) (concat answers)" using Cons.IH [OF rest] by blast
  show ?case
  proof (cases "triggers x tx")
    case True
    then obtain b where "answered rpc tx b" "logs1 = logs @ filter (has_topic h) b"
      using collect_logs_Done [OF one] by auto
    then show ?thesis using a True by (intro exI [of _ "b # answers"]) simp
  next
    case False
    then show ?thesis using a collect_logs_Done [OF one] by auto
  qed
qed auto

text \<open>A decoded event is the log's data, from hex, unpacked with the event's types.\<close>

definition decoded :: "lib \<Rightarrow> Argument list \<Rightarrow> Log \<Rightarrow> gomap \<Rightarrow> bool" where
  "decoded L parser log event \<longleftrightarrow>
     (\<exists>d. hex_DecodeString (log_Data log) = (d, None) \<and> abi_UnpackIntoMap L parser d = Inr event)"

lemma decode_events_None:
  "decode_events L parser logs acc = (events, None) \<longleftrightarrow>
     (\<exists>es. list_all2 (decoded L parser) logs es \<and> events = acc @ es)"
proof (induction logs arbitrary: acc)
  case (Cons log logs)
  show ?case
    by (cases "hex_DecodeString (log_Data log)"; cases "snd (hex_DecodeString (log_Data log))")
      (auto simp: Cons.IH list_all2_Cons1 decoded_def split: sum.splits)
qed auto

text \<open>A log whose first topic is \<open>h\<close>.\<close>

definition carries :: "string \<Rightarrow> Log \<Rightarrow> bool" where
  "carries h l \<longleftrightarrow> (\<exists>hs. log_Topics l = h # hs)"

lemma has_topic_carries: "has_topic h = carries h"
  by (rule ext) (auto simp: has_topic_def carries_def neq_Nil_conv)

text \<open>
  C29. Functional: the events returned are exactly the logs of the block's calls to the contract that
  carry the event's topic hash, in the order of the block, each decoded with the event's input types;
  a call whose transaction info the node fails to return contributes none.
\<close>

theorem reader_events_exact:
  assumes "rc_GetEventsFromBlock L rpc a ev n (w, c) = Done ((w', c'), events, None)"
  shows "uint n < 2 ^ 31
    \<and> (\<exists>w1 w2 abi sig parser b answers.
        getContractABI L rpc a (w, c) = Done ((w1, c'), Some abi, None)
      \<and> GetFunctionSignature abi ev = Inr sig \<and> GetInputParser L abi ev = Inr parser
      \<and> GetBlockByNum rpc (ucast n) w1 = Done (w2, Some b, None)
      \<and> list_all2 (answered rpc) (filter (triggers (Address_Hex a)) (bl_Transactions b)) answers
      \<and> list_all2 (decoded L parser)
          (filter (carries (hex_EncodeToString (LegacyKeccak256 L (string_bytes sig)))) (concat answers)) events)"
  using assms
proof (cases rule: GetEventsE)
  case (logs w1 A sig logs)
  from logs(4) obtain w2 b where block: "GetBlockByNum rpc (ucast n) w1 = Done (w2, Some b, None)"
    and loop: "for_range (collect_logs rpc (Address_Hex a) (GetEventTopicHash L sig)) (bl_Transactions b) (w2, [])
      = Done (w', logs)"
    by (auto simp: fetch_logs_def outcome_bind_eq_Done split: option.splits)
  from collect_all_logs [OF loop] obtain answers where
    answers: "list_all2 (answered rpc) (filter (triggers (Address_Hex a)) (bl_Transactions b)) answers"
      "logs = filter (carries (GetEventTopicHash L sig)) (concat answers)" by (auto simp: has_topic_carries)
  from logs(5) obtain parser where "GetInputParser L A ev = Inr parser"
    "list_all2 (decoded L parser) logs events"
    by (auto simp: parse_logs_def decode_events_None split: sum.splits)
  then show ?thesis using logs(1-3) block answers by (auto simp: MaxInt32_def GetEventTopicHash_def)
qed auto

text \<open>The address a log was emitted from is not compared: a log of another contract is kept.\<close>

lemma collect_logs_any_address:
  assumes "triggers x tx" and "GetTransactionInfoById rpc (TxID (et_Transaction tx)) w = Done (w', Some info, None)"
    and "ti_Log info = [\<lparr>log_Address = any, log_Topics = [h], log_Data = d\<rparr>]"
  shows "collect_logs rpc x h tx (w, logs) = Done (w', logs @ [\<lparr>log_Address = any, log_Topics = [h], log_Data = d\<rparr>])"
  using assms by (simp add: collect_logs_def has_topic_def)

subsection \<open>A node to evaluate on\<close>

text \<open>
  The node has one contract, one block with one call of it and one log; the library unpacks all data
  to the values \<open>V\<close>. The state counts the requests.
\<close>

definition reader_lib :: "gomap \<Rightarrow> lib" where
  "reader_lib V = sample_lib\<lparr>
     base58_Encode := \<lambda>b. ''T12345678'' @ bytes_string b,
     base58_Decode := \<lambda>s. Inr (string_bytes (drop 9 s)),
     abi_UnpackIntoMap := \<lambda>as b. Inr V\<rparr>"

definition plain_entry :: "string \<Rightarrow> Entry" where
  "plain_entry nm = \<lparr>entry_Name = nm, Anonymous = False, Constant = True, Payable = False,
     StateMutability = [], entry_Type = [], Inputs = [], Outputs = []\<rparr>"

definition reader_abi :: JSONABI where
  "reader_abi = \<lparr>Entrys = List.map plain_entry
     [''latestConfigDetails'', ''latestTransmissionDetails'', ''latestRoundData'', ''linkAvailableForPayment'',
      ''getBilling'', ''ConfigSet'']\<rparr>"

definition reader_contract :: GetContractResponse where
  "reader_contract = \<lparr>gc_OriginAddress = [], gc_ContractAddress = [], gc_ABI = Some reader_abi, gc_Bytecode = [],
     gc_CallValue = 0, gc_ConsumeUserResourcePercent = 0, gc_Name = [], gc_OriginEnergyLimit = 0, gc_CodeHash = []\<rparr>"

definition reader_answer :: TriggerConstantContractResponse where
  "reader_answer = \<lparr>tc_Result = \<lparr>re_Result = True, re_Code = [], re_Message = []\<rparr>, EnergyUsed = 0, EnergyPenalty = 0,
     ConstantResult = [[]], tc_Transaction = None\<rparr>"

definition reader_log :: "string \<Rightarrow> Log" where
  "reader_log topic = \<lparr>log_Address = ''other'', log_Topics = [topic], log_Data = []\<rparr>"

definition reader_tx :: "address \<Rightarrow> ExecutedTransaction" where
  "reader_tx a =
     \<lparr>et_Transaction = \<lparr>Visible = False, TxID = ''tx'',
        RawData_of = \<lparr>rd_Contract = [\<lparr>con_Parameter = \<lparr>par_Value = \<lparr>pv_OwnerAddress = [], pv_ToAddress = [],
            pv_Data = [], pv_ContractAddress = Address_Hex a, pv_Amount = 0, pv_NewContract = None\<rparr>,
          par_TypeUrl = ''type.googleapis.com/protocol.TriggerSmartContract''\<rparr>, con_Type = []\<rparr>],
        rd_RefBlockBytes = [], rd_RefBlockHash = [], rd_Expiration = 0, rd_FeeLimit = 0, rd_Timestamp = 0\<rparr>,
      RawDataHex = [], Signature = []\<rparr>, et_Ret = []\<rparr>"

definition reader_info :: TransactionInfo where
  "reader_info = \<lparr>ti_ID = ''tx'', ti_Fee = 0, ti_BlockNumber = 0, ti_BlockTimeStamp = 0, ti_ContractResult = [],
     ti_ContractAddress = [],
     ti_Receipt = \<lparr>EnergyUsage = 0, EnergyFee = 0, OriginEnergyUsage = 0, EnergyUsageTotal = 0, NetUsage = 0, NetFee = 0,
       receipt_Result = [], EnergyPenaltyTotal = 0\<rparr>,
     ti_Log = [reader_log (GetEventTopicHash sample_lib ''ConfigSet()''), reader_log ''another''],
     ti_Result = [], ti_ResMessage = [], ti_WithdrawAmount = 0, ti_UnfreezeAmount = 0, ti_InternalTransactions = [],
     ti_WithdrawExpireAmount = 0, ti_CancelUnfreezev2Amount = Map.empty\<rparr>"

definition reader_http :: "address \<Rightarrow> nat Http" where
  "reader_http a = (sample_http ''0000000000000005'')\<lparr>
     post_getcontract := \<lambda>_ w. (Suc w, Inr reader_contract),
     post_triggerconstantcontract := \<lambda>_ w. (Suc w, Inr reader_answer),
     post_getblockbynum := \<lambda>_ w. (Suc w, Inr ((sample_block ''0000000000000005'' 7 0)\<lparr>bl_Transactions := [reader_tx a]\<rparr>)),
     post_gettransactioninfobyid := \<lambda>_ w. (Suc w, Inr reader_info)\<rparr>"

definition reader_client :: "gomap \<Rightarrow> address \<Rightarrow> nat CombinedClient" where
  "reader_client V a = NewCombinedClient (reader_lib V) (reader_http a) (reader_http a)"

lemma reader_lib_simps [simp]:
  "abi_UnpackIntoMap (reader_lib V) as b = Inr V" "abi_PackValues (reader_lib V) ts vs = Inr []"
  "LegacyKeccak256 (reader_lib V) = LegacyKeccak256 sample_lib"
  by (simp_all add: reader_lib_def sample_lib_def)

lemmas reader_sample =
  reader_client_def NewCombinedClient_def reader_http_def full_GetContract_def after_rpc_def reader_contract_def

lemma sample_abi_fetched:
  "getContractABI (reader_lib V) (reader_client V b) a (w, Map.empty)
     = Done ((Suc w, [Address_String (reader_lib V) a \<mapsto> Some reader_abi]), Some reader_abi, None)"
  by (simp add: getContractABI_def reader_sample)

lemma sample_requests:
  "TriggerConstantContract (reader_client V b) z a sig [] w = Done (Suc w, Some reader_answer, None)"
  "TriggerConstantContractFullNode (reader_client V b) z a sig [] w = Done (Suc w, Some reader_answer, None)"
  "GetBlockByNum (reader_client V b) n w
     = Done (Suc w, Some ((sample_block ''0000000000000005'' 7 0)\<lparr>bl_Transactions := [reader_tx b]\<rparr>), None)"
  "GetTransactionInfoById (reader_client V b) i w = Done (Suc w, Some reader_info, None)"
  by (simp_all add: reader_client_def NewCombinedClient_def sol_TriggerConstantContract_def with_params_def
      GetPaddedParam_def reader_http_def after_rpc_def reader_answer_def sol_GetBlockByNum_def check_block_def
      sample_block_def sol_GetTransactionInfoById_def reader_info_def)

lemma sample_decoded:
  assumes "m \<in> entry_Name ` set (Entrys reader_abi)"
  shows "GetFunctionSignature reader_abi m = Inr (m @ ''()'')" "decode_result (reader_lib V) reader_abi m reader_answer = (V, None)"
    "GetInputParser (reader_lib V) reader_abi m = Inr []"
proof -
  obtain e where "find_entry m (Entrys reader_abi) = Some e" "Inputs e = []" "Outputs e = []"
    using assms by (auto simp: reader_abi_def plain_entry_def)
  then show "GetFunctionSignature reader_abi m = Inr (m @ ''()'')" "decode_result (reader_lib V) reader_abi m reader_answer = (V, None)"
    "GetInputParser (reader_lib V) reader_abi m = Inr []"
    by (simp_all add: GetFunctionSignature_def strings_Join_def GetOutputParser_def GetInputParser_def decode_result_def reader_answer_def)
qed

lemma sample_call:
  assumes "m \<in> entry_Name ` set (Entrys reader_abi)"
  shows "rc_CallContract (reader_lib V) (reader_client V b) a m [] (w, Map.empty)
     = Done ((Suc (Suc w), [Address_String (reader_lib V) a \<mapsto> Some reader_abi]), V, None)"
    and "rc_CallContractFullNode (reader_lib V) (reader_client V b) a m [] (w, Map.empty)
     = Done ((Suc (Suc w), [Address_String (reader_lib V) a \<mapsto> Some reader_abi]), V, None)"
  by (simp_all add: rc_CallContract_def rc_CallContractFullNode_def call_contract_def sample_abi_fetched sample_requests
      sample_decoded [OF assms])

lemma sample_topic:
  "GetEventTopicHash (reader_lib V) s = GetEventTopicHash sample_lib s"
  "GetEventTopicHash sample_lib ''ConfigSet()'' \<noteq> ''another''"
proof -
  show "GetEventTopicHash (reader_lib V) s = GetEventTopicHash sample_lib s" by (simp add: GetEventTopicHash_def)
  show "GetEventTopicHash sample_lib ''ConfigSet()'' \<noteq> ''another''"
  proof
    assume h: "GetEventTopicHash sample_lib ''ConfigSet()'' = ''another''"
    have "length (GetEventTopicHash sample_lib ''ConfigSet()'') = 64"
      by (simp add: GetEventTopicHash_def length_hex sample_lib_def)
    then show False unfolding h by simp
  qed
qed

lemma sample_events_with:
  assumes "getContractABI (reader_lib V) (reader_client V a) a s = Done ((w, c), Some reader_abi, None)"
  shows "rc_GetEventsFromBlock (reader_lib V) (reader_client V a) a ''ConfigSet'' 7 s = Done ((w + 2, c), [V], None)"
proof -
  have entry: "''ConfigSet'' \<in> entry_Name ` set (Entrys reader_abi)" by (simp add: reader_abi_def plain_entry_def)
  show ?thesis
    by (simp add: rc_GetEventsFromBlock_def MaxInt32_def assms sample_decoded [OF entry] fetch_logs_def
        sample_requests collect_logs_def triggers_def reader_tx_def sample_topic sample_topic(2) [symmetric] parse_logs_def
        reader_info_def has_topic_def reader_log_def)
qed

lemma sample_events:
  "rc_GetEventsFromBlock (reader_lib V) (reader_client V a) a ''ConfigSet'' 7 (w, Map.empty)
     = Done ((w + 3, [Address_String (reader_lib V) a \<mapsto> Some reader_abi]), [V], None)"
  using sample_events_with [OF sample_abi_fetched, of V a w] by (simp add: eval_nat_numeral)

theorem reader_abi_once_witness:
  "getContractABI (reader_lib Map.empty) (reader_client Map.empty []) sample_address
     (9, [Address_String (reader_lib Map.empty) sample_address \<mapsto> Some reader_abi])
   = Done ((9, [Address_String (reader_lib Map.empty) sample_address \<mapsto> Some reader_abi]), Some reader_abi, None)"
  using reader_abi_once [of "reader_lib Map.empty" "reader_client Map.empty []" sample_address _ _ 0 Map.empty]
    sample_abi_fetched [of Map.empty "[]" sample_address 0] map_le_refl by blast


theorem reader_events_exact_witness:
  "\<exists>answers. list_all2 (answered (reader_client Map.empty sample_address)) [reader_tx sample_address] answers
     \<and> length (filter (carries (GetEventTopicHash sample_lib ''ConfigSet()'')) (concat answers)) = 1"
proof -
  have trig: "triggers (Address_Hex sample_address) (reader_tx sample_address)"
    by (simp add: triggers_def reader_tx_def)
  from reader_events_exact [OF sample_events [of Map.empty sample_address 0]]
  obtain w2 b answers parser where
    b: "GetBlockByNum (reader_client Map.empty sample_address) (ucast (7 :: uint64)) (Suc 0) = Done (w2, Some b, None)"
    and l: "list_all2 (answered (reader_client Map.empty sample_address))
        (filter (triggers (Address_Hex sample_address)) (bl_Transactions b)) answers"
    and d: "list_all2 (decoded (reader_lib Map.empty) parser)
        (filter (carries (GetEventTopicHash sample_lib ''ConfigSet()'')) (concat answers)) [Map.empty]"
    by (auto simp: sample_abi_fetched GetEventTopicHash_def GetFunctionSignature_def reader_abi_def
        plain_entry_def strings_Join_def)
  have "bl_Transactions b = [reader_tx sample_address]" using b by (auto simp: sample_requests)
  then show ?thesis using l d list_all2_lengthD [OF d] trig by (intro exI [of _ answers]) simp
qed

end
