(* ===== verification/Ocr2_Reader.thy ===== *)
theory Ocr2_Reader
  imports Reader
begin

text \<open>
  relayer/ocr2: the data (types.go), the reader of the OCR2 aggregator contract (ocr2_reader.go) and
  the contract reader that libocr is given (contract_reader.go).

  A function that returns a value and an error returns a sum here: with an error the Go code always
  returns the zero value.
\<close>

subsection \<open>types.go, and the types of libocr it builds on\<close>

type_synonym ConfigDigest = bytes     \<comment> \<open>[32]byte\<close>

record OcrContractConfig =
  cc_ConfigDigest :: ConfigDigest
  cc_ConfigCount :: uint64
  cc_Signers :: "bytes list"
  cc_Transmitters :: "string list"
  cc_F :: uint8
  cc_OnchainConfig :: bytes
  cc_OffchainConfigVersion :: uint64
  cc_OffchainConfig :: bytes

record ContractConfigDetails =
  cd_Block :: uint64
  cd_Digest :: ConfigDigest

record ContractConfig =
  cfg_Config :: OcrContractConfig
  cfg_ConfigBlock :: uint64

record TransmissionDetails =
  td_Digest :: ConfigDigest
  td_Epoch :: uint32
  td_Round :: uint8
  td_LatestAnswer :: "int option"
  td_LatestTimestamp :: gtime

record BillingDetails =
  ObservationPaymentGJuels :: uint32
  TransmissionPaymentGJuels :: uint32

record RoundData =
  RoundID :: uint32
  Answer :: "int option"
  StartedAt :: gtime
  UpdatedAt :: gtime

record NewTransmissionEvent =
  nt_RoundId :: uint32
  nt_LatestAnswer :: "int option"
  nt_Transmitter :: "address option"
  nt_LatestTimestamp :: gtime
  nt_Observers :: "uint8 list"
  nt_ObservationsLen :: uint32
  nt_Observations :: "int option list"
  nt_JuelsPerFeeCoin :: "int option"
  nt_GasPrice :: "int option"
  nt_ConfigDigest :: ConfigDigest
  nt_Epoch :: uint32
  nt_Round :: uint8
  nt_Reimbursement :: "int option"

datatype ocr_error =
    CallFailed reader_error
  | WrongType string                  \<comment> \<open>the key whose type assertion failed\<close>
  | EventsFailed reader_error
  | ConfigSetCount nat
  | HeightFailed reader_error

subsection \<open>Type assertions on the decoded values\<close>

fun result_bind :: "'e + 'a \<Rightarrow> ('a \<Rightarrow> 'e + 'b) \<Rightarrow> 'e + 'b" where
  "result_bind (Inl e) f = Inl e"
| "result_bind (Inr x) f = f x"

definition asserted :: "(goval \<Rightarrow> 'a option) \<Rightarrow> gomap \<Rightarrow> string \<Rightarrow> ocr_error + 'a" where
  "asserted as m k = (case as (gomap_get m k) of None \<Rightarrow> Inl (WrongType k) | Some v \<Rightarrow> Inr v)"

lemma result_bind_eq_Inr: "result_bind m f = Inr y \<longleftrightarrow> (\<exists>x. m = Inr x \<and> f x = Inr y)"
  by (cases m) auto

lemma asserted_eq_Inr: "asserted as m k = Inr v \<longleftrightarrow> as (gomap_get m k) = Some v"
  by (auto simp: asserted_def split: option.splits)

text \<open>
  \<open>big.Int.Uint64\<close> is the low 64 bits of the absolute value, \<open>Int64\<close> the same with the sign applied.
\<close>

definition big_Uint64 :: "int \<Rightarrow> uint64" where
  "big_Uint64 n = word_of_int \<bar>n\<bar>"

definition big_Int64 :: "int \<Rightarrow> int64" where
  "big_Int64 n = (if n < 0 then - word_of_int \<bar>n\<bar> else word_of_int \<bar>n\<bar>)"

subsection \<open>ocr2_reader.go\<close>

text \<open>What every read does with the outcome of the call, \<open>parse\<close> being its own part.\<close>

definition parsed ::
  "('w \<times> gomap \<times> reader_error option) outcome \<Rightarrow> (gomap \<Rightarrow> (ocr_error + 'a) outcome) \<Rightarrow> ('w \<times> (ocr_error + 'a)) outcome" where
  "parsed call parse = outcome_bind call (\<lambda>(w, res, err).
     case err of
       Some e \<Rightarrow> Done (w, Inl (CallFailed e))
     | None \<Rightarrow> outcome_bind (parse res) (\<lambda>r. Done (w, r)))"

definition parse_BillingDetails :: "gomap \<Rightarrow> ocr_error + BillingDetails" where
  "parse_BillingDetails res =
     result_bind (asserted (as_uint 32) res ''observationPaymentGjuels'') (\<lambda>op.
     result_bind (asserted (as_uint 32) res ''transmissionPaymentGjuels'') (\<lambda>tp.
     Inr \<lparr>ObservationPaymentGJuels = word_of_int op, TransmissionPaymentGJuels = word_of_int tp\<rparr>))"

definition BillingDetails_of :: "'w Reader \<Rightarrow> address \<Rightarrow> 'w \<Rightarrow> ('w \<times> (ocr_error + BillingDetails)) outcome" where
  "BillingDetails_of r a w = parsed (CallContract r a ''getBilling'' [] w) (\<lambda>res. Done (parse_BillingDetails res))"

definition parse_LatestConfigDetails :: "gomap \<Rightarrow> ocr_error + ContractConfigDetails" where
  "parse_LatestConfigDetails res =
     result_bind (asserted (as_uint 32) res ''blockNumber'') (\<lambda>blockNumUint32.
     result_bind (asserted as_bytes32 res ''configDigest'') (\<lambda>digest.
     Inr \<lparr>cd_Block = ucast (word_of_int blockNumUint32 :: uint32), cd_Digest = digest\<rparr>))"

definition LatestConfigDetails :: "'w Reader \<Rightarrow> address \<Rightarrow> 'w \<Rightarrow> ('w \<times> (ocr_error + ContractConfigDetails)) outcome" where
  "LatestConfigDetails r a w =
     parsed (CallContract r a ''latestConfigDetails'' [] w) (\<lambda>res. Done (parse_LatestConfigDetails res))"

text \<open>The transmission details are read from the full node.\<close>

definition parse_LatestTransmissionDetails :: "gomap \<Rightarrow> ocr_error + TransmissionDetails" where
  "parse_LatestTransmissionDetails res =
     result_bind (asserted as_bytes32 res ''configDigest'') (\<lambda>configDigest.
     result_bind (asserted (as_uint 32) res ''epoch'') (\<lambda>epoch.
     result_bind (asserted (as_uint 8) res ''round'') (\<lambda>round.
     result_bind (asserted as_bigint res ''latestAnswer_'') (\<lambda>latestAnswer.
     result_bind (asserted (as_uint 64) res ''latestTimestamp_'') (\<lambda>latestTimestamp.
     Inr \<lparr>td_Digest = configDigest, td_Epoch = word_of_int epoch, td_Round = word_of_int round,
          td_LatestAnswer = latestAnswer,
          td_LatestTimestamp = time_Unix (sint (word_of_int latestTimestamp :: int64))\<rparr>)))))"

definition LatestTransmissionDetails ::
  "'w Reader \<Rightarrow> address \<Rightarrow> 'w \<Rightarrow> ('w \<times> (ocr_error + TransmissionDetails)) outcome" where
  "LatestTransmissionDetails r a w =
     parsed (CallContractFullNode r a ''latestTransmissionDetails'' [] w) (\<lambda>res. Done (parse_LatestTransmissionDetails res))"

text \<open>A nil big integer is dereferenced.\<close>

definition parse_LatestRoundData :: "gomap \<Rightarrow> (ocr_error + RoundData) outcome" where
  "parse_LatestRoundData res =
     (case result_bind (asserted as_bigint res ''roundId'') (\<lambda>roundID.
           result_bind (asserted as_bigint res ''answer'') (\<lambda>answer.
           result_bind (asserted as_bigint res ''startedAt'') (\<lambda>startedAt.
           result_bind (asserted as_bigint res ''updatedAt'') (\<lambda>updatedAt.
           Inr (roundID, answer, startedAt, updatedAt))))) of
        Inl e \<Rightarrow> Done (Inl e)
      | Inr (Some roundID, answer, Some startedAt, Some updatedAt) \<Rightarrow>
          Done (Inr \<lparr>RoundID = ucast (big_Uint64 roundID), Answer = answer,
                     StartedAt = time_Unix (sint (big_Int64 startedAt)),
                     UpdatedAt = time_Unix (sint (big_Int64 updatedAt))\<rparr>)
      | Inr _ \<Rightarrow> Panic)"

definition LatestRoundData :: "'w Reader \<Rightarrow> address \<Rightarrow> 'w \<Rightarrow> ('w \<times> (ocr_error + RoundData)) outcome" where
  "LatestRoundData r a w = parsed (CallContract r a ''latestRoundData'' [] w) parse_LatestRoundData"

definition LinkAvailableForPayment :: "'w Reader \<Rightarrow> address \<Rightarrow> 'w \<Rightarrow> ('w \<times> (ocr_error + int option)) outcome" where
  "LinkAvailableForPayment r a w =
     parsed (CallContract r a ''linkAvailableForPayment'' [] w) (\<lambda>res. Done (asserted as_bigint res ''availableBalance''))"

text \<open>Signers stay EVM addresses; transmitters become TRON addresses in base58.\<close>

definition parse_ConfigSet :: "lib \<Rightarrow> gomap \<Rightarrow> ocr_error + OcrContractConfig" where
  "parse_ConfigSet L cfg =
     result_bind (asserted as_bytes32 cfg ''configDigest'') (\<lambda>configDigest.
     result_bind (asserted (as_uint 64) cfg ''configCount'') (\<lambda>configCount.
     result_bind (asserted as_eth_addresses cfg ''signers'') (\<lambda>signers.
     result_bind (asserted as_eth_addresses cfg ''transmitters'') (\<lambda>transmitters.
     result_bind (asserted (as_uint 8) cfg ''f'') (\<lambda>f.
     result_bind (asserted as_bytes cfg ''onchainConfig'') (\<lambda>onchainConfig.
     result_bind (asserted (as_uint 64) cfg ''offchainConfigVersion'') (\<lambda>offchainConfigVersion.
     result_bind (asserted as_bytes cfg ''offchainConfig'') (\<lambda>offchainConfig.
     let parsedSigners = List.map (\<lambda>s. s) signers;
         parsedTransmitters = List.map (\<lambda>t. Address_String L (EVMAddressToAddress t)) transmitters
     in Inr \<lparr>cc_ConfigDigest = configDigest, cc_ConfigCount = word_of_int configCount, cc_Signers = parsedSigners,
             cc_Transmitters = parsedTransmitters, cc_F = word_of_int f, cc_OnchainConfig = onchainConfig,
             cc_OffchainConfigVersion = word_of_int offchainConfigVersion, cc_OffchainConfig = offchainConfig\<rparr>))))))))"

definition ConfigFromEventAt ::
  "lib \<Rightarrow> 'w Reader \<Rightarrow> address \<Rightarrow> uint64 \<Rightarrow> 'w \<Rightarrow> ('w \<times> (ocr_error + ContractConfig)) outcome" where
  "ConfigFromEventAt L r a blockNum w =
     outcome_bind (GetEventsFromBlock r a ''ConfigSet'' blockNum w) (\<lambda>(w, events, err).
       case err of
         Some e \<Rightarrow> Done (w, Inl (EventsFailed e))
       | None \<Rightarrow>
           if length events \<noteq> 1 then Done (w, Inl (ConfigSetCount (length events)))
           else Done (w, result_bind (parse_ConfigSet L (events ! 0)) (\<lambda>config.
             Inr \<lparr>cfg_Config = config, cfg_ConfigBlock = blockNum\<rparr>)))"

subsection \<open>contract_reader.go\<close>

text \<open>The reader of one contract, as libocr's interfaces name its operations.\<close>

record 'w ContractReader =
  cr_LatestConfigDetails :: "'w \<Rightarrow> ('w \<times> (ocr_error + uint64 \<times> ConfigDigest)) outcome"
  cr_LatestConfig :: "uint64 \<Rightarrow> 'w \<Rightarrow> ('w \<times> (ocr_error + OcrContractConfig)) outcome"
  cr_LatestBlockHeight :: "'w \<Rightarrow> ('w \<times> (ocr_error + uint64)) outcome"
  cr_LatestTransmissionDetails ::
    "'w \<Rightarrow> ('w \<times> (ocr_error + ConfigDigest \<times> uint32 \<times> uint8 \<times> int option \<times> gtime)) outcome"
  cr_LatestRoundRequested :: "duration \<Rightarrow> 'w \<Rightarrow> ('w \<times> (ocr_error + ConfigDigest \<times> uint32 \<times> uint8)) outcome"
  cr_LatestBillingDetails :: "'w \<Rightarrow> ('w \<times> (ocr_error + BillingDetails)) outcome"

definition NewContractReader :: "lib \<Rightarrow> address \<Rightarrow> 'w Reader \<Rightarrow> 'w ContractReader" where
  "NewContractReader L a r =
     \<lparr>cr_LatestConfigDetails = (\<lambda>w. outcome_bind (LatestConfigDetails r a w) (\<lambda>(w, resp).
        Done (w, result_bind resp (\<lambda>d. Inr (cd_Block d, cd_Digest d))))),
      cr_LatestConfig = (\<lambda>changedInBlock w. outcome_bind (ConfigFromEventAt L r a changedInBlock w) (\<lambda>(w, resp).
        Done (w, result_bind resp (\<lambda>c. Inr (cfg_Config c))))),
      cr_LatestBlockHeight = (\<lambda>w. outcome_bind (LatestBlockHeight r w) (\<lambda>(w, h, err).
        Done (w, case err of Some e \<Rightarrow> Inl (HeightFailed e) | None \<Rightarrow> Inr h))),
      cr_LatestTransmissionDetails = (\<lambda>w. outcome_bind (LatestTransmissionDetails r a w) (\<lambda>(w, resp).
        Done (w, result_bind resp (\<lambda>d.
          Inr (td_Digest d, td_Epoch d, td_Round d, td_LatestAnswer d, td_LatestTimestamp d))))),
      cr_LatestRoundRequested = (\<lambda>lookback w. Done (w, Inr (replicate 32 0, 0, 0))),
      cr_LatestBillingDetails = (\<lambda>w. outcome_bind (BillingDetails_of r a w) (\<lambda>(w, resp). Done (w, resp)))\<rparr>"

end
