(* ===== verification/Ocr2_Cache.thy ===== *)
theory Ocr2_Cache
  imports Ocr2_Reader
begin

text \<open>
  The two caches of relayer/ocr2: the contract cache (contract_cache.go), which libocr tracks the
  configuration through, and the transmissions cache (transmissions_cache.go). Each is refreshed by a
  polling loop of its own and read under a lock at any time, and refuses to answer once its last
  refresh is older than the time to live. Their common contract is the locale \<open>ttl_cache\<close>.

  An update runs in the loop only (\<open>Start\<close> runs the first one before it starts the loop), so updates
  of a cache never overlap; a read sees the state between two updates. \<open>time.Now()\<close> is an argument.
\<close>

datatype cache_error =
    DetailsFailed ocr_error | ConfigFailed ocr_error | BlockHeightFailed ocr_error | TransmissionFailed ocr_error
  | NotInitialized | Expired duration

subsection \<open>The contract cache\<close>

record contractCache =
  c_contractConfig :: ContractConfig
  c_blockHeight :: uint64
  ccLastCheckedAt :: gtime

definition zero_digest :: ConfigDigest where
  "zero_digest = replicate 32 0"

definition zero_config :: ContractConfig where
  "zero_config =
     \<lparr>cfg_Config = \<lparr>cc_ConfigDigest = zero_digest, cc_ConfigCount = 0, cc_Signers = [], cc_Transmitters = [], cc_F = 0,
        cc_OnchainConfig = [], cc_OffchainConfigVersion = 0, cc_OffchainConfig = []\<rparr>, cfg_ConfigBlock = 0\<rparr>"

definition NewContractCache :: contractCache where
  "NewContractCache = \<lparr>c_contractConfig = zero_config, c_blockHeight = 0, ccLastCheckedAt = 0\<rparr>"

definition updateConfig ::
  "'w ContractReader \<Rightarrow> gtime \<Rightarrow> 'w \<times> contractCache \<Rightarrow> (('w \<times> contractCache) \<times> cache_error option) outcome" where
  "updateConfig reader now = (\<lambda>(w, c).
     outcome_bind (cr_LatestConfigDetails reader w) (\<lambda>(w, details).
       case details of
         Inl e \<Rightarrow> Done ((w, c), Some (DetailsFailed e))
       | Inr (configBlock, configDigest) \<Rightarrow>
           let isSame = cfg_ConfigBlock (c_contractConfig c) = configBlock
                 \<and> cc_ConfigDigest (cfg_Config (c_contractConfig c)) = configDigest
           in outcome_bind
                (if \<not> isSame then cr_LatestConfig reader configBlock w
                 else Done (w, Inr (cfg_Config zero_config)))
                (\<lambda>(w, r).
                  case r of
                    Inl e \<Rightarrow> Done ((w, c), Some (ConfigFailed e))
                  | Inr newConfig \<Rightarrow>
                      outcome_bind (cr_LatestBlockHeight reader w) (\<lambda>(w, h).
                        case h of
                          Inl e \<Rightarrow> Done ((w, c), Some (BlockHeightFailed e))
                        | Inr blockHeight \<Rightarrow>
                            let c = c\<lparr>ccLastCheckedAt := now, c_blockHeight := blockHeight\<rparr>
                            in Done ((w, if \<not> isSame
                                        then c\<lparr>c_contractConfig := \<lparr>cfg_Config = newConfig, cfg_ConfigBlock = configBlock\<rparr>\<rparr>
                                        else c), None)))))"

text \<open>The two caches check their age in the same way.\<close>

definition assert_not_stale :: "duration \<Rightarrow> gtime \<Rightarrow> gtime \<Rightarrow> cache_error option" where
  "assert_not_stale ttl now lastCheckedAt =
     (if lastCheckedAt = 0 then Some NotInitialized
      else let since = time_Sub now lastCheckedAt in if since > ttl then Some (Expired since) else None)"

definition assertConfigNotStale :: "duration \<Rightarrow> gtime \<Rightarrow> contractCache \<Rightarrow> cache_error option" where
  "assertConfigNotStale ttl now c = assert_not_stale ttl now (ccLastCheckedAt c)"

text \<open>The values are returned with the error.\<close>

definition cc_LatestConfigDetails :: "duration \<Rightarrow> gtime \<Rightarrow> contractCache \<Rightarrow> uint64 \<times> ConfigDigest \<times> cache_error option" where
  "cc_LatestConfigDetails ttl now c =
     (cfg_ConfigBlock (c_contractConfig c), cc_ConfigDigest (cfg_Config (c_contractConfig c)), assertConfigNotStale ttl now c)"

definition cc_LatestConfig :: "duration \<Rightarrow> gtime \<Rightarrow> uint64 \<Rightarrow> contractCache \<Rightarrow> OcrContractConfig \<times> cache_error option" where
  "cc_LatestConfig ttl now changedInBlock c = (cfg_Config (c_contractConfig c), assertConfigNotStale ttl now c)"

definition cc_LatestBlockHeight :: "duration \<Rightarrow> gtime \<Rightarrow> contractCache \<Rightarrow> uint64 \<times> cache_error option" where
  "cc_LatestBlockHeight ttl now c = (c_blockHeight c, assertConfigNotStale ttl now c)"

subsection \<open>The transmissions cache\<close>

record transmissionsCache =
  t_transmissionDetails :: TransmissionDetails
  consecutiveSkippedTransmissions :: int
  skippedTransmissionStartTime :: gtime
  tdLastCheckedAt :: gtime

definition NewTransmissionsCache :: transmissionsCache where
  "NewTransmissionsCache =
     \<lparr>t_transmissionDetails = \<lparr>td_Digest = zero_digest, td_Epoch = 0, td_Round = 0, td_LatestAnswer = Some 0, td_LatestTimestamp = 0\<rparr>,
      consecutiveSkippedTransmissions = 0, skippedTransmissionStartTime = 0, tdLastCheckedAt = 0\<rparr>"

text \<open>
  \<open>now\<close> is the time of the check and \<open>later\<close> that of the second call of the clock, for a first skip.
  Comparing a nil answer panics.
\<close>

definition updateTransmission ::
  "'w ContractReader \<Rightarrow> gtime \<Rightarrow> gtime \<Rightarrow> 'w \<times> transmissionsCache \<Rightarrow>
     (('w \<times> transmissionsCache) \<times> cache_error option) outcome" where
  "updateTransmission reader now later = (\<lambda>(w, c).
     outcome_bind (cr_LatestTransmissionDetails reader w) (\<lambda>(w, r).
       case r of
         Inl e \<Rightarrow> Done ((w, c), Some (TransmissionFailed e))
       | Inr (digest, epoch, round, answer, timestamp) \<Rightarrow>
           let c = c\<lparr>tdLastCheckedAt := now\<rparr>;
               td = \<lparr>td_Digest = digest, td_Epoch = epoch, td_Round = round, td_LatestAnswer = answer, td_LatestTimestamp = timestamp\<rparr>;
               update = c\<lparr>skippedTransmissionStartTime := 0, consecutiveSkippedTransmissions := 0, t_transmissionDetails := td\<rparr>
           in if to_Unix timestamp = 0
              then (case answer of
                      None \<Rightarrow> Panic
                    | Some ans \<Rightarrow>
                        if ans \<noteq> 0
                        then let c = (if consecutiveSkippedTransmissions c = 0 then c\<lparr>skippedTransmissionStartTime := later\<rparr> else c)
                             in Done ((w, c\<lparr>consecutiveSkippedTransmissions := consecutiveSkippedTransmissions c + 1\<rparr>), None)
                        else Done ((w, update), None))
              else Done ((w, update), None)))"

definition assertTransmissionsNotStale :: "duration \<Rightarrow> gtime \<Rightarrow> transmissionsCache \<Rightarrow> cache_error option" where
  "assertTransmissionsNotStale ttl now c = assert_not_stale ttl now (tdLastCheckedAt c)"

definition tc_LatestTransmissionDetails ::
  "duration \<Rightarrow> gtime \<Rightarrow> transmissionsCache \<Rightarrow> ConfigDigest \<times> uint32 \<times> uint8 \<times> int option \<times> gtime \<times> cache_error option" where
  "tc_LatestTransmissionDetails ttl now c =
     (td_Digest (t_transmissionDetails c), td_Epoch (t_transmissionDetails c), td_Round (t_transmissionDetails c),
      td_LatestAnswer (t_transmissionDetails c), td_LatestTimestamp (t_transmissionDetails c),
      assertTransmissionsNotStale ttl now c)"

definition tc_LatestRoundRequested ::
  "'w ContractReader \<Rightarrow> duration \<Rightarrow> 'w \<Rightarrow> ('w \<times> (ocr_error + ConfigDigest \<times> uint32 \<times> uint8)) outcome" where
  "tc_LatestRoundRequested reader lookback w = cr_LatestRoundRequested reader lookback w"

subsection \<open>The polling loop\<close>

text \<open>
  \<open>Start\<close> updates once, ignoring an error, and starts \<open>poll\<close>, which updates at once and then after every
  jittered poll period until it is stopped, ignoring errors. The run of a cache that was started and
  ticked at the times \<open>ts\<close>; the flags say which updates succeeded.
\<close>

fun poll_run :: "('t \<Rightarrow> 's \<Rightarrow> ('s \<times> 'e option) outcome) \<Rightarrow> 't list \<Rightarrow> 's \<Rightarrow> ('s \<times> bool list) outcome" where
  "poll_run upd [] s = Done (s, [])"
| "poll_run upd (t # ts) s =
     outcome_bind (upd t s) (\<lambda>(s', err).
       outcome_bind (poll_run upd ts s') (\<lambda>(s'', oks). Done (s'', (err = None) # oks)))"

text \<open>The times of the updates that succeeded.\<close>

definition successes :: "gtime list \<Rightarrow> bool list \<Rightarrow> gtime list" where
  "successes ts oks = List.map fst (filter snd (zip ts oks))"

lemma successes_simps [simp]:
  "successes [] oks = []"
  "successes (t # ts) (ok # oks) = (if ok then t # successes ts oks else successes ts oks)"
  by (simp_all add: successes_def)

lemma set_successes: "set (successes ts oks) \<subseteq> set ts"
  by (auto simp: successes_def dest: set_zip_leftD)

lemma sorted_successes: "sorted ts \<Longrightarrow> sorted (successes ts oks)"
proof (induction ts oks rule: list_induct2')
  case (4 t ts ok oks)
  then show ?case using set_successes [of ts oks] by auto
qed (simp_all add: successes_def)

lemma sorted_le_last: "sorted xs \<Longrightarrow> x \<in> set xs \<Longrightarrow> x \<le> last xs" for xs :: "gtime list"
  by (induction xs) auto

subsection \<open>The contract of a cache with a time to live\<close>

text \<open>A successful update notes its time, a failed one leaves what the cache notes and holds.\<close>

locale ttl_cache =
  fixes upd :: "gtime \<Rightarrow> 's \<Rightarrow> ('s \<times> cache_error option) outcome"
    and checked_at :: "'s \<Rightarrow> gtime"
    and contents :: "'s \<Rightarrow> 'c"
  assumes upd_checked: "upd t s = Done (s', None) \<Longrightarrow> checked_at s' = t"
    and upd_failed: "upd t s = Done (s', Some e) \<Longrightarrow> checked_at s' = checked_at s \<and> contents s' = contents s"
begin

lemma checked_at_run:
  assumes "poll_run upd ts s = Done (s', oks)"
  shows "checked_at s' = last (checked_at s # successes ts oks)"
  using assms
proof (induction ts arbitrary: s oks)
  case (Cons t ts)
  then obtain s1 err oks' where u: "upd t s = Done (s1, err)" and r: "poll_run upd ts s1 = Done (s', oks')"
    and o: "oks = (err = None) # oks'"
    by (auto simp: outcome_bind_eq_Done)
  have "checked_at s1 = (if err = None then t else checked_at s)"
    using u upd_checked upd_failed by (cases err) auto
  then show ?case using Cons.IH [OF r] o by (auto split: if_splits)
qed simp

text \<open>
  After a run from a new cache at increasing times, a read at the time \<open>t\<close> is answered without an error
  exactly when some update succeeded at most \<open>ttl\<close> before \<open>t\<close>, and it says that the cache is not
  initialized exactly when no update succeeded.
\<close>

lemma fresh_iff:
  assumes run: "poll_run upd ts s = Done (s', oks)" and new: "checked_at s = 0"
    and times: "sorted ts" "\<And>x. x \<in> set ts \<Longrightarrow> 0 < x"
  shows "assert_not_stale ttl t (checked_at s') = None \<longleftrightarrow> (\<exists>x \<in> set (successes ts oks). time_Sub t x \<le> ttl)"
    and "assert_not_stale ttl t (checked_at s') = Some NotInitialized \<longleftrightarrow> successes ts oks = []"
proof -
  let ?S = "successes ts oks"
  have at: "checked_at s' = last (0 # ?S)" using checked_at_run [OF run] new by simp
  have pos: "0 < x" if "x \<in> set ?S" for x using that times(2) set_successes by blast
  have older: "time_Sub t (last ?S) \<le> ttl" if "x \<in> set ?S" "time_Sub t x \<le> ttl" for x
    using sorted_le_last [OF sorted_successes [OF times(1)] that(1)] that(2) unfolding time_Sub_def by linarith
  show "assert_not_stale ttl t (checked_at s') = None \<longleftrightarrow> (\<exists>x \<in> set ?S. time_Sub t x \<le> ttl)"
    using pos [of "last ?S"] older at by (cases "?S = []") (auto simp: assert_not_stale_def Let_def not_less split: if_splits)
  show "assert_not_stale ttl t (checked_at s') = Some NotInitialized \<longleftrightarrow> ?S = []"
    using pos [of "last ?S"] at by (cases "?S = []") (auto simp: assert_not_stale_def Let_def)
qed

text \<open>While every update fails, the contents stay as they are.\<close>

lemma failing_run_contents:
  assumes "poll_run upd ts s = Done (s', oks)" and "True \<notin> set oks"
  shows "contents s' = contents s"
  using assms
proof (induction ts arbitrary: s oks)
  case (Cons t ts)
  then obtain s1 err oks' where u: "upd t s = Done (s1, err)" and r: "poll_run upd ts s1 = Done (s', oks')"
    and o: "oks = (err = None) # oks'"
    by (auto simp: outcome_bind_eq_Done)
  then show ?case using Cons.IH [OF r] Cons.prems(2) upd_failed [of t s s1] by (cases err) auto
qed simp

end

subsection \<open>The two caches keep it\<close>

text \<open>The cases of an update of the contract cache, by the point where it ends.\<close>

lemma updateConfigE:
  assumes "updateConfig r now (w, c) = Done ((w', c'), err)"
  obtains (failed) e where "err = Some e" "c' = c"
    | (same) b d h w1 where "err = None" "cr_LatestConfigDetails r w = Done (w1, Inr (b, d))"
      "cfg_ConfigBlock (c_contractConfig c) = b" "cc_ConfigDigest (cfg_Config (c_contractConfig c)) = d"
      "cr_LatestBlockHeight r w1 = Done (w', Inr h)" "c' = c\<lparr>ccLastCheckedAt := now, c_blockHeight := h\<rparr>"
    | (changed) b d h w1 w2 config where "err = None" "cr_LatestConfigDetails r w = Done (w1, Inr (b, d))"
      "\<not> (cfg_ConfigBlock (c_contractConfig c) = b \<and> cc_ConfigDigest (cfg_Config (c_contractConfig c)) = d)"
      "cr_LatestConfig r b w1 = Done (w2, Inr config)" "cr_LatestBlockHeight r w2 = Done (w', Inr h)"
      "c' = \<lparr>c_contractConfig = \<lparr>cfg_Config = config, cfg_ConfigBlock = b\<rparr>, c_blockHeight = h, ccLastCheckedAt = now\<rparr>"
proof -
  obtain w1 details where d: "cr_LatestConfigDetails r w = Done (w1, details)"
    using assms by (auto simp: updateConfig_def outcome_bind_eq_Done)
  show thesis
  proof (cases details)
    case (Inl e)
    then show thesis using failed assms d by (auto simp: updateConfig_def)
  next
    case (Inr bd)
    obtain b dg where bd: "bd = (b, dg)" by (cases bd)
    show thesis
    proof (cases "cfg_ConfigBlock (c_contractConfig c) = b \<and> cc_ConfigDigest (cfg_Config (c_contractConfig c)) = dg")
      case True
      then obtain w2 h where "cr_LatestBlockHeight r w1 = Done (w2, h)"
        using assms d Inr bd by (auto simp: updateConfig_def Let_def outcome_bind_eq_Done)
      then show thesis using failed same assms d Inr bd True by (cases h) (auto simp: updateConfig_def Let_def)
    next
      case False
      then obtain w2 g where g: "cr_LatestConfig r b w1 = Done (w2, g)"
        using assms d Inr bd by (auto simp: updateConfig_def Let_def outcome_bind_eq_Done)
      show thesis
      proof (cases g)
        case (Inl e)
        then show thesis using failed assms d Inr bd False g by (auto simp: updateConfig_def Let_def)
      next
        case (Inr config)
        then obtain w3 h where "cr_LatestBlockHeight r w2 = Done (w3, h)"
          using assms d bd \<open>details = Inr bd\<close> False g by (auto simp: updateConfig_def Let_def outcome_bind_eq_Done)
        then show thesis using failed changed assms d bd \<open>details = Inr bd\<close> False g Inr
          by (cases h) (auto simp: updateConfig_def Let_def)
      qed
    qed
  qed
qed

lemma updateTransmissionE:
  assumes "updateTransmission r now later (w, c) = Done ((w', c'), err)"
  obtains (failed) e where "err = Some (TransmissionFailed e)" "cr_LatestTransmissionDetails r w = Done (w', Inl e)" "c' = c"
    | (skipped) d ep rd ans ts where "err = None"
      "cr_LatestTransmissionDetails r w = Done (w', Inr (d, ep, rd, Some ans, ts))" "to_Unix ts = 0" "ans \<noteq> 0"
      "c' = c\<lparr>tdLastCheckedAt := now,
         skippedTransmissionStartTime := (if consecutiveSkippedTransmissions c = 0 then later else skippedTransmissionStartTime c),
         consecutiveSkippedTransmissions := consecutiveSkippedTransmissions c + 1\<rparr>"
    | (updated) d ep rd ans ts where "err = None"
      "cr_LatestTransmissionDetails r w = Done (w', Inr (d, ep, rd, ans, ts))" "to_Unix ts = 0 \<longrightarrow> ans = Some 0"
      "c' = \<lparr>t_transmissionDetails = \<lparr>td_Digest = d, td_Epoch = ep, td_Round = rd, td_LatestAnswer = ans, td_LatestTimestamp = ts\<rparr>,
         consecutiveSkippedTransmissions = 0, skippedTransmissionStartTime = 0, tdLastCheckedAt = now\<rparr>"
proof -
  obtain w1 x where d: "cr_LatestTransmissionDetails r w = Done (w1, x)"
    using assms by (auto simp: updateTransmission_def outcome_bind_eq_Done)
  show thesis
  proof (cases x)
    case (Inl e)
    then show thesis using failed assms d by (auto simp: updateTransmission_def)
  next
    case (Inr y)
    obtain dg ep rd ans ts where y: "y = (dg, ep, rd, ans, ts)" by (cases y) auto
    show thesis
    proof (cases "to_Unix ts = 0")
      case True
      then obtain a where a: "ans = Some a" using assms d Inr y
        by (cases ans) (auto simp: updateTransmission_def Let_def)
      show thesis
      proof (cases "a = 0")
        case True
        show thesis
          by (rule updated [of dg ep rd ans ts]) (use assms d Inr y a True \<open>to_Unix ts = 0\<close> in \<open>auto simp: updateTransmission_def Let_def\<close>)
      next
        case False
        show thesis
          by (rule skipped [of dg ep rd a ts])
            (use assms d Inr y a False \<open>to_Unix ts = 0\<close> in \<open>auto simp: updateTransmission_def Let_def\<close>)
      qed
    next
      case False
      show thesis
        by (rule updated [of dg ep rd ans ts]) (use assms d Inr y False in \<open>auto simp: updateTransmission_def Let_def\<close>)
    qed
  qed
qed

text \<open>A tick of the transmissions cache reads the clock twice; \<open>tick\<close> fixes the second reading.\<close>

definition contract_tick :: "'w ContractReader \<Rightarrow> gtime \<Rightarrow> 'w \<times> contractCache \<Rightarrow> (('w \<times> contractCache) \<times> cache_error option) outcome" where
  "contract_tick r now s = updateConfig r now s"

definition transmission_tick ::
  "'w ContractReader \<Rightarrow> (gtime \<Rightarrow> gtime) \<Rightarrow> gtime \<Rightarrow> 'w \<times> transmissionsCache \<Rightarrow>
     (('w \<times> transmissionsCache) \<times> cache_error option) outcome" where
  "transmission_tick r clock now s = updateTransmission r now (clock now) s"

interpretation contracts: ttl_cache "contract_tick r" "ccLastCheckedAt \<circ> snd" "c_contractConfig \<circ> snd"
proof (unfold_locales, goal_cases)
  case (1 t s s')
  then show ?case by (cases s; cases s') (auto simp: contract_tick_def elim!: updateConfigE)
next
  case (2 t s s' e)
  then show ?case by (cases s; cases s') (auto simp: contract_tick_def elim!: updateConfigE)
qed

interpretation transmissions: ttl_cache "transmission_tick r clock" "tdLastCheckedAt \<circ> snd" "t_transmissionDetails \<circ> snd"
proof (unfold_locales, goal_cases)
  case (1 t s s')
  then show ?case by (cases s; cases s') (auto simp: transmission_tick_def elim!: updateTransmissionE)
next
  case (2 t s s' e)
  then show ?case by (cases s; cases s') (auto simp: transmission_tick_def elim!: updateTransmissionE)
qed

subsection \<open>Properties of the caches\<close>

text \<open>
  C22. Safety: whatever the updates did, a read of the contract cache returns no error exactly when
  some update succeeded at most the time to live before it; before the first success every read
  returns the error that the cache is not initialized, with the empty configuration.
\<close>

theorem contract_cache_fresh:
  assumes "poll_run (contract_tick r) ts (w, NewContractCache) = Done ((w', c), oks)"
    and "sorted ts" and "\<And>x. x \<in> set ts \<Longrightarrow> 0 < x"
  shows "(snd (snd (cc_LatestConfigDetails ttl t c)) = None \<longleftrightarrow> (\<exists>x \<in> set (successes ts oks). time_Sub t x \<le> ttl))
    \<and> (snd (cc_LatestConfig ttl t b c) = None \<longleftrightarrow> (\<exists>x \<in> set (successes ts oks). time_Sub t x \<le> ttl))
    \<and> (snd (cc_LatestBlockHeight ttl t c) = None \<longleftrightarrow> (\<exists>x \<in> set (successes ts oks). time_Sub t x \<le> ttl))
    \<and> (True \<notin> set oks \<longrightarrow>
         cc_LatestConfigDetails ttl t c = (0, zero_digest, Some NotInitialized)
       \<and> cc_LatestConfig ttl t b c = (cfg_Config zero_config, Some NotInitialized))"
proof -
  note fresh = contracts.fresh_iff [OF assms(1) _ assms(2,3), of ttl t]
  have new: "(ccLastCheckedAt \<circ> snd) (w, NewContractCache) = 0" by (simp add: NewContractCache_def)
  have none: "c_contractConfig c = zero_config \<and> successes ts oks = []" if "True \<notin> set oks"
  proof
    show "c_contractConfig c = zero_config"
      using contracts.failing_run_contents [OF assms(1) that] by (simp add: NewContractCache_def)
    show "successes ts oks = []" using that by (auto simp: successes_def filter_empty_conv dest: set_zip_rightD)
  qed
  show ?thesis using fresh [OF new] none
    by (auto simp: cc_LatestConfigDetails_def cc_LatestConfig_def cc_LatestBlockHeight_def assertConfigNotStale_def
        zero_config_def)
qed

text \<open>
  The configuration of a block is fixed: \<open>f\<close> gives it. The cache holds the empty configuration of the
  start, or that of its block.
\<close>

definition steady :: "'w ContractReader \<Rightarrow> (uint64 \<Rightarrow> OcrContractConfig) \<Rightarrow> bool" where
  "steady r f \<longleftrightarrow> (\<forall>b w w' x. cr_LatestConfig r b w = Done (w', Inr x) \<longrightarrow> x = f b)"

definition coherent :: "(uint64 \<Rightarrow> OcrContractConfig) \<Rightarrow> contractCache \<Rightarrow> bool" where
  "coherent f c \<longleftrightarrow> c_contractConfig c = zero_config
     \<or> cfg_Config (c_contractConfig c) = f (cfg_ConfigBlock (c_contractConfig c))"

lemma coherent_update:
  assumes "updateConfig r now (w, c) = Done ((w', c'), err)" and "steady r f" and "coherent f c"
  shows "coherent f c'"
  using assms by (cases rule: updateConfigE) (auto simp: coherent_def steady_def)

text \<open>
  C21. Equivalence: the cache refetches a configuration only when the block or the digest changed,
  and yet after every successful update it holds the block just read with that block's
  configuration, as a cache that always refetches would; only while the contract has no configuration
  at all (block 0 and the zero digest) it may keep the empty one.
\<close>

theorem contract_cache_coherent:
  assumes "steady r f" and "coherent f c" and "updateConfig r now (w, c) = Done ((w', c'), None)"
  shows "coherent f c'
    \<and> (\<exists>w1 w2 b d h. cr_LatestConfigDetails r w = Done (w1, Inr (b, d)) \<and> cr_LatestBlockHeight r w2 = Done (w', Inr h)
        \<and> cfg_ConfigBlock (c_contractConfig c') = b \<and> c_blockHeight c' = h \<and> ccLastCheckedAt c' = now
        \<and> (cfg_Config (c_contractConfig c') = f b
            \<or> (b = 0 \<and> d = zero_digest \<and> c_contractConfig c' = zero_config)))"
  using assms(3)
proof (cases rule: updateConfigE)
  case (same b d h w1)
  then show ?thesis using assms(2) by (auto simp: coherent_def zero_config_def)
next
  case (changed b d h w1 w2 config)
  then show ?thesis using assms(1) by (auto simp: coherent_def steady_def)
qed simp

text \<open>
  What the transmissions cache keeps: an answer that is not mined yet (a zero timestamp with a
  non-zero answer) is never stored, and the counter counts the skips since the last stored one.
\<close>

definition mined :: "transmissionsCache \<Rightarrow> bool" where
  "mined c \<longleftrightarrow> 0 \<le> consecutiveSkippedTransmissions c
     \<and> (to_Unix (td_LatestTimestamp (t_transmissionDetails c)) = 0 \<longrightarrow> td_LatestAnswer (t_transmissionDetails c) = Some 0)"

lemma mined_update: "updateTransmission r now later (w, c) = Done ((w', c'), err) \<Longrightarrow> mined c \<Longrightarrow> mined c'"
  by (erule updateTransmissionE) (auto simp: mined_def)

lemma mined_run:
  "poll_run (transmission_tick r clock) ts (w, c) = Done ((w', c'), oks) \<Longrightarrow> mined c \<Longrightarrow> mined c'"
proof (induction ts arbitrary: w c oks)
  case (Cons t ts)
  then obtain w1 c1 err oks' where u: "transmission_tick r clock t (w, c) = Done ((w1, c1), err)"
    and "poll_run (transmission_tick r clock) ts (w1, c1) = Done ((w', c'), oks')"
    by (auto simp: outcome_bind_eq_Done)
  moreover have "mined c1" using u mined_update Cons.prems(2) by (simp add: transmission_tick_def)
  ultimately show ?case using Cons.IH by blast
qed simp

text \<open>
  C23. Safety: the transmissions cache never returns an unmined transmission, a non-zero answer with
  the zero timestamp, whatever the node answers; it answers without an error exactly while an update
  succeeded within the time to live, and an update that skips an unmined transmission counts as one.
\<close>

theorem transmissions_cache_mined:
  assumes "poll_run (transmission_tick r clock) ts (w, NewTransmissionsCache) = Done ((w', c), oks)"
    and "sorted ts" and "\<And>x. x \<in> set ts \<Longrightarrow> 0 < x"
    and "tc_LatestTransmissionDetails ttl t c = (digest, epoch, round, answer, timestamp, err)"
  shows "(to_Unix timestamp = 0 \<longrightarrow> answer = Some 0)
    \<and> (err = None \<longleftrightarrow> (\<exists>x \<in> set (successes ts oks). time_Sub t x \<le> ttl))
    \<and> (cr_LatestTransmissionDetails r w' = Done (w2, Inr (d, ep, rd, Some a, ts')) \<and> to_Unix ts' = 0 \<and> a \<noteq> 0 \<and> 0 < now \<longrightarrow>
        (\<exists>c2. updateTransmission r now later (w', c) = Done ((w2, c2), None)
           \<and> tc_LatestTransmissionDetails 0 now c2 = (digest, epoch, round, answer, timestamp, None)))"
proof -
  have new: "(tdLastCheckedAt \<circ> snd) (w, NewTransmissionsCache) = 0" "mined NewTransmissionsCache"
    by (simp_all add: NewTransmissionsCache_def mined_def to_Unix_def unix_epoch_def nanos_per_second_def)
  have read: "digest = td_Digest (t_transmissionDetails c)" "epoch = td_Epoch (t_transmissionDetails c)"
    "round = td_Round (t_transmissionDetails c)" "answer = td_LatestAnswer (t_transmissionDetails c)"
    "timestamp = td_LatestTimestamp (t_transmissionDetails c)" "err = assert_not_stale ttl t (tdLastCheckedAt c)"
    using assms(4) by (auto simp: tc_LatestTransmissionDetails_def assertTransmissionsNotStale_def)
  have "mined c" using mined_run [OF assms(1) new(2)] .
  moreover have "err = None \<longleftrightarrow> (\<exists>x \<in> set (successes ts oks). time_Sub t x \<le> ttl)"
    using transmissions.fresh_iff(1) [OF assms(1) new(1) assms(2,3), of ttl t] by (simp add: read)
  moreover have "\<exists>c2. updateTransmission r now later (w', c) = Done ((w2, c2), None)
      \<and> tc_LatestTransmissionDetails 0 now c2 = (digest, epoch, round, answer, timestamp, None)"
    if "cr_LatestTransmissionDetails r w' = Done (w2, Inr (d, ep, rd, Some a, ts'))" "to_Unix ts' = 0" "a \<noteq> 0" "0 < now"
    using that by (auto simp: updateTransmission_def Let_def tc_LatestTransmissionDetails_def read
        assertTransmissionsNotStale_def assert_not_stale_def time_Sub_def)
  ultimately show ?thesis by (auto simp: mined_def read)
qed

subsection \<open>A reader to evaluate on\<close>

definition fixed_config :: OcrContractConfig where
  "fixed_config = (cfg_Config zero_config)\<lparr>cc_ConfigDigest := replicate 32 3, cc_F := 1\<rparr>"

text \<open>The state counts the reads; the answer of the latest transmission is not mined.\<close>

definition fixed_reader :: "nat ContractReader" where
  "fixed_reader =
     \<lparr>cr_LatestConfigDetails = \<lambda>w. Done (Suc w, Inr (7, replicate 32 3)),
      cr_LatestConfig = \<lambda>b w. Done (Suc w, Inr fixed_config),
      cr_LatestBlockHeight = \<lambda>w. Done (Suc w, Inr 9),
      cr_LatestTransmissionDetails = \<lambda>w. Done (Suc w, Inr (replicate 32 3, 4, 5, Some 6, unix_epoch)),
      cr_LatestRoundRequested = \<lambda>l w. Done (w, Inr (zero_digest, 0, 0)),
      cr_LatestBillingDetails = \<lambda>w. Done (w, Inl (WrongType []))\<rparr>"

lemma fixed_update:
  "updateConfig fixed_reader now (w, NewContractCache)
     = Done ((w + 3, \<lparr>c_contractConfig = \<lparr>cfg_Config = fixed_config, cfg_ConfigBlock = 7\<rparr>, c_blockHeight = 9, ccLastCheckedAt = now\<rparr>), None)"
  by (simp add: updateConfig_def fixed_reader_def NewContractCache_def zero_config_def)

theorem contract_cache_fresh_witness:
  "\<exists>c. poll_run (contract_tick fixed_reader) [10] (0, NewContractCache) = Done ((3, c), [True])
     \<and> snd (cc_LatestBlockHeight 5 15 c) = None \<and> snd (cc_LatestBlockHeight 5 16 c) \<noteq> None"
proof -
  obtain c where run: "poll_run (contract_tick fixed_reader) [10] (0, NewContractCache) = Done ((3, c), [True])"
    by (simp add: contract_tick_def fixed_update)
  have "snd (cc_LatestBlockHeight 5 t c) = None \<longleftrightarrow> time_Sub t 10 \<le> 5" for t
    using contract_cache_fresh [OF run, of 5 t] by simp
  note read = this
  have "snd (cc_LatestBlockHeight 5 15 c) = None" "snd (cc_LatestBlockHeight 5 16 c) \<noteq> None"
    by (simp_all only: read) (simp_all add: time_Sub_def)
  then show ?thesis using run by blast
qed

theorem contract_cache_coherent_witness:
  "\<exists>c. updateConfig fixed_reader 10 (0, NewContractCache) = Done ((3, c), None) \<and> cfg_Config (c_contractConfig c) = fixed_config"
proof -
  have "steady fixed_reader (\<lambda>b. fixed_config)" by (simp add: steady_def fixed_reader_def)
  moreover have "coherent (\<lambda>b. fixed_config) NewContractCache" by (simp add: coherent_def NewContractCache_def)
  ultimately show ?thesis using contract_cache_coherent [OF _ _ fixed_update [of 10 0]] fixed_update [of 10 0]
    by (fastforce simp: fixed_reader_def)
qed

theorem transmissions_cache_mined_witness:
  "\<exists>c. poll_run (transmission_tick fixed_reader (\<lambda>t. t)) [10] (0, NewTransmissionsCache) = Done ((1, c), [True])
     \<and> tc_LatestTransmissionDetails 5 12 c = (zero_digest, 0, 0, Some 0, 0, None)"
proof -
  obtain c where run: "poll_run (transmission_tick fixed_reader (\<lambda>t. t)) [10] (0, NewTransmissionsCache) = Done ((1, c), [True])"
    and c: "t_transmissionDetails c = t_transmissionDetails NewTransmissionsCache"
    by (simp add: transmission_tick_def updateTransmission_def fixed_reader_def Let_def to_Unix_def NewTransmissionsCache_def)
  obtain e where r: "tc_LatestTransmissionDetails 5 12 c = (zero_digest, 0, 0, Some 0, 0, e)"
    by (simp add: tc_LatestTransmissionDetails_def c NewTransmissionsCache_def)
  have "e = None" using transmissions_cache_mined [OF run _ _ r] by (simp add: time_Sub_def)
  then show ?thesis using run r by blast
qed

end
