(* ===== verification/Ocr2_Digest.thy ===== *)
theory Ocr2_Digest
  imports Ocr2_Reader
begin

text \<open>
  relayer/ocr2/config_digester.go: the digest of a configuration, computed off the chain as the
  aggregator contract computes it on the chain.
\<close>

text \<open>The ABI of the function that packs the arguments; a line break is the character 10.\<close>

definition functionABI :: string where
  "functionABI = join_char (char_of (10::nat))
    [''[{'',
     ''    \"inputs\": ['',
     ''        {\"name\": \"chainId\", \"type\": \"uint256\"},'',
     ''        {\"name\": \"contractAddress\", \"type\": \"address\"},'',
     ''        {\"name\": \"configCount\", \"type\": \"uint64\"},'',
     ''        {\"name\": \"signers\", \"type\": \"address[]\"},'',
     ''        {\"name\": \"transmitters\", \"type\": \"address[]\"},'',
     ''        {\"name\": \"f\", \"type\": \"uint8\"},'',
     ''        {\"name\": \"onchainConfig\", \"type\": \"bytes\"},'',
     ''        {\"name\": \"offchainConfigVersion\", \"type\": \"uint64\"},'',
     ''        {\"name\": \"offchainConfig\", \"type\": \"bytes\"}'',
     ''    ],'',
     ''    \"name\": \"_configDigestFromConfigData\",'',
     ''    \"outputs\": [{\"name\": \"\", \"type\": \"bytes32\"}],'',
     ''    \"type\": \"function\"'',
     ''}]'']"

record TRONOffchainConfigDigester =
  dg_chainID :: int
  dg_contractAddress :: bytes
  dg_configDigestArgs :: "Argument list"

datatype digest_error = BadABI string | BadSigner nat | BadTransmitter nat | PackDigest string

definition NewOffchainConfigDigester :: "lib \<Rightarrow> int \<Rightarrow> bytes \<Rightarrow> digest_error + TRONOffchainConfigDigester" where
  "NewOffchainConfigDigester L chainID contractAddress =
     (case abi_JSON_Inputs L functionABI ''_configDigestFromConfigData'' of
        Inl err \<Rightarrow> Inl (BadABI err)
      | Inr args \<Rightarrow>
          Inr \<lparr>dg_chainID = chainID, dg_contractAddress = contractAddress, dg_configDigestArgs = args\<rparr>)"

text \<open>The two conversion loops; \<open>i\<close> is the index in the error.\<close>

fun convert_signers :: "lib \<Rightarrow> nat \<Rightarrow> bytes list \<Rightarrow> digest_error + bytes list" where
  "convert_signers L i [] = Inr []"
| "convert_signers L i (signer # signers) =
     (if length signer \<noteq> 20 then Inl (BadSigner i)
      else result_bind (convert_signers L (Suc i) signers) (\<lambda>as. Inr (eth_BytesToAddress L signer # as)))"

fun convert_transmitters :: "lib \<Rightarrow> nat \<Rightarrow> string list \<Rightarrow> (digest_error + bytes list) outcome" where
  "convert_transmitters L i [] = Done (Inr [])"
| "convert_transmitters L i (transmitter # transmitters) =
     (case StringToAddress L transmitter of
        Inl err \<Rightarrow> Done (Inl (BadTransmitter i))
      | Inr address \<Rightarrow>
          outcome_bind (EthAddress L address) (\<lambda>a.
          outcome_bind (convert_transmitters L (Suc i) transmitters) (\<lambda>r.
          Done (result_bind r (\<lambda>as. Inr (a # as))))))"

definition configDigestFromConfigData ::
  "lib \<Rightarrow> TRONOffchainConfigDigester \<Rightarrow> int \<Rightarrow> bytes \<Rightarrow> uint64 \<Rightarrow> bytes list \<Rightarrow> bytes list \<Rightarrow> uint8 \<Rightarrow> bytes \<Rightarrow> uint64 \<Rightarrow> bytes \<Rightarrow>
     (digest_error + ConfigDigest) outcome" where
  "configDigestFromConfigData L d chainId contractAddress configCount signers transmitters f onchainConfig
      offchainConfigVersion offchainConfig =
     (case abi_PackValues L (List.map arg_Type (dg_configDigestArgs d))
         [GBigInt (Some chainId), GEthAddress contractAddress, GUint 64 (uint configCount), GEthAddresses signers,
          GEthAddresses transmitters, GUint 8 (uint f), GBytes onchainConfig, GUint 64 (uint offchainConfigVersion),
          GBytes offchainConfig] of
        Inl err \<Rightarrow> Done (Inl (PackDigest err))
      | Inr packed \<Rightarrow>
          let rawHash = LegacyKeccak256 L packed;
              n = min 32 (length rawHash);
              configDigest = take n rawHash @ replicate (32 - n) 0
          in if n \<noteq> 32 then Panic else Done (Inr (configDigest[0 := 0, 1 := 1])))"

definition dg_ConfigDigest :: "lib \<Rightarrow> TRONOffchainConfigDigester \<Rightarrow> OcrContractConfig \<Rightarrow> (digest_error + ConfigDigest) outcome" where
  "dg_ConfigDigest L d cc =
     (case convert_signers L 0 (cc_Signers cc) of
        Inl e \<Rightarrow> Done (Inl e)
      | Inr signers \<Rightarrow>
          outcome_bind (convert_transmitters L 0 (cc_Transmitters cc)) (\<lambda>r.
            case r of
              Inl e \<Rightarrow> Done (Inl e)
            | Inr transmitters \<Rightarrow>
                configDigestFromConfigData L d (dg_chainID d) (dg_contractAddress d) (cc_ConfigCount cc) signers transmitters
                  (cc_F cc) (cc_OnchainConfig cc) (cc_OffchainConfigVersion cc) (cc_OffchainConfig cc)))"

text \<open>\<open>types.ConfigDigestPrefixEVM\<close> of libocr.\<close>

definition ConfigDigestPrefix :: nat where
  "ConfigDigestPrefix = 1"

subsection \<open>The digest of what was read from the chain\<close>

text \<open>
  What is relied on of the libraries: base58 gives back the 25 bytes of a TRON address with its
  checksum, whose text has 34 characters, the first a T, and is no EVM address; go-ethereum's
  \<open>BytesToAddress\<close> keeps 20 bytes; Keccak-256 has 32 bytes.
\<close>

definition tron_libs :: "lib \<Rightarrow> bool" where
  "tron_libs L \<longleftrightarrow>
     (\<forall>b. length b = 25 \<and> b ! 0 = 0x41 \<longrightarrow> base58_Decode L (base58_Encode L b) = Inr b
        \<and> length (base58_Encode L b) = 34 \<and> base58_Encode L b ! 0 = CHR ''T'' \<and> \<not> eth_IsHexAddress L (base58_Encode L b))
     \<and> (\<forall>b. length b = 20 \<longrightarrow> eth_BytesToAddress L b = b) \<and> (\<forall>b. length (LegacyKeccak256 L b) = 32)"

lemma tron_address_text:
  assumes "tron_libs L" and "length t = 20"
  shows "StringToAddress L (Address_String L (EVMAddressToAddress t)) = Inr (0x41 # t)"
proof -
  let ?a = "0x41 # t :: bytes" and ?b = "(0x41 # t) @ b58_checksum (0x41 # t)"
  have "length ?b = 25" "?b ! 0 = 0x41" using assms(2) by simp_all
  then have enc: "base58_Decode L (base58_Encode L ?b) = Inr ?b" "length (base58_Encode L ?b) = 34"
    "base58_Encode L ?b ! 0 = CHR ''T''" "\<not> eth_IsHexAddress L (base58_Encode L ?b)"
    using assms(1) unfolding tron_libs_def by blast+
  have "DecodeCheck L (base58_Encode L ?b) = Inr ?a" using enc(1) assms(2) by (simp add: DecodeCheck_Inr)
  moreover have "Address_String L (EVMAddressToAddress t) = base58_Encode L ?b"
    by (simp add: Address_String_def EVMAddressToAddress_def TronBytePrefix_def EncodeCheck_def b58_Encode_def)
  ultimately show ?thesis using enc
    by (simp add: StringToAddress_def AddressLength_def AddressLengthBase58_def Base58ToAddress_def)
qed

lemma convert_signers_ok:
  "tron_libs L \<Longrightarrow> \<forall>s \<in> set signers. length s = 20 \<Longrightarrow> convert_signers L i signers = Inr signers"
  by (induction signers arbitrary: i) (auto simp: tron_libs_def)

lemma convert_transmitters_ok:
  assumes "tron_libs L" and "\<forall>t \<in> set ts. length t = 20"
  shows "convert_transmitters L i (List.map (\<lambda>t. Address_String L (EVMAddressToAddress t)) ts) = Done (Inr ts)"
  using assms(2)
proof (induction ts arbitrary: i)
  case (Cons t ts)
  have "EthAddress L (0x41 # t) = Done t" using assms(1) Cons.prems by (simp add: EthAddress_def tron_libs_def)
  then show ?case using Cons tron_address_text [OF assms(1), of t] by simp
qed simp

lemma parse_ConfigSet_Inr:
  "parse_ConfigSet L ev = Inr cc \<longleftrightarrow>
     (\<exists>digest count signers transmitters f onchain version offchain.
        as_bytes32 (gomap_get ev ''configDigest'') = Some digest \<and> as_uint 64 (gomap_get ev ''configCount'') = Some count
      \<and> as_eth_addresses (gomap_get ev ''signers'') = Some signers
      \<and> as_eth_addresses (gomap_get ev ''transmitters'') = Some transmitters
      \<and> as_uint 8 (gomap_get ev ''f'') = Some f \<and> as_bytes (gomap_get ev ''onchainConfig'') = Some onchain
      \<and> as_uint 64 (gomap_get ev ''offchainConfigVersion'') = Some version
      \<and> as_bytes (gomap_get ev ''offchainConfig'') = Some offchain
      \<and> cc = \<lparr>cc_ConfigDigest = digest, cc_ConfigCount = word_of_int count, cc_Signers = signers,
              cc_Transmitters = List.map (\<lambda>t. Address_String L (EVMAddressToAddress t)) transmitters,
              cc_F = word_of_int f, cc_OnchainConfig = onchain, cc_OffchainConfigVersion = word_of_int version,
              cc_OffchainConfig = offchain\<rparr>)"
  unfolding parse_ConfigSet_def result_bind_eq_Inr asserted_eq_Inr Let_def by auto

text \<open>The values of a ConfigSet event, as the contract packs them.\<close>

definition event_values :: "int \<Rightarrow> bytes \<Rightarrow> gomap \<Rightarrow> goval list" where
  "event_values chainId contractAddress ev =
     [GBigInt (Some chainId), GEthAddress contractAddress, gomap_get ev ''configCount'', gomap_get ev ''signers'',
      gomap_get ev ''transmitters'', gomap_get ev ''f'', gomap_get ev ''onchainConfig'',
      gomap_get ev ''offchainConfigVersion'', gomap_get ev ''offchainConfig'']"

fun in_range :: "goval \<Rightarrow> bool" where
  "in_range (GUint w n) \<longleftrightarrow> 0 \<le> n \<and> n < 2 ^ w"
| "in_range (GEthAddresses as) \<longleftrightarrow> (\<forall>a \<in> set as. length a = 20)"
| "in_range _ \<longleftrightarrow> True"

lemma as_uint_Some: "as_uint w v = Some n \<longleftrightarrow> v = GUint w n"
  by (cases v) auto

lemma as_eth_addresses_Some: "as_eth_addresses v = Some as \<longleftrightarrow> v = GEthAddresses as"
  by (cases v) auto

lemma as_bytes_Some: "as_bytes v = Some b \<longleftrightarrow> v = GBytes b"
  by (cases v) auto

text \<open>
  Round trip: the digest computed from a configuration that was parsed from a ConfigSet event, with
  its transmitters turned into TRON base58 text and back, is the hash of the event's own values with
  the first two bytes replaced by the prefix 0x0001.
\<close>

theorem digest_of_event:
  assumes "tron_libs L" and "parse_ConfigSet L ev = Inr cc"
    and "list_all in_range (event_values (dg_chainID d) (dg_contractAddress d) ev)"
    and "abi_PackValues L (List.map arg_Type (dg_configDigestArgs d)) (event_values (dg_chainID d) (dg_contractAddress d) ev)
      = Inr packed"
  shows "dg_ConfigDigest L d cc = Done (Inr (0 # 1 # drop 2 (LegacyKeccak256 L packed)))"
proof -
  from assms(2) obtain digest count signers transmitters f onchain version offchain where
    ev: "gomap_get ev ''configCount'' = GUint 64 count" "gomap_get ev ''signers'' = GEthAddresses signers"
      "gomap_get ev ''transmitters'' = GEthAddresses transmitters" "gomap_get ev ''f'' = GUint 8 f"
      "gomap_get ev ''onchainConfig'' = GBytes onchain" "gomap_get ev ''offchainConfigVersion'' = GUint 64 version"
      "gomap_get ev ''offchainConfig'' = GBytes offchain"
    and cc: "cc = \<lparr>cc_ConfigDigest = digest, cc_ConfigCount = word_of_int count, cc_Signers = signers,
      cc_Transmitters = List.map (\<lambda>t. Address_String L (EVMAddressToAddress t)) transmitters,
      cc_F = word_of_int f, cc_OnchainConfig = onchain, cc_OffchainConfigVersion = word_of_int version,
      cc_OffchainConfig = offchain\<rparr>"
    unfolding parse_ConfigSet_Inr as_uint_Some as_eth_addresses_Some as_bytes_Some by auto
  have r: "uint (word_of_int count :: uint64) = count" "uint (word_of_int f :: uint8) = f"
    "uint (word_of_int version :: uint64) = version" "\<forall>s \<in> set signers. length s = 20" "\<forall>t \<in> set transmitters. length t = 20"
    using assms(3) by (simp_all add: event_values_def ev uint_word_of_int)
  have len: "length (LegacyKeccak256 L packed) = 32" using assms(1) by (simp add: tron_libs_def)
  then obtain x y h where h: "LegacyKeccak256 L packed = x # y # h"
    by (cases "LegacyKeccak256 L packed"; cases "tl (LegacyKeccak256 L packed)") auto
  show ?thesis
    using assms(4) len
    by (simp add: dg_ConfigDigest_def cc convert_signers_ok [OF assms(1) r(4)] convert_transmitters_ok [OF assms(1) r(5)]
        configDigestFromConfigData_def event_values_def ev r h)
qed

text \<open>A library that meets the hypotheses, and an event.\<close>

definition digest_lib :: lib where
  "digest_lib = sample_lib\<lparr>
     base58_Encode := \<lambda>b. ''T12345678'' @ bytes_string b,
     base58_Decode := \<lambda>s. Inr (string_bytes (drop 9 s)),
     abi_PackValues := \<lambda>ts vs. Inr (if vs = [] then [] else [1])\<rparr>"

lemma tron_digest_lib: "tron_libs digest_lib"
proof -
  have "length (bytes_string b) = length b" for b by (simp add: bytes_string_def)
  then show ?thesis by (simp add: tron_libs_def digest_lib_def sample_lib_def Has0xPrefix_def)
qed

definition config_event :: gomap where
  "config_event = [''configDigest'' \<mapsto> GFixedBytes (replicate 32 3), ''configCount'' \<mapsto> GUint 64 2,
     ''signers'' \<mapsto> GEthAddresses [replicate 20 8], ''transmitters'' \<mapsto> GEthAddresses [replicate 20 5],
     ''f'' \<mapsto> GUint 8 1, ''onchainConfig'' \<mapsto> GBytes [], ''offchainConfigVersion'' \<mapsto> GUint 64 2,
     ''offchainConfig'' \<mapsto> GBytes [9]]"

lemma parse_config_event: "\<exists>cc. parse_ConfigSet L config_event = Inr cc"
  by (simp add: parse_ConfigSet_def asserted_def config_event_def gomap_get_def Let_def)

theorem digest_of_event_witness:
  "\<exists>cc. parse_ConfigSet digest_lib config_event = Inr cc
     \<and> dg_ConfigDigest digest_lib \<lparr>dg_chainID = 5, dg_contractAddress = replicate 20 1, dg_configDigestArgs = []\<rparr> cc
       = Done (Inr (0 # 1 # replicate 30 7))"
proof -
  let ?d = "\<lparr>dg_chainID = 5, dg_contractAddress = replicate 20 1, dg_configDigestArgs = []\<rparr>"
  obtain cc where cc: "parse_ConfigSet digest_lib config_event = Inr cc" using parse_config_event by blast
  have range: "list_all in_range (event_values (dg_chainID ?d) (dg_contractAddress ?d) config_event)"
    by (simp add: event_values_def config_event_def gomap_get_def)
  have pack: "abi_PackValues digest_lib (List.map arg_Type (dg_configDigestArgs ?d))
      (event_values (dg_chainID ?d) (dg_contractAddress ?d) config_event) = Inr [1]"
    by (simp add: digest_lib_def event_values_def)
  show ?thesis using digest_of_event [OF tron_digest_lib cc range pack] cc
    by (simp add: digest_lib_def sample_lib_def)
qed

text \<open>
  Functional: the configuration of a block is read without an error exactly when the block has one
  ConfigSet event of the contract and every value has its type; the transmitters are then TRON
  addresses in base58, which is also what the transmitter gives as its account.
\<close>

theorem config_event_exact:
  "ConfigFromEventAt L r a n w = Done (w', Inr c) \<longleftrightarrow>
     (\<exists>ev digest count signers transmitters f onchain version offchain.
        GetEventsFromBlock r a ''ConfigSet'' n w = Done (w', [ev], None)
      \<and> gomap_get ev ''configDigest'' = GFixedBytes digest \<and> length digest = 32
      \<and> gomap_get ev ''configCount'' = GUint 64 count \<and> gomap_get ev ''signers'' = GEthAddresses signers
      \<and> gomap_get ev ''transmitters'' = GEthAddresses transmitters \<and> gomap_get ev ''f'' = GUint 8 f
      \<and> gomap_get ev ''onchainConfig'' = GBytes onchain \<and> gomap_get ev ''offchainConfigVersion'' = GUint 64 version
      \<and> gomap_get ev ''offchainConfig'' = GBytes offchain
      \<and> c = \<lparr>cfg_Config = \<lparr>cc_ConfigDigest = digest, cc_ConfigCount = word_of_int count, cc_Signers = signers,
              cc_Transmitters = List.map (\<lambda>t. Address_String L (EVMAddressToAddress t)) transmitters,
              cc_F = word_of_int f, cc_OnchainConfig = onchain, cc_OffchainConfigVersion = word_of_int version,
              cc_OffchainConfig = offchain\<rparr>, cfg_ConfigBlock = n\<rparr>)"
proof -
  have b32: "as_bytes32 v = Some b \<longleftrightarrow> v = GFixedBytes b \<and> length b = 32" for v b
    by (cases v) auto
  have one: "ConfigFromEventAt L r a n w = Done (w', Inr c) \<longleftrightarrow>
      (\<exists>ev cc. GetEventsFromBlock r a ''ConfigSet'' n w = Done (w', [ev], None) \<and> parse_ConfigSet L ev = Inr cc
        \<and> c = \<lparr>cfg_Config = cc, cfg_ConfigBlock = n\<rparr>)"
    unfolding ConfigFromEventAt_def
    by (cases "GetEventsFromBlock r a ''ConfigSet'' n w")
      (auto simp: result_bind_eq_Inr length_Suc_conv split: option.splits if_splits)
  show ?thesis unfolding one parse_ConfigSet_Inr b32 as_uint_Some as_eth_addresses_Some as_bytes_Some by blast
qed

end
