(* ===== verification/Ocr2_Transmit.thy ===== *)
theory Ocr2_Transmit
  imports Ocr2_Cache Ocr2_Digest Txm_Spec
begin

text \<open>
  relayer/ocr2: the transmitter, which enqueues reports at the transaction manager
  (contract_transmitter.go), and the providers that put reader, caches, digester and transmitter
  together (config_provider.go, median_provider.go, plugin_provider.go).
\<close>

subsection \<open>contract_transmitter.go\<close>

text \<open>libocr's context of a report and the two functions of its \<open>evmutil\<close> that the transmitter calls.\<close>

record ReportContext =
  rx_ConfigDigest :: ConfigDigest
  rx_Epoch :: uint32
  rx_Round :: uint8
  rx_ExtraHash :: bytes

record evmutil =
  RawReportContext :: "ReportContext \<Rightarrow> bytes list"                     \<comment> \<open>[3][32]byte\<close>
  SplitSignature :: "bytes \<Rightarrow> string + (bytes \<times> bytes \<times> byte)"

record contractTransmitter =
  ct_contractAddress :: address
  ct_senderAddress :: address
  excludeSigs :: bool
  ethereumKeystore :: bool

definition NewOCRContractTransmitter :: "address \<Rightarrow> address \<Rightarrow> contractTransmitter" where
  "NewOCRContractTransmitter contractAddress senderAddress =
     \<lparr>ct_contractAddress = contractAddress, ct_senderAddress = senderAddress, excludeSigs = False, ethereumKeystore = False\<rparr>"

definition WithExcludeSignatures :: "contractTransmitter \<Rightarrow> contractTransmitter" where
  "WithExcludeSignatures oc = oc\<lparr>excludeSigs := True\<rparr>"

definition WithEthereumKeystore :: "contractTransmitter \<Rightarrow> contractTransmitter" where
  "WithEthereumKeystore oc = oc\<lparr>ethereumKeystore := True\<rparr>"

datatype transmit_error = TooManySignatures | EnqueueFailed enqueue_error

text \<open>The loop over the signatures: a signature that does not split panics.\<close>

fun split_signatures ::
  "evmutil \<Rightarrow> bool \<Rightarrow> nat \<Rightarrow> bytes list \<Rightarrow> bytes list \<times> bytes list \<times> bytes \<Rightarrow> (bytes list \<times> bytes list \<times> bytes) outcome" where
  "split_signatures U exclude i [] acc = Done acc"
| "split_signatures U exclude i (as # signatures) (rs, ss, vs) =
     (case SplitSignature U as of
        Inl err \<Rightarrow> Panic
      | Inr (r, s, v) \<Rightarrow>
          split_signatures U exclude (Suc i) signatures
            (if \<not> exclude then (rs @ [r], ss @ [s], vs[i := v]) else (rs, ss, vs)))"

definition transmit_params :: "bytes list \<Rightarrow> bytes \<Rightarrow> bytes list \<times> bytes list \<times> bytes \<Rightarrow> goval list" where
  "transmit_params rawReportCtx report = (\<lambda>(rs, ss, vs).
     [GString ''bytes32[3]'', GFixedBytesList rawReportCtx,
      GString ''bytes'', GBytes report,
      GString ''bytes32[]'', GFixedBytesList rs,
      GString ''bytes32[]'', GFixedBytesList ss,
      GString ''bytes32'', GFixedBytes vs])"

definition transmit_request :: "contractTransmitter \<Rightarrow> goval list \<Rightarrow> TronTxmRequest" where
  "transmit_request oc params =
     \<lparr>req_FromAddress = ct_senderAddress oc, req_ContractAddress = ct_contractAddress oc,
      req_Method = ''transmit(bytes32[3],bytes,bytes32[],bytes32[],bytes32)'', req_Params = params, req_ID = []\<rparr>"

definition Transmit ::
  "evmutil \<Rightarrow> 'w Env \<Rightarrow> contractTransmitter \<Rightarrow> ReportContext \<Rightarrow> bytes \<Rightarrow> bytes list \<Rightarrow> 'w txm \<Rightarrow>
     ('w txm \<times> transmit_error option) outcome" where
  "Transmit U E oc reportCtx report signatures t =
     (let rawReportCtx = RawReportContext U reportCtx
      in if length signatures > 32 then Done (t, Some TooManySignatures)
         else outcome_bind (split_signatures U (excludeSigs oc) 0 signatures ([], [], replicate 32 0)) (\<lambda>sigs.
           outcome_bind (Enqueue E (transmit_request oc (transmit_params rawReportCtx report sigs)) t) (\<lambda>(t, err).
             Done (t, map_option EnqueueFailed err))))"

definition LatestConfigDigestAndEpoch :: "duration \<Rightarrow> gtime \<Rightarrow> transmissionsCache \<Rightarrow> ConfigDigest \<times> uint32 \<times> cache_error option" where
  "LatestConfigDigestAndEpoch ttl now c =
     (case tc_LatestTransmissionDetails ttl now c of
        (configDigest, epoch, _, _, _, Some err) \<Rightarrow> (zero_digest, 0, Some err)
      | (configDigest, epoch, _, _, _, None) \<Rightarrow> (configDigest, epoch, None))"

definition FromAccount :: "lib \<Rightarrow> contractTransmitter \<Rightarrow> string outcome" where
  "FromAccount L oc =
     (if ethereumKeystore oc then outcome_bind (EthAddress L (ct_senderAddress oc)) (\<lambda>a. Done (eth_AddressString L a))
      else Done (Address_String L (ct_senderAddress oc)))"

subsection \<open>config_provider.go\<close>

record 'w configProvider =
  cp_reader :: "'w ContractReader"
  cp_contractCache :: contractCache
  cp_digester :: TRONOffchainConfigDigester

definition NewConfigProvider ::
  "lib \<Rightarrow> int \<Rightarrow> address \<Rightarrow> 'w Reader \<Rightarrow> (digest_error + 'w configProvider) outcome" where
  "NewConfigProvider L chainID contractAddress readerClient =
     outcome_bind (EthAddress L contractAddress) (\<lambda>evmContractAddress.
       Done (result_bind (NewOffchainConfigDigester L chainID evmContractAddress) (\<lambda>d.
         Inr \<lparr>cp_reader = NewContractReader L contractAddress readerClient, cp_contractCache = NewContractCache, cp_digester = d\<rparr>)))"

text \<open>
  \<open>Start\<close> of the two caches: the first update, its error logged only, after which the loop of
  \<open>poll_run\<close> goes on.
\<close>

definition contractCache_Start :: "'w ContractReader \<Rightarrow> gtime \<Rightarrow> 'w \<times> contractCache \<Rightarrow> ('w \<times> contractCache) outcome" where
  "contractCache_Start reader now s = outcome_bind (updateConfig reader now s) (\<lambda>(s, err). Done s)"

definition transmissionsCache_Start ::
  "'w ContractReader \<Rightarrow> gtime \<Rightarrow> gtime \<Rightarrow> 'w \<times> transmissionsCache \<Rightarrow> ('w \<times> transmissionsCache) outcome" where
  "transmissionsCache_Start reader now later s = outcome_bind (updateTransmission reader now later s) (\<lambda>(s, err). Done s)"

definition configProvider_Start :: "gtime \<Rightarrow> 'w \<times> 'w configProvider \<Rightarrow> ('w \<times> 'w configProvider) outcome" where
  "configProvider_Start now = (\<lambda>(w, p).
     outcome_bind (contractCache_Start (cp_reader p) now (w, cp_contractCache p)) (\<lambda>(w, c). Done (w, p\<lparr>cp_contractCache := c\<rparr>)))"

subsection \<open>median_provider.go\<close>

record 'w medianProvider =
  mp_configProvider :: "'w configProvider"
  mp_medianContract :: "'w ContractReader"
  mp_transmitter :: contractTransmitter
  mp_transmissionsCache :: transmissionsCache

definition NewMedianProvider :: "'w ContractReader \<Rightarrow> 'w configProvider \<Rightarrow> address \<Rightarrow> address \<Rightarrow> 'w medianProvider" where
  "NewMedianProvider medianContract p contractAddress senderAddress =
     \<lparr>mp_configProvider = p, mp_medianContract = medianContract,
      mp_transmitter = NewOCRContractTransmitter contractAddress senderAddress,
      mp_transmissionsCache = NewTransmissionsCache\<rparr>"

text \<open>The contract cache is started first; its \<open>Start\<close> never fails.\<close>

definition medianProvider_Start :: "gtime \<Rightarrow> gtime \<Rightarrow> gtime \<Rightarrow> 'w \<times> 'w medianProvider \<Rightarrow> ('w \<times> 'w medianProvider) outcome" where
  "medianProvider_Start now now' later = (\<lambda>(w, p).
     outcome_bind (configProvider_Start now (w, mp_configProvider p)) (\<lambda>(w, cp).
     outcome_bind (transmissionsCache_Start (mp_medianContract p) now' later (w, mp_transmissionsCache p)) (\<lambda>(w, tc).
     Done (w, p\<lparr>mp_configProvider := cp, mp_transmissionsCache := tc\<rparr>))))"

subsection \<open>plugin_provider.go\<close>

text \<open>A plugin provider hands on what its config provider and transmitter give.\<close>

record 'w pluginProvider =
  pp_contractTransmitter :: contractTransmitter
  pp_configProvider :: "'w configProvider"

definition NewPluginProvider :: "contractTransmitter \<Rightarrow> 'w configProvider \<Rightarrow> 'w pluginProvider" where
  "NewPluginProvider oc p = \<lparr>pp_contractTransmitter = oc, pp_configProvider = p\<rparr>"

definition pluginProvider_OffchainConfigDigester :: "'w pluginProvider \<Rightarrow> TRONOffchainConfigDigester" where
  "pluginProvider_OffchainConfigDigester p = cp_digester (pp_configProvider p)"

definition pluginProvider_ContractConfigTracker :: "'w pluginProvider \<Rightarrow> contractCache" where
  "pluginProvider_ContractConfigTracker p = cp_contractCache (pp_configProvider p)"

definition pluginProvider_Start :: "gtime \<Rightarrow> 'w \<times> 'w pluginProvider \<Rightarrow> ('w \<times> 'w pluginProvider) outcome" where
  "pluginProvider_Start now = (\<lambda>(w, p).
     outcome_bind (configProvider_Start now (w, pp_configProvider p)) (\<lambda>(w, cp). Done (w, p\<lparr>pp_configProvider := cp\<rparr>)))"

subsection \<open>What is transmitted\<close>

text \<open>The parts of signatures that split.\<close>

definition sig_r :: "evmutil \<Rightarrow> bytes \<Rightarrow> bytes" where
  "sig_r U as = (case SplitSignature U as of Inr (r, s, v) \<Rightarrow> r | Inl _ \<Rightarrow> [])"

definition sig_s :: "evmutil \<Rightarrow> bytes \<Rightarrow> bytes" where
  "sig_s U as = (case SplitSignature U as of Inr (r, s, v) \<Rightarrow> s | Inl _ \<Rightarrow> [])"

definition sig_v :: "evmutil \<Rightarrow> bytes \<Rightarrow> byte" where
  "sig_v U as = (case SplitSignature U as of Inr (r, s, v) \<Rightarrow> v | Inl _ \<Rightarrow> 0)"

definition splits :: "evmutil \<Rightarrow> bytes \<Rightarrow> bool" where
  "splits U as \<longleftrightarrow> (case SplitSignature U as of Inr _ \<Rightarrow> True | Inl _ \<Rightarrow> False)"

lemma split_signatures_ok:
  assumes "list_all (splits U) sigs" and "length rest = length sigs + k"
  shows "split_signatures U False (length done') sigs (rs, ss, done' @ rest)
    = Done (rs @ List.map (sig_r U) sigs, ss @ List.map (sig_s U) sigs, done' @ List.map (sig_v U) sigs @ drop (length sigs) rest)"
  using assms
proof (induction sigs arbitrary: rs ss done' rest)
  case (Cons a sigs)
  obtain x rest' where rest: "rest = x # rest'" "length rest' = length sigs + k"
    using Cons.prems(2) by (cases rest) auto
  obtain r s v where sp: "SplitSignature U a = Inr (r, s, v)"
    using Cons.prems(1) by (auto simp: splits_def split: sum.splits)
  have upd: "(done' @ rest)[length done' := v] = (done' @ [v]) @ rest'" by (simp add: rest)
  show ?case
    using Cons.IH [OF _ rest(2), where rs = "rs @ [r]" and ss = "ss @ [s]" and done' = "done' @ [v]"] Cons.prems(1) sp
    by (simp add: upd sig_r_def sig_s_def sig_v_def rest(1))
qed simp

lemma split_signatures_exclude:
  "list_all (splits U) sigs \<Longrightarrow> split_signatures U True i sigs acc = Done acc"
  by (induction sigs arbitrary: i acc) (auto simp: splits_def split: sum.splits)

lemma split_signatures_panic:
  "\<not> list_all (splits U) sigs \<Longrightarrow> split_signatures U exclude i sigs acc = Panic"
proof (induction sigs arbitrary: i acc)
  case (Cons a sigs)
  then show ?case by (cases acc) (auto simp: splits_def split: sum.splits)
qed simp

text \<open>The signature columns a report is sent with; they stay empty when signatures are excluded.\<close>

definition columns :: "evmutil \<Rightarrow> contractTransmitter \<Rightarrow> bytes list \<Rightarrow> bytes list \<times> bytes list \<times> bytes" where
  "columns U oc sigs = (if excludeSigs oc then ([], [], replicate 32 0)
     else (List.map (sig_r U) sigs, List.map (sig_s U) sigs, List.map (sig_v U) sigs @ replicate (32 - length sigs) 0))"

lemma split_signatures_columns:
  assumes "length sigs \<le> 32" and "list_all (splits U) sigs"
  shows "split_signatures U (excludeSigs oc) 0 sigs ([], [], replicate 32 0) = Done (columns U oc sigs)"
  using split_signatures_ok [OF assms(2), where rest = "replicate 32 0" and k = "32 - length sigs" and rs = "[]" and ss = "[]" and done' = "[]"]
    split_signatures_exclude [OF assms(2)] assms(1)
  by (auto simp: columns_def)

lemma transmit_not_refused:
  assumes "snd (keystore_Sign E (owner_of E (ct_senderAddress oc)) [] w) = Inr sg"
  shows "refused E (transmit_request oc (transmit_params ctx report sigs)) w = None"
  using assms by (simp add: refused_def transmit_request_def transmit_params_def split_beta)

text \<open>
  C24. Functional: in every reachable state of the transaction manager, transmitting a report with at
  most 32 well-formed signatures, from an account the keystore can sign for, enters one new pending
  transaction under a new ID whose call data are the report context, the report and the signatures
  in three columns, the last padded to 32 bytes; it is queued last, or the full channel is reported.
  More than 32 signatures are refused without a change, and a malformed signature panics.
\<close>

theorem transmit_enqueues:
  assumes "reachable E t" and "snd (keystore_Sign E (owner_of E (ct_senderAddress oc)) [] (world t)) = Inr sg"
    and "req = transmit_request oc (transmit_params (RawReportContext U ctx) report (columns U oc sigs))"
    and "uuid_fresh E req t"
  shows "(length sigs \<le> 32 \<and> list_all (splits U) sigs \<longrightarrow>
      (\<exists>t' err. Transmit U E oc ctx report sigs t = Done (t', err)
        \<and> account_status (state_of t') =
            (account_status (state_of t))((owner_of E (ct_senderAddress oc), request_id E req (world t)) \<mapsto> Pending)
        \<and> (if length (BroadcastChan t) < BroadcastChanSize (config E)
           then err = None \<and> BroadcastChan t' = BroadcastChan t @ [next_object t]
             \<and> Params (objects t' (next_object t)) = req_Params req
             \<and> ContractAddress (objects t' (next_object t)) = ct_contractAddress oc
           else err = Some (EnqueueFailed ChannelFull) \<and> BroadcastChan t' = BroadcastChan t)))
    \<and> (32 < length sigs \<longrightarrow> Transmit U E oc ctx report sigs t = Done (t, Some TooManySignatures))
    \<and> (length sigs \<le> 32 \<and> \<not> list_all (splits U) sigs \<longrightarrow> Transmit U E oc ctx report sigs t = Panic)"
proof -
  have ok: "refused E req (world t) = None" using transmit_not_refused [OF assms(2)] by (simp add: assms(3))
  have src: "req_FromAddress req = ct_senderAddress oc" "req_ContractAddress req = ct_contractAddress oc" "req_ID req = []"
    by (simp_all add: assms(3) transmit_request_def)
  have new: "account_status (state_of t) (owner_of E (req_FromAddress req), request_id E req (world t)) = None"
    using assms(4) src(3) by (simp add: uuid_fresh_def)
  obtain t' err where e: "Enqueue E req t = Done (t', err)"
    "submitted E req (request_id E req (world t)) t t'"
    "err = (if length (BroadcastChan t) < BroadcastChanSize (config E) then None else Some ChannelFull)"
    "BroadcastChan t' = BroadcastChan t @ (if err = None then [next_object t] else [])"
    "made_from req (objects t' (next_object t))"
    using Enqueue_new [OF reachable_inv [OF assms(1)] ok new] by blast
  have "Transmit U E oc ctx report sigs t = Done (t', map_option EnqueueFailed err)"
    if "length sigs \<le> 32" "list_all (splits U) sigs"
    using that e(1) by (simp add: Transmit_def split_signatures_columns assms(3) Let_def)
  moreover have "Transmit U E oc ctx report sigs t = Panic" if "length sigs \<le> 32" "\<not> list_all (splits U) sigs"
    using that by (simp add: Transmit_def split_signatures_panic Let_def)
  moreover have "Transmit U E oc ctx report sigs t = Done (t, Some TooManySignatures)" if "32 < length sigs"
    using that by (simp add: Transmit_def Let_def)
  ultimately show ?thesis using e(2-5) src
    by (auto simp: submitted_def made_from_def simp del: account_status.simps)
qed

text \<open>
  The account of a transmitter is the text the configuration reader gives its EVM address, so libocr
  finds the transmitter in the configuration.
\<close>

lemma FromAccount_in_config:
  assumes "parse_ConfigSet L ev = Inr cc" and "gomap_get ev ''transmitters'' = GEthAddresses ts" and "a \<in> set ts"
  shows "FromAccount L (NewOCRContractTransmitter contractAddress (EVMAddressToAddress a)) = Done s \<Longrightarrow> s \<in> set (cc_Transmitters cc)"
  using assms by (auto simp: parse_ConfigSet_Inr FromAccount_def NewOCRContractTransmitter_def)

subsection \<open>A transmission to evaluate\<close>

definition sample_util :: evmutil where
  "sample_util = \<lparr>RawReportContext = \<lambda>ctx. [rx_ConfigDigest ctx, replicate 32 0, rx_ExtraHash ctx],
     SplitSignature = \<lambda>s. if length s = 65 then Inr (take 32 s, take 32 (drop 32 s), s ! 64) else Inl ''length''\<rparr>"

definition sample_transmitter :: contractTransmitter where
  "sample_transmitter = NewOCRContractTransmitter (0x41 # replicate 20 2) sample_address"

definition sample_context :: ReportContext where
  "sample_context = \<lparr>rx_ConfigDigest = replicate 32 3, rx_Epoch = 1, rx_Round = 2, rx_ExtraHash = replicate 32 0\<rparr>"

theorem transmit_enqueues_witness:
  "\<exists>t' err. Transmit sample_util sample_env sample_transmitter sample_context [1, 2] [replicate 65 4] (New 0) = Done (t', err)
     \<and> Transmit sample_util sample_env sample_transmitter sample_context [1, 2] (replicate 33 (replicate 65 4)) (New 0)
       = Done (New 0, Some TooManySignatures)"
proof -
  let ?req = "\<lambda>sigs. transmit_request sample_transmitter
    (transmit_params (RawReportContext sample_util sample_context) [1, 2] (columns sample_util sample_transmitter sigs))"
  have sign: "snd (keystore_Sign sample_env (owner_of sample_env (ct_senderAddress sample_transmitter)) [] (world (New 0))) = Inr []"
    by (simp add: sample_env_def)
  have fresh: "uuid_fresh sample_env (?req sigs) (New 0)" for sigs
    by (simp add: uuid_fresh_def account_status_New_txm del: account_status.simps)
  have "list_all (splits sample_util) [replicate 65 4]" by (simp add: splits_def sample_util_def)
  moreover have "length [replicate 65 (4::byte)] \<le> 32" "32 < length (replicate 33 (replicate 65 (4::byte)))" by simp_all
  ultimately show ?thesis
    using transmit_enqueues [OF reachable.start sign refl fresh, where sigs = "[replicate 65 4]"]
      transmit_enqueues [OF reachable.start sign refl fresh, where sigs = "replicate 33 (replicate 65 4)"]
    by blast
qed

end
