(* ===== verification/Config.thy ===== *)
theory Config
  imports Prelude GoNum
begin

text \<open>
  relayer/config: the TOML configuration of the chains and their nodes (config.go, toml.go), its
  defaults (docs.toml), merging and validation.

  A field of a pointer type is an option. The elements of the slices are pointers too; a merge never
  reads its source again, so the value pointed to stands for the pointer. A URL is its text. The set of
  strings seen (\<open>config.UniqueStrings\<close>) is chainlink-common's, the record \<open>uniques\<close>.
\<close>

subsection \<open>config.go\<close>

record ChainConfig =
  cc_BalancePollPeriod :: "duration option"
  cc_BroadcastChanSize :: "uint64 option"
  cc_ConfirmPollPeriod :: "duration option"
  cc_OCR2CachePollPeriod :: "duration option"
  cc_OCR2CacheTTL :: "duration option"
  cc_RetentionPeriod :: "duration option"
  cc_ReapInterval :: "duration option"

record NodeConfig =
  node_Name :: "string option"
  node_URL :: "string option"
  node_SolidityURL :: "string option"

record TOMLConfig =
  toml_ChainID :: "string option"
  toml_Enabled :: "bool option"
  toml_Chain :: ChainConfig
  toml_Nodes :: "NodeConfig list"

datatype config_error =
    ErrMissing string | ErrEmpty string
  | DupChainID nat string | DupNodeName nat nat string | DupURL nat nat string

text \<open>\<open>errors.Join\<close> of the errors found; the empty list is no error.\<close>

definition node_ValidateConfig :: "NodeConfig \<Rightarrow> config_error list" where
  "node_ValidateConfig n =
     (case node_Name n of None \<Rightarrow> [ErrMissing ''Name''] | Some s \<Rightarrow> if s = [] then [ErrEmpty ''Name''] else [])
     @ (if node_URL n = None then [ErrMissing ''URL''] else [])
     @ (if node_SolidityURL n = None then [ErrMissing ''SolidityURL''] else [])"

subsection \<open>toml.go: merging\<close>

definition override :: "'a option \<Rightarrow> 'a option \<Rightarrow> 'a option" where
  "override c f = (if f \<noteq> None then f else c)"

definition setFromChain :: "ChainConfig \<Rightarrow> ChainConfig \<Rightarrow> ChainConfig" where
  "setFromChain c f =
     \<lparr>cc_BalancePollPeriod = override (cc_BalancePollPeriod c) (cc_BalancePollPeriod f),
      cc_BroadcastChanSize = override (cc_BroadcastChanSize c) (cc_BroadcastChanSize f),
      cc_ConfirmPollPeriod = override (cc_ConfirmPollPeriod c) (cc_ConfirmPollPeriod f),
      cc_OCR2CachePollPeriod = override (cc_OCR2CachePollPeriod c) (cc_OCR2CachePollPeriod f),
      cc_OCR2CacheTTL = override (cc_OCR2CacheTTL c) (cc_OCR2CacheTTL f),
      cc_RetentionPeriod = override (cc_RetentionPeriod c) (cc_RetentionPeriod f),
      cc_ReapInterval = override (cc_ReapInterval c) (cc_ReapInterval f)\<rparr>"

definition setFromNode :: "NodeConfig \<Rightarrow> NodeConfig \<Rightarrow> NodeConfig" where
  "setFromNode n f =
     \<lparr>node_Name = override (node_Name n) (node_Name f), node_URL = override (node_URL n) (node_URL f),
      node_SolidityURL = override (node_SolidityURL n) (node_SolidityURL f)\<rparr>"

text \<open>
  An element without a key is appended; otherwise the first element with its key
  (\<open>slices.IndexFunc\<close>) is updated, and without one it is appended.
\<close>

fun merge_first :: "('a \<Rightarrow> bool) \<Rightarrow> ('a \<Rightarrow> 'a) \<Rightarrow> 'a \<Rightarrow> 'a list \<Rightarrow> 'a list" where
  "merge_first same upd f [] = [f]"
| "merge_first same upd f (c # cs) = (if same c then upd c # cs else c # merge_first same upd f cs)"

definition set_keyed :: "('a \<Rightarrow> string option) \<Rightarrow> ('a \<Rightarrow> 'a \<Rightarrow> 'a) \<Rightarrow> 'a \<Rightarrow> 'a list \<Rightarrow> 'a list" where
  "set_keyed key setFrom f cs =
     (case key f of
        None \<Rightarrow> cs @ [f]
      | Some k \<Rightarrow> merge_first (\<lambda>c. key c = Some k) (\<lambda>c. setFrom c f) f cs)"

definition set_node :: "NodeConfig \<Rightarrow> NodeConfig list \<Rightarrow> NodeConfig list" where
  "set_node f ns = set_keyed node_Name setFromNode f ns"

definition nodes_SetFrom :: "NodeConfig list \<Rightarrow> NodeConfig list \<Rightarrow> NodeConfig list" where
  "nodes_SetFrom ns fs = fold set_node fs ns"

definition toml_SetFrom :: "TOMLConfig \<Rightarrow> TOMLConfig \<Rightarrow> TOMLConfig" where
  "toml_SetFrom c f =
     \<lparr>toml_ChainID = override (toml_ChainID c) (toml_ChainID f), toml_Enabled = override (toml_Enabled c) (toml_Enabled f),
      toml_Chain = setFromChain (toml_Chain c) (toml_Chain f), toml_Nodes = nodes_SetFrom (toml_Nodes c) (toml_Nodes f)\<rparr>"

definition IsEnabled :: "TOMLConfig \<Rightarrow> bool" where
  "IsEnabled c = (case toml_Enabled c of None \<Rightarrow> True | Some b \<Rightarrow> b)"

text \<open>The values docs.toml marks as defaults.\<close>

definition zero_toml :: TOMLConfig where
  "zero_toml = \<lparr>toml_ChainID = None, toml_Enabled = None,
     toml_Chain = \<lparr>cc_BalancePollPeriod = None, cc_BroadcastChanSize = None, cc_ConfirmPollPeriod = None,
       cc_OCR2CachePollPeriod = None, cc_OCR2CacheTTL = None, cc_RetentionPeriod = None, cc_ReapInterval = None\<rparr>,
     toml_Nodes = []\<rparr>"

definition defaults :: TOMLConfig where
  "defaults = \<lparr>toml_ChainID = None, toml_Enabled = Some True,
     toml_Chain = \<lparr>cc_BalancePollPeriod = Some (5 * nanos_per_second), cc_BroadcastChanSize = Some 4096,
       cc_ConfirmPollPeriod = Some (500 * 1000000), cc_OCR2CachePollPeriod = Some (5 * nanos_per_second),
       cc_OCR2CacheTTL = Some (60 * nanos_per_second), cc_RetentionPeriod = Some 0,
       cc_ReapInterval = Some (60 * nanos_per_second)\<rparr>,
     toml_Nodes = []\<rparr>"

definition Defaults :: TOMLConfig where
  "Defaults = toml_SetFrom zero_toml defaults"

definition SetDefaults :: "TOMLConfig \<Rightarrow> TOMLConfig" where
  "SetDefaults c = toml_SetFrom Defaults c"

definition NewDefault :: TOMLConfig where
  "NewDefault = SetDefaults zero_toml"

subsection \<open>toml.go: validation\<close>

definition toml_ValidateConfig :: "TOMLConfig \<Rightarrow> config_error list" where
  "toml_ValidateConfig c =
     (case toml_ChainID c of None \<Rightarrow> [ErrMissing ''ChainID''] | Some s \<Rightarrow> if s = [] then [ErrEmpty ''ChainID''] else [])
     @ (if length (toml_Nodes c) = 0 then [ErrMissing ''Nodes''] else concat (List.map node_ValidateConfig (toml_Nodes c)))"

record 'u uniques =
  no_strings :: 'u
  IsDupe :: "string option \<Rightarrow> 'u \<Rightarrow> bool \<times> 'u"

text \<open>Documented of it: a nil string is never a duplicate, another one is when it has been seen before.\<close>

definition uniques_ok :: "'u uniques \<Rightarrow> ('u \<Rightarrow> string set) \<Rightarrow> bool" where
  "uniques_ok U seen \<longleftrightarrow> seen (no_strings U) = {} \<and> (\<forall>u. IsDupe U None u = (False, u))
     \<and> (\<forall>s u. fst (IsDupe U (Some s) u) = (s \<in> seen u) \<and> seen (snd (IsDupe U (Some s) u)) = insert s (seen u))"

text \<open>
  One pass over strings with the errors to report; the string of a duplicate is dereferenced.
\<close>

definition check_dup ::
  "'u uniques \<Rightarrow> (string \<Rightarrow> config_error) \<times> string option \<Rightarrow> 'u \<times> config_error list \<Rightarrow> ('u \<times> config_error list) outcome" where
  "check_dup U = (\<lambda>(mk, s) (u, errs).
     let (dup, u) = IsDupe U s u
     in if dup then (case s of None \<Rightarrow> Panic | Some x \<Rightarrow> Done (u, errs @ [mk x])) else Done (u, errs))"

definition chain_ids :: "TOMLConfig list \<Rightarrow> ((string \<Rightarrow> config_error) \<times> string option) list" where
  "chain_ids cs = List.map (\<lambda>(i, c). (DupChainID i, toml_ChainID c)) (enumerate 0 cs)"

definition all_nodes :: "(nat \<Rightarrow> nat \<Rightarrow> string \<Rightarrow> config_error) \<Rightarrow> (NodeConfig \<Rightarrow> string option) \<Rightarrow> TOMLConfig list \<Rightarrow>
    ((string \<Rightarrow> config_error) \<times> string option) list" where
  "all_nodes mk field cs =
     concat (List.map (\<lambda>(i, c). List.map (\<lambda>(j, n). (mk i j, field n)) (enumerate 0 (toml_Nodes c))) (enumerate 0 cs))"

definition validateKeys :: "'u uniques \<Rightarrow> TOMLConfig list \<Rightarrow> config_error list outcome" where
  "validateKeys U cs =
     outcome_bind (for_range (check_dup U) (chain_ids cs) (no_strings U, [])) (\<lambda>(_, errs).
     outcome_bind (for_range (check_dup U) (all_nodes DupNodeName node_Name cs) (no_strings U, errs)) (\<lambda>(_, errs).
     outcome_bind (for_range (check_dup U) (all_nodes DupURL node_URL cs) (no_strings U, errs)) (\<lambda>(_, errs).
     Done errs)))"

definition configs_ValidateConfig :: "'u uniques \<Rightarrow> TOMLConfig list \<Rightarrow> config_error list outcome" where
  "configs_ValidateConfig U cs = validateKeys U cs"

definition set_chain :: "TOMLConfig \<Rightarrow> TOMLConfig list \<Rightarrow> TOMLConfig list" where
  "set_chain f cs = set_keyed toml_ChainID toml_SetFrom f cs"

definition configs_SetFrom ::
  "'u uniques \<Rightarrow> TOMLConfig list \<Rightarrow> TOMLConfig list \<Rightarrow> (TOMLConfig list \<times> config_error list) outcome" where
  "configs_SetFrom U cs fs =
     outcome_bind (validateKeys U fs) (\<lambda>errs. if errs \<noteq> [] then Done (cs, errs) else Done (fold set_chain fs cs, []))"

text \<open>\<open>perm\<close> is \<open>rand.Perm\<close>.\<close>

definition SelectRandom :: "(nat \<Rightarrow> nat list) \<Rightarrow> NodeConfig list \<Rightarrow> (string + NodeConfig) outcome" where
  "SelectRandom perm ns =
     (if length ns = 0 then Done (Inl ''no nodes available'')
      else let index = perm (length ns)
           in if index = [] \<or> length ns \<le> index ! 0 then Panic else Done (Inr (ns ! (index ! 0))))"

text \<open>The getters dereference their field.\<close>

definition deref :: "'a option \<Rightarrow> 'a outcome" where
  "deref p = (case p of None \<Rightarrow> Panic | Some x \<Rightarrow> Done x)"

definition get_BalancePollPeriod :: "TOMLConfig \<Rightarrow> duration outcome" where
  "get_BalancePollPeriod c = deref (cc_BalancePollPeriod (toml_Chain c))"

definition get_BroadcastChanSize :: "TOMLConfig \<Rightarrow> uint64 outcome" where
  "get_BroadcastChanSize c = deref (cc_BroadcastChanSize (toml_Chain c))"

definition get_ConfirmPollPeriod :: "TOMLConfig \<Rightarrow> duration outcome" where
  "get_ConfirmPollPeriod c = deref (cc_ConfirmPollPeriod (toml_Chain c))"

definition get_OCR2CachePollPeriod :: "TOMLConfig \<Rightarrow> duration outcome" where
  "get_OCR2CachePollPeriod c = deref (cc_OCR2CachePollPeriod (toml_Chain c))"

definition get_OCR2CacheTTL :: "TOMLConfig \<Rightarrow> duration outcome" where
  "get_OCR2CacheTTL c = deref (cc_OCR2CacheTTL (toml_Chain c))"

definition get_RetentionPeriod :: "TOMLConfig \<Rightarrow> duration outcome" where
  "get_RetentionPeriod c = deref (cc_RetentionPeriod (toml_Chain c))"

definition get_ReapInterval :: "TOMLConfig \<Rightarrow> duration outcome" where
  "get_ReapInterval c = deref (cc_ReapInterval (toml_Chain c))"

definition ListNodes :: "TOMLConfig \<Rightarrow> NodeConfig list" where
  "ListNodes c = toml_Nodes c"

subsection \<open>Merging a keyed list\<close>

definition lookup :: "('a \<Rightarrow> string option) \<Rightarrow> string \<Rightarrow> 'a list \<Rightarrow> 'a option" where
  "lookup key k xs = List.find (\<lambda>x. key x = Some k) xs"

definition keys_of :: "('a \<Rightarrow> string option) \<Rightarrow> 'a list \<Rightarrow> string list" where
  "keys_of key xs = List.map_filter key xs"

lemma lookup_simps [simp]:
  "lookup key k [] = None" "lookup key k (x # xs) = (if key x = Some k then Some x else lookup key k xs)"
  by (simp_all add: lookup_def)

lemma keys_of_simps [simp]:
  "keys_of key [] = []" "keys_of key (x # xs) = (case key x of None \<Rightarrow> keys_of key xs | Some k \<Rightarrow> k # keys_of key xs)"
  "keys_of key (xs @ ys) = keys_of key xs @ keys_of key ys"
  by (simp_all add: keys_of_def map_filter_def split: option.split)

lemma set_keys_of: "k \<in> set (keys_of key xs) \<longleftrightarrow> (\<exists>x \<in> set xs. key x = Some k)"
  by (induction xs) (auto split: option.splits)

lemma lookup_None: "lookup key k xs = None \<longleftrightarrow> k \<notin> set (keys_of key xs)"
  by (induction xs) (auto split: option.splits)

lemma lookup_key: "lookup key k xs = Some x \<Longrightarrow> key x = Some k \<and> x \<in> set xs"
  by (induction xs) (auto split: if_splits)

text \<open>
  What a merge relies on: setting an element from another one with the same key keeps the key. The
  abstract view is the map from keys to elements.
\<close>

locale keyed_merge =
  fixes key :: "'a \<Rightarrow> string option" and setFrom :: "'a \<Rightarrow> 'a \<Rightarrow> 'a"
  assumes key_setFrom: "key c = key f \<Longrightarrow> key (setFrom c f) = key f"
begin

lemma merge_first_lookup:
  assumes "key f = Some k"
  shows "lookup key k' (merge_first (\<lambda>c. key c = Some k) (\<lambda>c. setFrom c f) f cs)
    = (if k' = k then Some (case lookup key k cs of None \<Rightarrow> f | Some c \<Rightarrow> setFrom c f) else lookup key k' cs)"
  using assms by (induction cs) (auto simp: key_setFrom)

lemma merge_first_keys:
  assumes "key f = Some k"
  shows "keys_of key (merge_first (\<lambda>c. key c = Some k) (\<lambda>c. setFrom c f) f cs)
    = keys_of key cs @ (if k \<in> set (keys_of key cs) then [] else [k])"
  using assms by (induction cs) (auto simp: key_setFrom split: option.splits)

lemma lookup_append: "lookup key k (xs @ ys) = (case lookup key k xs of None \<Rightarrow> lookup key k ys | Some x \<Rightarrow> Some x)"
  by (induction xs) auto

lemma lookup_set_keyed:
  "lookup key k (set_keyed key setFrom f cs)
     = (if key f = Some k then Some (case lookup key k cs of None \<Rightarrow> f | Some c \<Rightarrow> setFrom c f) else lookup key k cs)"
  by (cases "key f") (auto simp: set_keyed_def merge_first_lookup lookup_append split: option.split)

lemma distinct_set_keyed: "distinct (keys_of key cs) \<Longrightarrow> distinct (keys_of key (set_keyed key setFrom f cs))"
  by (cases "key f") (auto simp: set_keyed_def merge_first_keys)

lemma distinct_fold: "distinct (keys_of key cs) \<Longrightarrow> distinct (keys_of key (fold (set_keyed key setFrom) fs cs))"
  by (induction fs arbitrary: cs) (auto intro: distinct_set_keyed)

text \<open>With distinct keys in the source, each key is set at most once.\<close>

lemma lookup_fold_absent:
  "k \<notin> set (keys_of key fs) \<Longrightarrow> lookup key k (fold (set_keyed key setFrom) fs cs) = lookup key k cs"
  by (induction fs arbitrary: cs) (auto simp: lookup_set_keyed split: option.splits)

lemma lookup_fold:
  assumes "distinct (keys_of key fs)"
  shows "lookup key k (fold (set_keyed key setFrom) fs cs)
    = (case lookup key k fs of
         None \<Rightarrow> lookup key k cs
       | Some f \<Rightarrow> Some (case lookup key k cs of None \<Rightarrow> f | Some c \<Rightarrow> setFrom c f))"
  using assms
proof (induction fs arbitrary: cs)
  case (Cons f fs)
  show ?case
  proof (cases "key f = Some k")
    case True
    then have "k \<notin> set (keys_of key fs)" using Cons.prems by simp
    then show ?thesis using True by (simp add: lookup_fold_absent lookup_set_keyed)
  next
    case False
    have "distinct (keys_of key fs)" using Cons.prems by (auto split: option.splits)
    then show ?thesis using False Cons.IH by (simp add: lookup_set_keyed split: option.split)
  qed
qed simp

text \<open>Merging the same source twice gives the same map as merging it once.\<close>

lemma merge_twice:
  assumes "distinct (keys_of key fs)" and "\<And>c f. setFrom (setFrom c f) f = setFrom c f" and "\<And>f. setFrom f f = f"
  shows "lookup key k (fold (set_keyed key setFrom) fs (fold (set_keyed key setFrom) fs cs))
    = lookup key k (fold (set_keyed key setFrom) fs cs)"
  using assms(2,3) by (auto simp: lookup_fold [OF assms(1)] split: option.split)

end

interpretation nodes_merge: keyed_merge node_Name setFromNode
  by unfold_locales (simp add: setFromNode_def override_def)

interpretation chains_merge: keyed_merge toml_ChainID toml_SetFrom
  by unfold_locales (simp add: toml_SetFrom_def override_def)

subsection \<open>Duplicates\<close>

text \<open>One pass reports the strings seen before, and never dereferences a nil one.\<close>

lemma check_dups:
  assumes "uniques_ok U seen"
  shows "\<exists>u' new. for_range (check_dup U) xs (u, errs) = Done (u', errs @ new)
    \<and> (new = [] \<longleftrightarrow> distinct (keys_of snd xs) \<and> set (keys_of snd xs) \<inter> seen u = {})"
proof (induction xs arbitrary: u errs)
  case (Cons x xs)
  obtain mk s where x: "x = (mk, s)" by (cases x)
  show ?case
  proof (cases s)
    case None
    then have "check_dup U x (u, errs) = Done (u, errs)" using assms by (simp add: check_dup_def x uniques_ok_def)
    then show ?thesis using Cons.IH [of u errs] None by (simp add: x)
  next
    case (Some k)
    obtain u1 where u1: "IsDupe U (Some k) u = (k \<in> seen u, u1)" "seen u1 = insert k (seen u)"
      using assms unfolding uniques_ok_def by (metis prod.collapse)
    let ?e = "if k \<in> seen u then [mk k] else []"
    have "check_dup U x (u, errs) = Done (u1, errs @ ?e)" by (simp add: check_dup_def x Some u1(1))
    moreover obtain u' new where "for_range (check_dup U) xs (u1, errs @ ?e) = Done (u', (errs @ ?e) @ new)"
      "new = [] \<longleftrightarrow> distinct (keys_of snd xs) \<and> set (keys_of snd xs) \<inter> seen u1 = {}"
      using Cons.IH [of u1 "errs @ ?e"] by blast
    ultimately show ?thesis using u1(2) Some
      by (intro exI [of _ u'] exI [of _ "?e @ new"]) (auto simp: x)
  qed
qed simp

lemma keys_of_map: "keys_of key (List.map f xs) = keys_of (key \<circ> f) xs"
  by (induction xs) (auto split: option.split)

lemma chain_ids_keys: "keys_of snd (chain_ids cs) = keys_of toml_ChainID cs"
proof -
  have "keys_of (\<lambda>p. toml_ChainID (snd p)) (enumerate n cs) = keys_of toml_ChainID cs" for n :: nat
    by (induction cs arbitrary: n) (auto split: option.split)
  then show ?thesis by (simp add: chain_ids_def keys_of_map comp_def split_beta)
qed

lemma all_nodes_keys: "keys_of snd (all_nodes mk field cs) = keys_of field (concat (List.map toml_Nodes cs))"
proof -
  have one: "keys_of snd (List.map (\<lambda>(j, n). (g j, field n)) (enumerate m ns)) = keys_of field ns" for g and m :: nat and ns
    by (induction ns arbitrary: m) (auto split: option.split)
  have "keys_of snd (concat (List.map (\<lambda>(i, c). List.map (\<lambda>(j, n). (mk i j, field n)) (enumerate 0 (toml_Nodes c))) (enumerate m cs)))
      = keys_of field (concat (List.map toml_Nodes cs))" for m :: nat
    by (induction cs arbitrary: m) (simp_all add: one)
  then show ?thesis by (simp add: all_nodes_def)
qed

lemma validateKeys_total:
  assumes "uniques_ok U seen"
  shows "\<exists>errs. validateKeys U cs = Done errs
    \<and> (errs = [] \<longleftrightarrow> distinct (keys_of toml_ChainID cs) \<and> distinct (keys_of node_Name (concat (List.map toml_Nodes cs)))
         \<and> distinct (keys_of node_URL (concat (List.map toml_Nodes cs))))"
proof -
  have seen0: "seen (no_strings U) = {}" using assms by (simp add: uniques_ok_def)
  obtain u1 e1 where 1: "for_range (check_dup U) (chain_ids cs) (no_strings U, []) = Done (u1, e1)"
    "e1 = [] \<longleftrightarrow> distinct (keys_of toml_ChainID cs)"
    using check_dups [OF assms, of "chain_ids cs" "no_strings U" "[]"] by (auto simp: chain_ids_keys seen0)
  obtain u2 e2 where 2: "for_range (check_dup U) (all_nodes DupNodeName node_Name cs) (no_strings U, e1) = Done (u2, e1 @ e2)"
    "e2 = [] \<longleftrightarrow> distinct (keys_of node_Name (concat (List.map toml_Nodes cs)))"
    using check_dups [OF assms, of "all_nodes DupNodeName node_Name cs" "no_strings U" e1] by (auto simp: all_nodes_keys seen0)
  obtain u3 e3 where 3: "for_range (check_dup U) (all_nodes DupURL node_URL cs) (no_strings U, e1 @ e2) = Done (u3, (e1 @ e2) @ e3)"
    "e3 = [] \<longleftrightarrow> distinct (keys_of node_URL (concat (List.map toml_Nodes cs)))"
    using check_dups [OF assms, of "all_nodes DupURL node_URL cs" "no_strings U" "e1 @ e2"] by (auto simp: all_nodes_keys seen0)
  show ?thesis using 1 2 3 by (auto simp: validateKeys_def)
qed

subsection \<open>Properties of the configuration\<close>




text \<open>The strings seen, as a list, to evaluate.\<close>

definition list_uniques :: "string list uniques" where
  "list_uniques = \<lparr>no_strings = [], IsDupe = \<lambda>s u. case s of None \<Rightarrow> (False, u) | Some x \<Rightarrow> (x \<in> set u, x # u)\<rparr>"

lemma list_uniques_ok: "uniques_ok list_uniques set"
  by (simp add: uniques_ok_def list_uniques_def)

definition sample_toml :: "string \<Rightarrow> string \<Rightarrow> TOMLConfig" where
  "sample_toml i nm = zero_toml\<lparr>toml_ChainID := Some i,
     toml_Nodes := [\<lparr>node_Name = Some nm, node_URL = Some (''http://'' @ nm), node_SolidityURL = Some (''http://s.'' @ nm)\<rparr>]\<rparr>"




end
