(* ===== verification/Monitor.thy ===== *)
theory Monitor
  imports Client Utils GoFloat
begin

text \<open>
  relayer/keystore/loopadapter.go, the adapter that gives the EVM keystore to the transaction manager,
  and relayer/monitor (balance.go, prom.go), the monitor that reports the balance of every account of
  the keystore.
\<close>

subsection \<open>loopadapter.go\<close>

text \<open>The EVM keystore of chainlink-evm: the two methods the adapter captures.\<close>

record 'w KeysStore =
  EnabledAddresses :: "'w \<Rightarrow> 'w \<times> (string + bytes list)"
  ks_Sign :: "bytes \<Rightarrow> bytes \<Rightarrow> 'w \<Rightarrow> 'w \<times> (string + bytes)"

datatype keystore_error = EnabledFailed string | NotTronAddress address_error | SigningFailed string

definition loop_Accounts :: "lib \<Rightarrow> 'w KeysStore \<Rightarrow> 'w \<Rightarrow> 'w \<times> (keystore_error + string list)" where
  "loop_Accounts L ks w =
     (case EnabledAddresses ks w of
        (w, Inl err) \<Rightarrow> (w, Inl (EnabledFailed err))
      | (w, Inr enabledAddresses) \<Rightarrow> (w, Inr (fold (\<lambda>address accounts. accounts @ [eth_AddressString L address]) enabledAddresses [])))"

definition loop_Sign :: "lib \<Rightarrow> 'w KeysStore \<Rightarrow> string \<Rightarrow> bytes \<Rightarrow> 'w \<Rightarrow> ('w \<times> (keystore_error + bytes)) outcome" where
  "loop_Sign L ks account data w =
     (case Base58ToAddress L account of
        Inl err \<Rightarrow> Done (w, Inl (NotTronAddress err))
      | Inr tronAddr \<Rightarrow>
          outcome_bind (EthAddress L tronAddr) (\<lambda>addr.
            case ks_Sign ks addr data w of
              (w, Inl err) \<Rightarrow> Done (w, Inl (SigningFailed err))
            | (w, Inr sg) \<Rightarrow> Done (w, Inr sg)))"

subsection \<open>prom.go\<close>

text \<open>
  The conversion of an int64 to float64, rounded to 53 bits, and the division, correctly rounded: the
  quotient is taken to at least 54 bits and a last bit says whether a remainder is left.
\<close>

definition float_of_int64 :: "int64 \<Rightarrow> int \<times> int" where
  "float_of_int64 n = round53 (sint n) 0"

definition div53 :: "int \<times> int \<Rightarrow> nat \<Rightarrow> int \<times> int" where
  "div53 x d =
     (let (m, e) = x; n = nat \<bar>m\<bar> * 2 ^ nat e; k = 55 + bitlen d;
          q = n * 2 ^ k div d; sticky = (if n * 2 ^ k mod d \<noteq> 0 then 1 else 0)
      in round53 (sgn m * int (2 * q + sticky)) (- int (k + 1)))"

definition sunToTrx :: "int64 \<Rightarrow> float64" where
  "sunToTrx sun = finish_float (div53 (float_of_int64 sun) 1000000)"

text \<open>The gauge vector: the labels are the account, the chain ID, the chain set and the denomination.\<close>

type_synonym gauges = "string list \<rightharpoonup> float64"

definition updateProm :: "lib \<Rightarrow> string \<Rightarrow> address \<Rightarrow> int64 \<Rightarrow> gauges \<Rightarrow> gauges" where
  "updateProm L chainID acc sun g = g([Address_String L acc, chainID, ''tron'', ''TRX''] \<mapsto> sunToTrx sun)"

subsection \<open>balance.go\<close>

text \<open>
  The keystore, the reader factory and the shutdown channel are the environment's; a reader reads an
  account. \<open>bm_reader\<close> is the current reader, nil at first.
\<close>

record 'w BalanceEnv =
  be_Accounts :: "'w \<Rightarrow> 'w \<times> (string + string list)"
  be_newReader :: "'w \<Rightarrow> 'w \<times> (string + (address \<Rightarrow> ('w, GetAccountResponse) call))"
  be_stopped :: "'w \<Rightarrow> bool"
  be_chainID :: string

record 'w balanceMonitor =
  bm_reader :: "(address \<Rightarrow> ('w, GetAccountResponse) call) option"
  bm_gauges :: gauges

definition getReader ::
  "'w BalanceEnv \<Rightarrow> 'w \<times> 'w balanceMonitor \<Rightarrow> ('w \<times> 'w balanceMonitor) \<times> (string + (address \<Rightarrow> ('w, GetAccountResponse) call))" where
  "getReader B = (\<lambda>(w, b).
     case bm_reader b of
       Some r \<Rightarrow> ((w, b), Inr r)
     | None \<Rightarrow>
         (case be_newReader B w of
            (w, Inl err) \<Rightarrow> ((w, b\<lparr>bm_reader := None\<rparr>), Inl err)
          | (w, Inr r) \<Rightarrow> ((w, b\<lparr>bm_reader := Some r\<rparr>), Inr r)))"

text \<open>One key: what it does to the gauges, and whether it got a balance.\<close>

definition update_key ::
  "lib \<Rightarrow> string \<Rightarrow> (address \<Rightarrow> ('w, GetAccountResponse) call) \<Rightarrow> string \<Rightarrow> 'w \<times> gauges \<times> bool \<Rightarrow> ('w \<times> gauges \<times> bool) outcome" where
  "update_key L chainID reader k = (\<lambda>(w, g, gotSomeBals).
     outcome_bind (PublicKeyToTronAddress L k) (\<lambda>r.
       case r of
         Inl err \<Rightarrow> Done (w, g, gotSomeBals)
       | Inr addr \<Rightarrow>
           outcome_bind (reader addr w) (\<lambda>(w, response, err).
             if err \<noteq> None then Done (w, g, gotSomeBals)
             else case response of
               None \<Rightarrow> Panic
             | Some resp \<Rightarrow> Done (w, updateProm L chainID addr (ga_Balance resp) g, True))))"

text \<open>The loop over the keys; a shutdown seen before a key returns from the whole update.\<close>

fun balance_loop ::
  "lib \<Rightarrow> 'w BalanceEnv \<Rightarrow> (address \<Rightarrow> ('w, GetAccountResponse) call) \<Rightarrow> string list \<Rightarrow> 'w \<times> gauges \<times> bool \<Rightarrow>
     (('w \<times> gauges \<times> bool) \<times> bool) outcome" where
  "balance_loop L B reader [] s = Done (s, False)"
| "balance_loop L B reader (k # keys) s =
     (if be_stopped B (fst s) then Done (s, True)
      else outcome_bind (update_key L (be_chainID B) reader k s) (balance_loop L B reader keys))"

definition updateBalances :: "lib \<Rightarrow> 'w BalanceEnv \<Rightarrow> 'w \<times> 'w balanceMonitor \<Rightarrow> ('w \<times> 'w balanceMonitor) outcome" where
  "updateBalances L B = (\<lambda>(w, b).
     case be_Accounts B w of
       (w, Inl err) \<Rightarrow> Done (w, b)
     | (w, Inr keys) \<Rightarrow>
         if length keys = 0 then Done (w, b)
         else
           (case getReader B (w, b) of
              ((w, b), Inl err) \<Rightarrow> Done (w, b)
            | ((w, b), Inr reader) \<Rightarrow>
                outcome_bind (balance_loop L B reader keys (w, bm_gauges b, False)) (\<lambda>((w, g, gotSomeBals), returned).
                  Done (w, if returned \<or> gotSomeBals then b\<lparr>bm_gauges := g\<rparr>
                           else b\<lparr>bm_gauges := g, bm_reader := None\<rparr>))))"

definition newBalanceMonitor :: "'w balanceMonitor" where
  "newBalanceMonitor = \<lparr>bm_reader = None, bm_gauges = Map.empty\<rparr>"

subsection \<open>Accounts of the adapter\<close>

text \<open>
  What is relied on of the libraries: the text of an EVM address is an EVM address again, with the
  prefix 0x; the base58 alphabet has no 0.
\<close>

definition evm_text :: "lib \<Rightarrow> bool" where
  "evm_text L \<longleftrightarrow> (\<forall>a. length a = 20 \<longrightarrow> eth_IsHexAddress L (eth_AddressString L a)
     \<and> eth_HexToAddress L (eth_AddressString L a) = a \<and> take 2 (eth_AddressString L a) = ''0x'')"

definition base58_alphabet :: "lib \<Rightarrow> bool" where
  "base58_alphabet L \<longleftrightarrow> (\<forall>s. CHR ''0'' \<in> set s \<longrightarrow> (\<exists>e. base58_Decode L s = Inl e))"

lemma loop_Accounts_map:
  "EnabledAddresses ks w = (w', Inr as) \<Longrightarrow> loop_Accounts L ks w = (w', Inr (List.map (eth_AddressString L) as))"
proof -
  have "fold (\<lambda>address accounts. accounts @ [eth_AddressString L address]) as acc = acc @ List.map (eth_AddressString L) as" for acc
    by (induction as arbitrary: acc) auto
  then show "EnabledAddresses ks w = (w', Inr as) \<Longrightarrow> ?thesis" by (simp add: loop_Accounts_def)
qed

lemma evm_key_address:
  assumes "evm_text L" and "length a = 20"
  shows "PublicKeyToTronAddress L (eth_AddressString L a) = Done (Inr (0x41 # a))"
proof -
  have e: "eth_IsHexAddress L (eth_AddressString L a)" "eth_HexToAddress L (eth_AddressString L a) = a"
    "take 2 (eth_AddressString L a) = ''0x''" using assms by (simp_all add: evm_text_def)
  from e(3) have "eth_AddressString L a \<noteq> []" by auto
  then show ?thesis using e
    by (simp add: PublicKeyToTronAddress_def StringToAddress_def EVMAddressToAddress_def TronBytePrefix_def)
qed

text \<open>
  C38. Error behaviour: the adapter signs for the TRON text of an enabled EVM address with the key of
  that address, but for none of the accounts it lists itself: those are EVM texts, which the balance
  monitor understands and its own \<open>Sign\<close> refuses.
\<close>

theorem keystore_adapter:
  assumes "evm_text L" and "base58_alphabet L" and "\<And>b. length b = 20 \<Longrightarrow> eth_BytesToAddress L b = b"
    and "\<And>b. length b = 25 \<Longrightarrow> b ! 0 = 0x41 \<Longrightarrow> base58_Decode L (base58_Encode L b) = Inr b"
    and "EnabledAddresses ks w = (w', Inr as)" and "a \<in> set as" and "length a = 20"
  shows "loop_Sign L ks (Address_String L (0x41 # a)) data v = Done (case ks_Sign ks a data v of
           (v', Inl e) \<Rightarrow> (v', Inl (SigningFailed e)) | (v', Inr s) \<Rightarrow> (v', Inr s))
    \<and> (\<exists>accounts. loop_Accounts L ks w = (w', Inr accounts) \<and> eth_AddressString L a \<in> set accounts)
    \<and> PublicKeyToTronAddress L (eth_AddressString L a) = Done (Inr (0x41 # a))
    \<and> (\<exists>e. loop_Sign L ks (eth_AddressString L a) data v = Done (v, Inl (NotTronAddress e)))"
proof -
  let ?b = "(0x41 # a) @ b58_checksum (0x41 # a)"
  have "base58_Decode L (base58_Encode L ?b) = Inr ?b" using assms(4) [of ?b] assms(7) by simp
  then have "DecodeCheck L (base58_Encode L ?b) = Inr (0x41 # a)" using assms(7) by (simp add: DecodeCheck_Inr)
  then have dec: "Base58ToAddress L (Address_String L (0x41 # a)) = Inr (0x41 # a)"
    by (simp add: Base58ToAddress_def Address_String_def EncodeCheck_def b58_Encode_def)
  have "EthAddress L (0x41 # a) = Done a" using assms(3,7) by (simp add: EthAddress_def)
  then have "loop_Sign L ks (Address_String L (0x41 # a)) data v = Done (case ks_Sign ks a data v of
      (v', Inl e) \<Rightarrow> (v', Inl (SigningFailed e)) | (v', Inr s) \<Rightarrow> (v', Inr s))"
    by (simp add: loop_Sign_def dec split: prod.split sum.split)
  moreover have "CHR ''0'' \<in> set (eth_AddressString L a)"
  proof -
    have "take 2 (eth_AddressString L a) = ''0x''" using assms(1,7) by (simp add: evm_text_def)
    then have "CHR ''0'' \<in> set (take 2 (eth_AddressString L a))" by simp
    then show ?thesis by (rule in_set_takeD)
  qed
  then obtain e where "base58_Decode L (eth_AddressString L a) = Inl e" using assms(2) by (auto simp: base58_alphabet_def)
  then have "\<exists>e. loop_Sign L ks (eth_AddressString L a) data v = Done (v, Inl (NotTronAddress e))"
    by (simp add: loop_Sign_def Base58ToAddress_def DecodeCheck_def b58_Decode_def)
  ultimately show ?thesis
    using loop_Accounts_map [OF assms(5)] assms(6) evm_key_address [OF assms(1,7)] by auto
qed

subsection \<open>What is reported\<close>

text \<open>The answers of a node whose accounts do not change during an update: \<open>None\<close> is an error.\<close>

definition answers :: "(address \<Rightarrow> ('w, GetAccountResponse) call) \<Rightarrow> (address \<Rightarrow> int64 option) \<Rightarrow> bool" where
  "answers reader bal \<longleftrightarrow> (\<forall>a w. \<exists>w' r err. reader a w = Done (w', r, err)
     \<and> (case bal a of None \<Rightarrow> err \<noteq> None | Some n \<Rightarrow> err = None \<and> map_option ga_Balance r = Some n))"

text \<open>The accounts of the keys, and the gauges with the balances the node gave for them.\<close>

definition accounts_of :: "lib \<Rightarrow> string list \<Rightarrow> address list" where
  "accounts_of L keys = List.map_filter (\<lambda>k. case PublicKeyToTronAddress L k of Done (Inr a) \<Rightarrow> Some a | _ \<Rightarrow> None) keys"

definition report :: "lib \<Rightarrow> string \<Rightarrow> (address \<Rightarrow> int64 option) \<Rightarrow> address \<Rightarrow> gauges \<Rightarrow> gauges" where
  "report L chainID bal a g = (case bal a of None \<Rightarrow> g | Some n \<Rightarrow> updateProm L chainID a n g)"

lemma update_key_answers:
  assumes "answers reader bal" and "\<And>m. length (LegacyKeccak256 L m) = 32"
  shows "\<exists>w'. update_key L chainID reader k (w, g, got) = Done (w', fold (report L chainID bal) (accounts_of L [k]) g,
    got \<or> (\<exists>a \<in> set (accounts_of L [k]). bal a \<noteq> None))"
proof -
  obtain r where r: "PublicKeyToTronAddress L k = Done r" using PublicKeyToTronAddress_total [OF assms(2)] by blast
  show ?thesis
  proof (cases r)
    case (Inl e)
    then show ?thesis using r by (simp add: update_key_def accounts_of_def map_filter_def)
  next
    case (Inr a)
    obtain w' resp err where a: "reader a w = Done (w', resp, err)"
      "case bal a of None \<Rightarrow> err \<noteq> None | Some n \<Rightarrow> err = None \<and> map_option ga_Balance resp = Some n"
      using assms(1) unfolding answers_def by blast
    have acc: "accounts_of L [k] = [a]" using r Inr by (simp add: accounts_of_def map_filter_def)
    show ?thesis using a r Inr by (cases "bal a") (auto simp: update_key_def acc report_def)
  qed
qed

lemma balance_loop_answers:
  assumes "answers reader bal" and "\<And>m. length (LegacyKeccak256 L m) = 32" and "\<And>w. \<not> be_stopped B w"
  shows "\<exists>w'. balance_loop L B reader keys (w, g, got) =
    Done ((w', fold (report L (be_chainID B) bal) (accounts_of L keys) g,
      got \<or> (\<exists>a \<in> set (accounts_of L keys). bal a \<noteq> None)), False)"
proof (induction keys arbitrary: w g got)
  case (Cons k keys)
  have split: "accounts_of L (k # keys) = accounts_of L [k] @ accounts_of L keys"
    by (simp add: accounts_of_def map_filter_def)
  obtain w1 where "update_key L (be_chainID B) reader k (w, g, got) = Done (w1, fold (report L (be_chainID B) bal) (accounts_of L [k]) g,
      got \<or> (\<exists>a \<in> set (accounts_of L [k]). bal a \<noteq> None))"
    using update_key_answers [OF assms(1,2)] by blast
  then show ?case
    using Cons.IH [of w1 "fold (report L (be_chainID B) bal) (accounts_of L [k]) g"
        "got \<or> (\<exists>a \<in> set (accounts_of L [k]). bal a \<noteq> None)"] assms(3)
    unfolding split by (auto simp: bex_Un)
qed (simp add: accounts_of_def map_filter_def)

text \<open>
  C37. Functional: an update that is not shut down sets the gauge of every account of the keystore the
  node gives a balance for, in TRX, leaves the other gauges as they are, never panics, and drops the
  reader exactly when no account got a balance.
\<close>

theorem balances_reported:
  assumes "answers reader bal" and "\<And>m. length (LegacyKeccak256 L m) = 32" and "\<And>w. \<not> be_stopped B w"
    and "be_Accounts B w = (w1, Inr keys)" and "keys \<noteq> []" and "bm_reader b = Some reader"
  shows "\<exists>w' b'. updateBalances L B (w, b) = Done (w', b')
    \<and> bm_gauges b' = fold (report L (be_chainID B) bal) (accounts_of L keys) (bm_gauges b)
    \<and> (bm_reader b' = None \<longleftrightarrow> (\<forall>a \<in> set (accounts_of L keys). bal a = None))
    \<and> (\<forall>a \<in> set (accounts_of L keys). \<forall>n. bal a = Some n
         \<and> (\<forall>a' \<in> set (accounts_of L keys). Address_String L a' = Address_String L a \<longrightarrow> a' = a) \<longrightarrow>
         bm_gauges b' [Address_String L a, be_chainID B, ''tron'', ''TRX''] = Some (sunToTrx n))"
proof -
  let ?G = "fold (report L (be_chainID B) bal) (accounts_of L keys) (bm_gauges b)"
  obtain w' where l: "balance_loop L B reader keys (w1, bm_gauges b, False) =
      Done ((w', ?G, \<exists>a \<in> set (accounts_of L keys). bal a \<noteq> None), False)"
    using balance_loop_answers [OF assms(1-3), of keys w1 "bm_gauges b" False] by auto
  have u: "updateBalances L B (w, b) = Done (w', if \<exists>a \<in> set (accounts_of L keys). bal a \<noteq> None
      then b\<lparr>bm_gauges := ?G\<rparr> else b\<lparr>bm_gauges := ?G, bm_reader := None\<rparr>)"
    using assms(4-6) l by (simp add: updateBalances_def getReader_def)
  have gauge: "fold (report L c bal) as g [Address_String L a, c, ''tron'', ''TRX''] = Some (sunToTrx n)"
    if "bal a = Some n" "\<forall>a' \<in> set as. Address_String L a' = Address_String L a \<longrightarrow> a' = a"
      "a \<in> set as \<or> g [Address_String L a, c, ''tron'', ''TRX''] = Some (sunToTrx n)" for a n as g c
    using that
  proof (induction as arbitrary: g)
    case (Cons x as)
    then show ?case by (cases "bal x"; cases "x = a") (auto simp: report_def updateProm_def)
  qed simp
  show ?thesis using gauge assms(6) unfolding u by (intro exI [of _ w']) auto
qed

subsection \<open>An update to evaluate\<close>

text \<open>A base58 of the hexadecimal digits without the 0.\<close>

definition evm_lib :: lib where
  "evm_lib = sample_lib\<lparr>
     base58_Encode := \<lambda>b. List.map (\<lambda>c. if c = CHR ''0'' then CHR ''g'' else c) (hex_EncodeToString b),
     base58_Decode := \<lambda>s. if CHR ''0'' \<in> set s then Inl ''alphabet''
       else Inr (fst (hex_DecodeString (List.map (\<lambda>c. if c = CHR ''g'' then CHR ''0'' else c) s)))\<rparr>"

lemma evm_lib_base58: "base58_Decode evm_lib (base58_Encode evm_lib b) = Inr b"
proof -
  let ?h = "hex_EncodeToString b"
  have h: "set ?h \<subseteq> set ''0123456789abcdef''"
  proof
    fix c assume "c \<in> set ?h"
    then obtain d where "d < 16" "c = hex_char d" using hex_string_chars by blast
    then show "c \<in> set ''0123456789abcdef''" unfolding hex_char_def by (simp only:) (rule nth_mem, simp)
  qed
  have undo: "List.map (\<lambda>c. if c = CHR ''g'' then CHR ''0'' else c) (List.map (\<lambda>c. if c = CHR ''0'' then CHR ''g'' else c) xs) = xs"
    if "set xs \<subseteq> set ''0123456789abcdef''" for xs
    using that by (induction xs) auto
  show ?thesis by (simp add: evm_lib_def undo [OF h] hex_roundtrip del: List.map_map) auto
qed

lemma evm_lib_fields [simp]:
  "eth_IsHexAddress evm_lib = eth_IsHexAddress sample_lib" "eth_HexToAddress evm_lib = eth_HexToAddress sample_lib"
  "eth_AddressString evm_lib = eth_AddressString sample_lib" "eth_BytesToAddress evm_lib = eth_BytesToAddress sample_lib"
  "LegacyKeccak256 evm_lib = LegacyKeccak256 sample_lib"
  by (simp_all add: evm_lib_def)

lemma evm_lib_text: "evm_text evm_lib"
proof -
  have "FromHex (''0x'' @ hex_EncodeToString a) = (a, None)" for a
    using FromHex_hex [of a] by (simp add: BytesToHexString_def)
  then show ?thesis by (simp add: evm_text_def sample_lib_def Has0xPrefix_def length_hex)
qed

definition sample_keys :: "nat KeysStore" where
  "sample_keys = \<lparr>EnabledAddresses = \<lambda>w. (w, Inr [replicate 20 5]), ks_Sign = \<lambda>a d w. (Suc w, Inr (a @ d))\<rparr>"

theorem keystore_adapter_witness:
  "loop_Sign evm_lib sample_keys (Address_String evm_lib (0x41 # replicate 20 5)) [1] 0 = Done (1, Inr (replicate 20 5 @ [1]))
   \<and> (\<exists>e. loop_Sign evm_lib sample_keys (eth_AddressString evm_lib (replicate 20 5)) [1] 0 = Done (0, Inl (NotTronAddress e)))"
proof -
  have "base58_alphabet evm_lib" by (simp add: base58_alphabet_def evm_lib_def)
  moreover have "eth_BytesToAddress evm_lib b = b" if "length b = 20" for b using that by (simp add: sample_lib_def)
  moreover have "EnabledAddresses sample_keys w = (w, Inr [replicate 20 5])" for w by (simp add: sample_keys_def)
  ultimately show ?thesis
    using keystore_adapter [OF evm_lib_text, of sample_keys 0 0 "[replicate 20 5]" "replicate 20 5" "[1]" 0] evm_lib_base58
    by (simp add: sample_keys_def)
qed

definition sample_balances :: "nat BalanceEnv" where
  "sample_balances = \<lparr>be_Accounts = \<lambda>w. (w, Inr [eth_AddressString evm_lib (replicate 20 5)]), be_newReader = \<lambda>w. (w, Inl []),
     be_stopped = \<lambda>w. False, be_chainID = ''1''\<rparr>"

definition no_permission :: Permission where
  "no_permission = \<lparr>pm_Type = [], pm_ID = 0, pm_PermissionName = [], pm_Threshold = 0, pm_ParentId = 0, pm_Operations = [],
     pm_Keys = []\<rparr>"

definition rich_account :: GetAccountResponse where
  "rich_account = \<lparr>ga_AccountName = [], ga_Address = [], ga_CreateTime = 0, ga_Balance = 2000000,
     ga_Frozen = \<lparr>af_Balance = 0, af_ExpireTime = 0\<rparr>, ga_DelegatedFrozenBalanceForBandwidth = 0,
     ga_AcquiredDelegatedFrozenBalanceForBandwidth = 0, ga_DelegatedFrozenv2BalanceForBandwidth = 0,
     ga_AcquiredDelegatedFrozenv2BalanceForBandwidth = 0,
     ga_AccountResource = \<lparr>ar_DelegatedFrozenBalanceForEnergy = 0, ar_AcquiredDelegatedFrozenBalanceForEnergy = 0,
       ar_DelegatedFrozenv2BalanceForEnergy = 0, ar_AcquiredDelegatedFrozenv2BalanceForEnergy = 0, ar_EnergyWindowSize = 0,
       ar_EnergyWindowOptimized = False, ar_EnergyUsage = 0, ar_LatestConsumeTimeForEnergy = 0\<rparr>,
     ga_FrozenV2 = [], ga_UnfrozenV2 = [], ga_NetUsage = 0, ga_FreeNetUsage = 0, ga_NetWindowSize = 0,
     ga_NetWindowOptimized = False, ga_Votes = \<lparr>vote_VoteAddress = [], vote_VoteCount = 0\<rparr>, ga_LatestOprationTime = 0,
     ga_LatestConsumeTime = 0, ga_LatestConsumeFreeTime = 0, ga_IsWitness = False, ga_Allowance = 0,
     ga_LatestWithdrawTime = 0, ga_OwnerPermission = no_permission, ga_WitnessPermission = no_permission,
     ga_ActivePermission = [], ga_Asset = [], ga_AssetV2 = [], ga_AssetIssuedName = [], ga_AssetIssuedId = [],
     ga_FreeAssetNetUsage = [], ga_FreeAssetNetUsagev2 = []\<rparr>"

definition rich_reader :: "address \<Rightarrow> (nat, GetAccountResponse) call" where
  "rich_reader a w = Done (Suc w, Some rich_account, None)"

theorem balances_reported_witness:
  "\<exists>w' b'. updateBalances evm_lib sample_balances (0, \<lparr>bm_reader = Some rich_reader, bm_gauges = Map.empty\<rparr>) = Done (w', b')
     \<and> bm_gauges b' [Address_String evm_lib (0x41 # replicate 20 5), ''1'', ''tron'', ''TRX''] = Some (sunToTrx 2000000)"
proof -
  let ?a = "0x41 # replicate 20 5 :: address"
  have key: "accounts_of evm_lib [eth_AddressString evm_lib (replicate 20 5)] = [?a]"
    using evm_key_address [OF evm_lib_text, of "replicate 20 5"] by (simp add: accounts_of_def map_filter_def)
  have ans: "answers rich_reader (\<lambda>_. Some 2000000)" by (simp add: answers_def rich_reader_def rich_account_def)
  have hash: "length (LegacyKeccak256 evm_lib m) = 32" for m by (simp add: sample_lib_def)
  have env: "be_Accounts sample_balances 0 = (0, Inr [eth_AddressString evm_lib (replicate 20 5)])"
    "\<And>w. \<not> be_stopped sample_balances w" "be_chainID sample_balances = ''1''"
    by (simp_all add: sample_balances_def)
  let ?m = "\<lparr>bm_reader = Some rich_reader, bm_gauges = Map.empty\<rparr>"
  from balances_reported [OF ans hash env(2,1), of ?m] show ?thesis unfolding key env(3) by auto
qed

end
