(* ===== verification/Relayer.thy ===== *)
theory Relayer
  imports Config Monitor HttpClient Ocr2_Transmit
begin

text \<open>
  relayer/plugin/relayer.go: the relayer, which reads the configuration of a chain, builds the
  validated client, the transaction manager and the balance monitor, and makes the providers of OCR2.

  Parameters: \<open>rand.Perm\<close>, the TOML encoder, the paging of chainlink-common and the chain names of
  chain-selectors.
\<close>

record 'w TronRelayer =
  rl_chainId :: string
  rl_chainIdNum :: int
  rl_cfg :: TOMLConfig
  rl_client :: "('w \<times> validation) CombinedClient"
  rl_txmConfig :: TronTxmConfig

datatype relayer_error =
    BadChainID string | NoNode string | BadContractID address_error | BadTransmitterID address_error
  | ConfigProviderFailed digest_error

definition parse_chain_id :: "string \<Rightarrow> int option" where
  "parse_chain_id i =
     (if strings_HasPrefix i ''0x'' then big_SetString (drop 2 i) 16 else big_SetString i 10)"

text \<open>
  \<open>uint(d.Seconds())\<close>: the whole seconds of a period (the float64 is exact enough for the truncation
  up to 2 ^ 23 seconds).
\<close>

definition whole_seconds :: "duration \<Rightarrow> nat" where
  "whole_seconds d = nat (d div nanos_per_second)"

text \<open>The configuration of the transaction manager; the energy multiplier is 1.5.\<close>

definition txm_config :: "TOMLConfig \<Rightarrow> TronTxmConfig outcome" where
  "txm_config cfg =
     outcome_bind (get_BroadcastChanSize cfg) (\<lambda>size.
     outcome_bind (get_ConfirmPollPeriod cfg) (\<lambda>poll.
     outcome_bind (get_RetentionPeriod cfg) (\<lambda>retention.
     outcome_bind (get_ReapInterval cfg) (\<lambda>reap.
     Done \<lparr>BroadcastChanSize = unat size, ConfirmPollSecs = whole_seconds poll, EnergyMultiplier = Fin 3 (- 1),
           FixedEnergyValue = 0, RetentionPeriod = retention, ReapInterval = reap\<rparr>))))"

definition NewRelayer ::
  "(nat \<Rightarrow> nat list) \<Rightarrow> (duration \<Rightarrow> 'w Net) \<Rightarrow> Codec \<Rightarrow> lib \<Rightarrow> TOMLConfig \<Rightarrow> (relayer_error + 'w TronRelayer) outcome" where
  "NewRelayer perm net cod L cfg =
     outcome_bind (deref (toml_ChainID cfg)) (\<lambda>i.
       case parse_chain_id i of
         None \<Rightarrow> Done (Inl (BadChainID i))
       | Some idNum \<Rightarrow>
           outcome_bind (SelectRandom perm (ListNodes cfg)) (\<lambda>r.
             case r of
               Inl err \<Rightarrow> Done (Inl (NoNode err))
             | Inr nodeConfig \<Rightarrow>
                 outcome_bind (deref (node_URL nodeConfig)) (\<lambda>url.
                 outcome_bind (deref (node_SolidityURL nodeConfig)) (\<lambda>solidityUrl.
                   let client = NewValidatedCombinedClient (CreateCombinedClient net cod L url solidityUrl) idNum
                   in outcome_bind (txm_config cfg) (\<lambda>tc.
                     Done (Inr \<lparr>rl_chainId = i, rl_chainIdNum = idNum, rl_cfg = cfg, rl_client = client, rl_txmConfig = tc\<rparr>))))))"

subsection \<open>Node statuses\<close>

record NodeStatus =
  ns_ChainID :: string
  ns_Name :: string
  ns_Config :: string

datatype status_error = ErrOutOfRange | MarshalFailed string

definition nodeStatus :: "(NodeConfig \<Rightarrow> string + string) \<Rightarrow> NodeConfig \<Rightarrow> string \<Rightarrow> (string + NodeStatus) outcome" where
  "nodeStatus marshal n i =
     outcome_bind (deref (node_Name n)) (\<lambda>name.
       Done (case marshal n of Inl err \<Rightarrow> Inl err | Inr b \<Rightarrow> Inr \<lparr>ns_ChainID = i, ns_Name = name, ns_Config = b\<rparr>))"

fun status_loop ::
  "(NodeConfig \<Rightarrow> string + string) \<Rightarrow> string \<Rightarrow> NodeConfig list \<Rightarrow> NodeStatus list \<Rightarrow> (NodeStatus list \<times> status_error option) outcome" where
  "status_loop marshal i [] stats = Done (stats, None)"
| "status_loop marshal i (node # nodes) stats =
     outcome_bind (nodeStatus marshal node i) (\<lambda>r.
       case r of
         Inl err \<Rightarrow> Done (stats, Some (MarshalFailed err))
       | Inr stat \<Rightarrow> status_loop marshal i nodes (stats @ [stat]))"

text \<open>The slice bounds are the caller's; a negative or crossed pair panics.\<close>

definition listNodeStatuses ::
  "(NodeConfig \<Rightarrow> string + string) \<Rightarrow> 'w TronRelayer \<Rightarrow> int \<Rightarrow> int \<Rightarrow> (NodeStatus list \<times> int \<times> status_error option) outcome" where
  "listNodeStatuses marshal t start end' =
     (let total = int (length (toml_Nodes (rl_cfg t)))
      in if start \<ge> total then Done ([], total, Some ErrOutOfRange)
         else
           let end' = (if end' > total then total else end')
           in if start < 0 \<or> end' < start then Panic
              else
                outcome_bind (status_loop marshal (rl_chainId t)
                    (take (nat (end' - start)) (drop (nat start) (toml_Nodes (rl_cfg t)))) [])
                  (\<lambda>(stats, err). Done (stats, total, err)))"

definition ListNodeStatuses ::
  "(int \<Rightarrow> string \<Rightarrow> (int \<Rightarrow> int \<Rightarrow> (NodeStatus list \<times> int \<times> status_error option) outcome) \<Rightarrow> 'r) \<Rightarrow>
     (NodeConfig \<Rightarrow> string + string) \<Rightarrow> 'w TronRelayer \<Rightarrow> int32 \<Rightarrow> string \<Rightarrow> 'r" where
  "ListNodeStatuses list_pages marshal t pageSize pageToken =
     (let pageSize = (if sint pageSize < 0 then 0 else pageSize)
      in list_pages (sint pageSize) pageToken (listNodeStatuses marshal t))"

record ChainStatus =
  cs_ID :: string
  cs_Enabled :: bool
  cs_Config :: string

definition GetChainStatus :: "(TOMLConfig \<Rightarrow> string + string) \<Rightarrow> 'w TronRelayer \<Rightarrow> string + ChainStatus" where
  "GetChainStatus tomlString t =
     (case tomlString (rl_cfg t) of
        Inl err \<Rightarrow> Inl err
      | Inr toml \<Rightarrow> Inr \<lparr>cs_ID = rl_chainId t, cs_Enabled = IsEnabled (rl_cfg t), cs_Config = toml\<rparr>)"

record ChainInfo =
  ci_FamilyName :: string
  ci_ChainID :: string
  ci_NetworkName :: string
  ci_NetworkNameFull :: string

definition GetChainInfo ::
  "(uint64 \<Rightarrow> string + string) \<Rightarrow> (string \<Rightarrow> string + string) \<Rightarrow> 'w TronRelayer \<Rightarrow> string + ChainInfo" where
  "GetChainInfo tronNameFromChainId extractNetworkEnvName r =
     (case tronNameFromChainId (big_Uint64 (rl_chainIdNum r)) of
        Inl err \<Rightarrow> Inl err
      | Inr networkName \<Rightarrow>
          (case extractNetworkEnvName networkName of
             Inl err \<Rightarrow> Inl err
           | Inr envName \<Rightarrow>
               Inr \<lparr>ci_FamilyName = ''tron'', ci_ChainID = big_String (rl_chainIdNum r), ci_NetworkName = envName,
                    ci_NetworkNameFull = networkName\<rparr>))"

subsection \<open>Providers\<close>

text \<open>Every provider gets a reader of its own, with an empty ABI cache beside the client's state.\<close>

definition relayer_NewConfigProvider ::
  "lib \<Rightarrow> 'w TronRelayer \<Rightarrow> string \<Rightarrow> (relayer_error + (('w \<times> validation) \<times> abi_cache) configProvider) outcome" where
  "relayer_NewConfigProvider L t contractID =
     (let reader = NewReader L (rl_client t)
      in case StringToAddress L contractID of
           Inl err \<Rightarrow> Done (Inl (BadContractID err))
         | Inr contractAddress \<Rightarrow>
             outcome_bind (NewConfigProvider L (rl_chainIdNum t) contractAddress reader) (\<lambda>r.
               Done (case r of Inl err \<Rightarrow> Inl (ConfigProviderFailed err) | Inr p \<Rightarrow> Inr p)))"

definition relayer_NewMedianProvider ::
  "lib \<Rightarrow> 'w TronRelayer \<Rightarrow> string \<Rightarrow> string \<Rightarrow> (relayer_error + (('w \<times> validation) \<times> abi_cache) medianProvider) outcome" where
  "relayer_NewMedianProvider L t contractID transmitterID =
     (let reader = NewReader L (rl_client t)
      in case StringToAddress L contractID of
           Inl err \<Rightarrow> Done (Inl (BadContractID err))
         | Inr contractAddress \<Rightarrow>
             outcome_bind (NewConfigProvider L (rl_chainIdNum t) contractAddress reader) (\<lambda>r.
               case r of
                 Inl err \<Rightarrow> Done (Inl (ConfigProviderFailed err))
               | Inr p \<Rightarrow>
                   (case StringToAddress L transmitterID of
                      Inl err \<Rightarrow> Done (Inl (BadTransmitterID err))
                    | Inr senderAddress \<Rightarrow>
                        let medianContract = NewContractReader L contractAddress reader
                        in Done (Inr (NewMedianProvider medianContract p contractAddress senderAddress)))))"

definition relayer_NewPluginProvider ::
  "lib \<Rightarrow> 'w TronRelayer \<Rightarrow> string \<Rightarrow> string \<Rightarrow> (relayer_error + (('w \<times> validation) \<times> abi_cache) medianProvider) outcome" where
  "relayer_NewPluginProvider L t contractID transmitterID = relayer_NewMedianProvider L t contractID transmitterID"

subsection \<open>Facts about the configuration of a relayer\<close>

definition perm_ok :: "(nat \<Rightarrow> nat list) \<Rightarrow> bool" where
  "perm_ok perm \<longleftrightarrow> (\<forall>n. length (perm n) = n \<and> set (perm n) = {0..<n})"

lemma SelectRandom_in:
  assumes "perm_ok perm" and "ns \<noteq> []"
  shows "\<exists>n \<in> set ns. SelectRandom perm ns = Done (Inr n)"
proof -
  have p: "length (perm (length ns)) = length ns" "set (perm (length ns)) = {0..<length ns}"
    using assms(1) by (auto simp: perm_ok_def)
  then have "perm (length ns) ! 0 \<in> set (perm (length ns))" using assms(2) by (intro nth_mem) simp
  then have "perm (length ns) ! 0 < length ns" using p(2) by simp
  then have "SelectRandom perm ns = Done (Inr (ns ! (perm (length ns) ! 0)))"
    using assms(2) p(1) by (auto simp: SelectRandom_def Let_def)
  then show ?thesis using \<open>perm (length ns) ! 0 < length ns\<close> by (intro bexI [of _ "ns ! (perm (length ns) ! 0)"]) simp_all
qed

text \<open>A node with everything set; merging keeps that.\<close>

definition complete :: "NodeConfig \<Rightarrow> bool" where
  "complete n \<longleftrightarrow> node_Name n \<noteq> None \<and> node_URL n \<noteq> None \<and> node_SolidityURL n \<noteq> None"

lemma node_valid_complete: "node_ValidateConfig n = [] \<Longrightarrow> complete n"
  by (auto simp: node_ValidateConfig_def complete_def split: option.splits if_splits)

lemma merge_first_complete:
  assumes "\<And>n. n \<in> set ns \<Longrightarrow> complete n" and "complete f"
  shows "\<forall>n \<in> set (merge_first same (\<lambda>n. setFromNode n f) f ns). complete n"
proof -
  have "complete (setFromNode n f)" for n using assms(2) by (simp add: complete_def setFromNode_def override_def)
  then show ?thesis using assms by (induction ns) auto
qed

lemma merge_first_not_Nil [simp]: "merge_first same upd f ns \<noteq> []"
  by (cases ns) auto

lemma nodes_SetFrom_complete:
  "\<forall>n \<in> set ns. complete n \<Longrightarrow> \<forall>f \<in> set fs. complete f \<Longrightarrow> \<forall>n \<in> set (nodes_SetFrom ns fs). complete n"
proof (induction fs arbitrary: ns)
  case (Cons f fs)
  have "\<forall>n \<in> set (set_node f ns). complete n" using Cons.prems merge_first_complete [of ns f]
    by (auto simp: set_node_def set_keyed_def split: option.split)
  then show ?case using Cons.IH [of "set_node f ns"] Cons.prems(2) by (simp add: nodes_SetFrom_def)
qed (simp add: nodes_SetFrom_def)

lemma nodes_SetFrom_not_Nil: "ns \<noteq> [] \<or> fs \<noteq> [] \<Longrightarrow> nodes_SetFrom ns fs \<noteq> []"
proof (induction fs arbitrary: ns)
  case (Cons f fs)
  have "set_node f ns \<noteq> []" by (auto simp: set_node_def set_keyed_def split: option.split)
  then show ?case using Cons.IH [of "set_node f ns"] by (simp add: nodes_SetFrom_def)
qed (simp add: nodes_SetFrom_def)

lemma toml_valid_nodes:
  assumes "toml_ValidateConfig c = []"
  shows "toml_Nodes c \<noteq> []" "\<forall>n \<in> set (toml_Nodes c). complete n" "\<exists>i. toml_ChainID c = Some i \<and> i \<noteq> []"
  using assms node_valid_complete
  by (auto simp: toml_ValidateConfig_def split: option.splits if_splits)

lemma SetDefaults_fields:
  "toml_ChainID (SetDefaults c) = toml_ChainID c" "toml_Nodes (SetDefaults c) = nodes_SetFrom [] (toml_Nodes c)"
  by (simp_all add: SetDefaults_def Defaults_def toml_SetFrom_def zero_toml_def defaults_def override_def nodes_SetFrom_def)

text \<open>The periods of the manager after the defaults were filled in.\<close>

definition given :: "'a option \<Rightarrow> 'a \<Rightarrow> 'a" where
  "given p d = (case p of None \<Rightarrow> d | Some x \<Rightarrow> x)"

lemma txm_config_SetDefaults:
  "txm_config (SetDefaults c) = Done
     \<lparr>BroadcastChanSize = unat (given (cc_BroadcastChanSize (toml_Chain c)) 4096),
      ConfirmPollSecs = whole_seconds (given (cc_ConfirmPollPeriod (toml_Chain c)) 500000000),
      EnergyMultiplier = Fin 3 (- 1), FixedEnergyValue = 0,
      RetentionPeriod = given (cc_RetentionPeriod (toml_Chain c)) 0,
      ReapInterval = given (cc_ReapInterval (toml_Chain c)) (60 * nanos_per_second)\<rparr>"
  by (simp add: txm_config_def SetDefaults_def Defaults_def toml_SetFrom_def zero_toml_def defaults_def setFromChain_def
      override_def get_BroadcastChanSize_def get_ConfirmPollPeriod_def get_RetentionPeriod_def get_ReapInterval_def
      deref_def given_def split: option.split)

subsection \<open>Properties of the relayer\<close>

text \<open>
  From a configuration that passed validation and got the defaults, the relayer starts
  without a panic unless the chain ID is no number, which is reported; its client validates that chain
  ID against one of the configured nodes, and the periods are those given, or the defaults.
\<close>

lemma relayer_starts:
  assumes "toml_ValidateConfig c = []" and "perm_ok perm" and "d = SetDefaults c"
  shows "\<exists>i. toml_ChainID c = Some i \<and>
    (case parse_chain_id i of
       None \<Rightarrow> NewRelayer perm net cod L d = Done (Inl (BadChainID i))
     | Some num \<Rightarrow>
         (\<exists>n \<in> set (toml_Nodes d). \<exists>url surl t. node_URL n = Some url \<and> node_SolidityURL n = Some surl
            \<and> NewRelayer perm net cod L d = Done (Inr t)
            \<and> rl_chainId t = i \<and> rl_chainIdNum t = num \<and> rl_cfg t = d
            \<and> rl_client t = NewValidatedCombinedClient (CreateCombinedClient net cod L url surl) num
            \<and> txm_config d = Done (rl_txmConfig t)))"
proof -
  note v = toml_valid_nodes [OF assms(1)]
  obtain i where i: "toml_ChainID c = Some i" using v(3) by blast
  have nodes: "toml_Nodes d \<noteq> []" "\<forall>n \<in> set (toml_Nodes d). complete n"
    using v(1,2) nodes_SetFrom_not_Nil [of "[]" "toml_Nodes c"] nodes_SetFrom_complete [of "[]" "toml_Nodes c"]
    by (simp_all add: assms(3) SetDefaults_fields)
  obtain n where n: "n \<in> set (toml_Nodes d)" "SelectRandom perm (toml_Nodes d) = Done (Inr n)"
    using SelectRandom_in [OF assms(2) nodes(1)] by blast
  obtain url surl where u: "node_URL n = Some url" "node_SolidityURL n = Some surl"
    using nodes(2) n(1) by (auto simp: complete_def)
  have "toml_ChainID d = Some i" by (simp add: assms(3) SetDefaults_fields i)
  moreover obtain tc where "txm_config d = Done tc" using txm_config_SetDefaults assms(3) by blast
  ultimately show ?thesis
    using i n u by (auto simp: NewRelayer_def deref_def ListNodes_def Let_def split: option.split)
qed

text \<open>
  Bounds: the confirmation loop waits whole seconds, so a poll period below a second, the
  default of 500 ms among them, becomes zero; other periods lose their fraction only.
\<close>

theorem default_poll_lost:
  assumes "txm_config (SetDefaults c) = Done tc" and "p = given (cc_ConfirmPollPeriod (toml_Chain c)) 500000000" and "0 \<le> p"
  shows "(cc_ConfirmPollPeriod (toml_Chain c) = None \<longrightarrow> ConfirmPollSecs tc = 0)
    \<and> (p < nanos_per_second \<longleftrightarrow> ConfirmPollSecs tc = 0)
    \<and> int (ConfirmPollSecs tc) * nanos_per_second \<le> p \<and> p < (int (ConfirmPollSecs tc) + 1) * nanos_per_second"
proof -
  have s: "ConfirmPollSecs tc = nat (p div nanos_per_second)"
    using assms(1) by (auto simp: txm_config_SetDefaults assms(2) whole_seconds_def)
  have pos: "0 < nanos_per_second" by (simp add: nanos_per_second_def)
  have d: "int (ConfirmPollSecs tc) = p div nanos_per_second"
    using s pos assms(3) by (simp add: pos_imp_zdiv_nonneg_iff)
  have e: "p = (p div nanos_per_second) * nanos_per_second + p mod nanos_per_second" by simp
  have m: "0 \<le> p mod nanos_per_second" "p mod nanos_per_second < nanos_per_second" using pos by simp_all
  have "p < nanos_per_second \<longleftrightarrow> p div nanos_per_second = 0"
    using assms(3) pos by (auto simp: zdiv_eq_0_iff)
  moreover have "p = 500000000" if "cc_ConfirmPollPeriod (toml_Chain c) = None" using that assms(2) by (simp add: given_def)
  ultimately show ?thesis using d e m by (auto simp: distrib_right nanos_per_second_def)
qed

lemma parse_chain_id_decimal: "parse_chain_id (dec_string n) = Some (int n)"
  by (simp add: parse_chain_id_def dec_string_no_0x big_SetString_dec)

text \<open>
  Functional: a page of node statuses is the slice of the configured nodes it asks for, cut at the end,
  with the total number; a page that starts at or after the end is out of range, and one whose bounds
  are negative or crossed panics.
\<close>

theorem node_pages:
  assumes "\<forall>n \<in> set (toml_Nodes (rl_cfg t)). complete n \<and> marshal n = Inr (text n)"
    and "len = int (length (toml_Nodes (rl_cfg t)))"
  shows "listNodeStatuses marshal t a b =
    (if len \<le> a then Done ([], len, Some ErrOutOfRange)
     else if a < 0 \<or> b < a then Panic
     else Done (List.map (\<lambda>n. \<lparr>ns_ChainID = rl_chainId t, ns_Name = the (node_Name n), ns_Config = text n\<rparr>)
                  (take (nat (b - a)) (drop (nat a) (toml_Nodes (rl_cfg t)))), len, None))"
proof -
  let ?st = "\<lambda>n. \<lparr>ns_ChainID = rl_chainId t, ns_Name = the (node_Name n), ns_Config = text n\<rparr>"
  have loop: "status_loop marshal (rl_chainId t) ns acc = Done (acc @ List.map ?st ns, None)"
    if "set ns \<subseteq> set (toml_Nodes (rl_cfg t))" for ns acc
    using that
  proof (induction ns arbitrary: acc)
    case (Cons n ns)
    then have "complete n" "marshal n = Inr (text n)" using assms(1) by auto
    then have "nodeStatus marshal n (rl_chainId t) = Done (Inr (?st n))"
      by (auto simp: nodeStatus_def complete_def deref_def split: option.split)
    then show ?case using Cons by simp
  qed simp
  have sub: "set (take k (drop m (toml_Nodes (rl_cfg t)))) \<subseteq> set (toml_Nodes (rl_cfg t))" for k m
    by (meson order_trans set_take_subset set_drop_subset)
  have cut: "take (nat (len - a)) (drop (nat a) (toml_Nodes (rl_cfg t))) = take (nat (b - a)) (drop (nat a) (toml_Nodes (rl_cfg t)))"
    if "len < b" "0 \<le> a" "a < len"
    using that by (simp add: assms(2))
  show ?thesis using cut
    by (simp add: listNodeStatuses_def Let_def loop [OF sub] assms(2) [symmetric])
qed

text \<open>
  Functional: for two address texts and an aggregator whose address it could decode, the
  median provider transmits from the sender to the contract, digests configurations for the relayer's
  chain ID and the contract's EVM address, reads that contract, and starts with empty caches, which
  answer nothing before they are started; a text that is no address is reported, the contract's first.
\<close>

theorem median_provider_wired:
  assumes "abi_JSON_Inputs L functionABI ''_configDigestFromConfigData'' = Inr args"
  shows "(\<forall>e. StringToAddress L contractID = Inl e \<longrightarrow>
      relayer_NewMedianProvider L t contractID transmitterID = Done (Inl (BadContractID e)))
    \<and> (\<forall>c e. StringToAddress L contractID = Inr c \<and> StringToAddress L transmitterID = Inl e \<longrightarrow>
      relayer_NewMedianProvider L t contractID transmitterID = Done (Inl (BadTransmitterID e)))
    \<and> (\<forall>c s. StringToAddress L contractID = Inr c \<and> StringToAddress L transmitterID = Inr s \<longrightarrow>
      (\<exists>p. relayer_NewMedianProvider L t contractID transmitterID = Done (Inr p)
         \<and> ct_senderAddress (mp_transmitter p) = s \<and> ct_contractAddress (mp_transmitter p) = c
         \<and> \<not> excludeSigs (mp_transmitter p)
         \<and> cp_digester (mp_configProvider p) =
             \<lparr>dg_chainID = rl_chainIdNum t, dg_contractAddress = eth_BytesToAddress L (drop 1 c), dg_configDigestArgs = args\<rparr>
         \<and> mp_medianContract p = NewContractReader L c (NewReader L (rl_client t))
         \<and> cp_reader (mp_configProvider p) = mp_medianContract p
         \<and> snd (snd (cc_LatestConfigDetails ttl now (cp_contractCache (mp_configProvider p)))) = Some NotInitialized
         \<and> snd (snd (LatestConfigDigestAndEpoch ttl now (mp_transmissionsCache p))) = Some NotInitialized))"
proof -
  have "EthAddress L c = Done (eth_BytesToAddress L (drop 1 c))" if "StringToAddress L s = Inr c" for s c
  proof -
    have "c \<noteq> []"
      using StringToAddress_cases [OF that] FromHex_41 [of s c] by (auto simp: DecodeCheck_Inr)
    then show ?thesis by (simp add: EthAddress_def)
  qed
  note eth = this
  show ?thesis
    using assms
    by (auto simp: relayer_NewMedianProvider_def NewConfigProvider_def NewOffchainConfigDigester_def eth Let_def
        NewMedianProvider_def NewOCRContractTransmitter_def cc_LatestConfigDetails_def assertConfigNotStale_def
        assert_not_stale_def NewContractCache_def LatestConfigDigestAndEpoch_def tc_LatestTransmissionDetails_def
        assertTransmissionsNotStale_def NewTransmissionsCache_def)
qed

subsection \<open>A relayer to evaluate\<close>

definition sample_perm :: "nat \<Rightarrow> nat list" where
  "sample_perm n = [0..<n]"

definition sample_toml_config :: TOMLConfig where
  "sample_toml_config = sample_toml (dec_string 5) ''a''"

lemma sample_toml_valid: "toml_ValidateConfig sample_toml_config = []"
  by (simp add: sample_toml_config_def toml_ValidateConfig_def sample_toml_def zero_toml_def node_ValidateConfig_def dec_string_not_Nil)

lemma sample_perm_ok: "perm_ok sample_perm"
  by (simp add: perm_ok_def sample_perm_def)

theorem default_poll_lost_witness:
  "\<exists>tc. txm_config NewDefault = Done tc \<and> ConfirmPollSecs tc = 0"
proof -
  obtain tc where tc: "txm_config (SetDefaults zero_toml) = Done tc" using txm_config_SetDefaults by blast
  have "cc_ConfirmPollPeriod (toml_Chain zero_toml) = None" by (simp add: zero_toml_def)
  with default_poll_lost [OF tc refl] show ?thesis using tc by (simp add: NewDefault_def given_def)
qed

definition sample_relayer :: "nat TronRelayer" where
  "sample_relayer = \<lparr>rl_chainId = dec_string 5, rl_chainIdNum = 5, rl_cfg = sample_toml_config,
     rl_client = NewValidatedCombinedClient (sample_client ''0000000000000005'') 5, rl_txmConfig = sample_config\<rparr>"

lemma sample_relayer_nodes:
  "toml_Nodes (rl_cfg sample_relayer) =
     [\<lparr>node_Name = Some ''a'', node_URL = Some ''http://a'', node_SolidityURL = Some ''http://s.a''\<rparr>]"
  by (simp add: sample_relayer_def sample_toml_config_def sample_toml_def)

theorem node_pages_witness:
  "listNodeStatuses (\<lambda>n. Inr ''toml'') sample_relayer 0 7
     = Done ([\<lparr>ns_ChainID = dec_string 5, ns_Name = ''a'', ns_Config = ''toml''\<rparr>], 1, None)
   \<and> listNodeStatuses (\<lambda>n. Inr ''toml'') sample_relayer 1 7 = Done ([], 1, Some ErrOutOfRange)"
proof -
  have ok: "\<forall>n \<in> set (toml_Nodes (rl_cfg sample_relayer)). complete n \<and> Inr ''toml'' = (Inr ''toml'' :: string + string)"
    by (simp add: sample_relayer_nodes complete_def)
  note pages = node_pages [of sample_relayer "\<lambda>n. Inr ''toml''" "\<lambda>n. ''toml''", OF ok refl]
  have "rl_chainId sample_relayer = dec_string 5" by (simp add: sample_relayer_def)
  then show ?thesis using pages [of 0 7] pages [of 1 7] unfolding sample_relayer_nodes by simp
qed

theorem median_provider_wired_witness:
  "\<exists>p. relayer_NewMedianProvider sample_lib sample_relayer (''0x'' @ hex_EncodeToString (replicate 20 5))
         (''0x'' @ hex_EncodeToString (replicate 20 6)) = Done (Inr p)
     \<and> ct_senderAddress (mp_transmitter p) = 0x41 # replicate 20 6"
proof -
  have addr: "StringToAddress sample_lib (''0x'' @ hex_EncodeToString a) = Inr (0x41 # a)" if "length a = 20" for a
    using FromHex_hex [of a] that
    by (simp add: StringToAddress_def sample_lib_def Has0xPrefix_def length_hex EVMAddressToAddress_def TronBytePrefix_def
        BytesToHexString_def)
  have "abi_JSON_Inputs sample_lib functionABI ''_configDigestFromConfigData'' = Inr []" by (simp add: sample_lib_def)
  from median_provider_wired [OF this, of "''0x'' @ hex_EncodeToString (replicate 20 5)" sample_relayer
      "''0x'' @ hex_EncodeToString (replicate 20 6)"]
  show ?thesis using addr [of "replicate 20 5"] addr [of "replicate 20 6"] by fastforce
qed

end
