(* ===== verification/Reports.thy ===== *)
theory Reports
  imports Ocr2_Transmit Txm_Node Txm_Stuck
begin

text \<open>
  The way of a report from the transmitter (relayer/ocr2/contract_transmitter.go) through the
  transaction manager (relayer/txm/txm.go), the ABI conversion (pkg/abi/abi.go) and the serializer
  (txm/seralizer.go) to the transaction that is signed and broadcast: what the pieces need of each
  other, and an environment to evaluate the whole way in.
\<close>

subsection \<open>What enters the manager\<close>

lemma Enqueue_made:
  assumes "txm_inv E t" and "uuid_fresh E req t" and "req_ID req = []" and "Enqueue E req t = Done (t', None)"
  shows "made_from req (objects t' (next_object t)) \<and> next_object t < next_object t'"
proof -
  have ok: "refused E req (world t) = None"
    using Enqueue_refused [OF assms(1), of req] assms(4) by (cases "refused E req (world t)") auto
  have new: "account_status (state_of t) (owner_of E (req_FromAddress req), request_id E req (world t)) = None"
    using assms(2,3) by (simp add: uuid_fresh_def)
  have made: "made_from req (objects t' (next_object t))"
    and q: "BroadcastChan t' = BroadcastChan t @ [next_object t]"
    and inv: "txm_inv E t'"
    using Enqueue_new [OF assms(1) ok new] assms(4) by (auto simp: submitted_def simp del: account_status.simps)
  have "next_object t \<in> set (queue t')" using q by (simp add: queue_def)
  from txm_invD(4) [OF inv this] obtain s where
    s: "store (accounts t') (owner_of E (FromAddress (objects t' (next_object t)))) = Some s"
      "pendingTxs s (ID (objects t' (next_object t))) = Some (next_object t)"
    by (auto simp: pending_in_def state_of_def)
  then have "next_object t \<in> store_refs s" by (auto simp: store_refs_def intro: ranI)
  with txm_invD(2) [OF inv] s(1) have "next_object t < next_object t'" by (auto simp: tracked_ok_def)
  with made show ?thesis by simp
qed

lemma Transmit_None:
  assumes "Transmit U E oc ctx report sigs t = Done (t', None)"
  shows "length sigs \<le> 32 \<and> list_all (splits U) sigs
    \<and> Enqueue E (transmit_request oc (transmit_params (RawReportContext U ctx) report (columns U oc sigs))) t = Done (t', None)"
proof -
  have l: "length sigs \<le> 32" using assms by (auto simp: Transmit_def Let_def split: if_splits)
  have s: "list_all (splits U) sigs"
  proof (rule ccontr)
    assume "\<not> list_all (splits U) sigs"
    then show False using assms l by (simp add: Transmit_def split_signatures_panic Let_def)
  qed
  show ?thesis using assms l s
    by (auto simp: Transmit_def split_signatures_columns [OF l s] Let_def outcome_bind_eq_Done split: if_splits)
qed

lemma uuid_fresh_transmit: "uuid_fresh E (transmit_request oc ps) t = uuid_fresh E (transmit_request oc qs) t"
  by (simp add: uuid_fresh_def request_id_def transmit_request_def)

subsection \<open>The call data\<close>

text \<open>
  What go-ethereum makes of the five type names of \<open>transmit\<close>, and that it hands Go byte values
  through unconverted.
\<close>

definition transmit_types :: "abi_type list" where
  "transmit_types = (let b32 = AbiType FixedBytesTy 32 None
     in [AbiType ArrayTy 3 (Some b32), AbiType BytesTy 0 None, AbiType SliceTy 0 (Some b32), AbiType SliceTy 0 (Some b32), b32])"

definition knows_types :: "lib \<Rightarrow> bool" where
  "knows_types L \<longleftrightarrow>
     abi_NewType L ''bytes32[3]'' = Inr (transmit_types ! 0) \<and> abi_NewType L ''bytes'' = Inr (transmit_types ! 1)
   \<and> abi_NewType L ''bytes32[]'' = Inr (transmit_types ! 2) \<and> abi_NewType L ''bytes32'' = Inr (transmit_types ! 4)"

definition transmit_values :: "bytes list \<Rightarrow> bytes \<Rightarrow> bytes list \<times> bytes list \<times> bytes \<Rightarrow> goval list" where
  "transmit_values rctx report = (\<lambda>(rs, ss, vs).
     [GFixedBytesList rctx, GBytes report, GFixedBytesList rs, GFixedBytesList ss, GFixedBytes vs])"

lemma Pack_transmit:
  assumes "knows_types L"
  shows "Pack L sig (transmit_params rctx report cols) =
    Done (case abi_PackValues L transmit_types (transmit_values rctx report cols) of
            Inl e \<Rightarrow> Inl (PackError e) | Inr b \<Rightarrow> Inr (Selector L sig @ b))"
  using assms
  by (cases cols; cases "abi_PackValues L transmit_types (transmit_values rctx report cols)")
    (simp_all add: knows_types_def transmit_types_def transmit_values_def Let_def Pack_def GetPaddedParam_def
      transmit_params_def convert_param_def)

lemma prepare_builds:
  assumes "prepare E tx t = Done (t', Prepared coreTx)"
  shows "\<exists>fee b h now. BuildTransaction (lib_of E) (serializer_for tx fee b h) now = Done (Inr coreTx)"
proof -
  obtain u fee where 1: "calculateFeeLimit E tx t = Done (u, fee)"
    using assms by (auto simp: prepare_def outcome_bind_eq_Done)
  obtain feeLimit where 2: "fee = Inr feeLimit" using assms 1 by (cases fee) (simp_all add: prepare_def)
  obtain w ref where 3: "computeRefBlockBytesAndHash E (world u) = Done (w, ref)"
    using assms 1 2 by (auto simp: prepare_def outcome_bind_eq_Done)
  obtain b h where 4: "ref = Inr (b, h)" using assms 1 2 3 by (cases ref) (auto simp: prepare_def Let_def)
  obtain v now where 5: "time_Now E w = (v, now)" by fastforce
  obtain r where 6: "BuildTransaction (lib_of E) (serializer_for tx feeLimit b h) (UnixMilli now) = Done r"
    using assms 1 2 3 4 5 by (auto simp: prepare_def outcome_bind_eq_Done Let_def)
  then have "r = Inr coreTx"
    using assms 1 2 3 4 5 by (cases r) (auto simp: prepare_def Let_def)
  with 6 show ?thesis by blast
qed

lemma built_call:
  assumes "BuildTransaction L (serializer_for tx fee b h) now = Done (Inr coreTx)"
  shows "\<exists>callData k. Pack L (Method tx) (Params tx) = Done (Inr callData) \<and> rd_Contract (RawData_of coreTx) = [k]
    \<and> hex_DecodeString (pv_Data (par_Value (con_Parameter k))) = (callData, None)
    \<and> pv_OwnerAddress (par_Value (con_Parameter k)) = Address_String L (FromAddress tx)
    \<and> pv_ContractAddress (par_Value (con_Parameter k)) = Address_String L (ContractAddress tx)
    \<and> (\<exists>rawBytes. hex_DecodeString (RawDataHex coreTx) = (rawBytes, None)
         \<and> proto_Marshal L (raw_transaction (serializer_for tx fee b h) callData now) = Inr rawBytes
         \<and> TxID coreTx = hex_EncodeToString (sha256 rawBytes))"
proof -
  obtain callData rawBytes where c: "buildCallData L (serializer_for tx fee b h) = Done (Inr callData)"
    "proto_Marshal L (raw_transaction (serializer_for tx fee b h) callData now) = Inr rawBytes"
    "coreTx = json_transaction L (raw_transaction (serializer_for tx fee b h) callData now) rawBytes"
    using BuildTransaction_Inr [OF assms] by blast
  have "Pack L (Method tx) (Params tx) = Done (Inr callData)"
    using c(1) by (simp add: buildCallData_def serializer_for_def)
  then show ?thesis
    using c(2) by (intro exI [of _ callData])
      (simp add: c(3) json_transaction_def raw_transaction_def serializer_for_def hex_roundtrip)
qed

subsection \<open>A way to evaluate\<close>

text \<open>Nodes that answer, a configured energy value, and a library that packs everything to three bytes.\<close>

definition report_lib :: lib where
  "report_lib = sample_lib\<lparr>abi_NewType := (\<lambda>s. if s = ''bytes32[3]'' then Inr (transmit_types ! 0)
      else if s = ''bytes'' then Inr (transmit_types ! 1) else if s = ''bytes32[]'' then Inr (transmit_types ! 2)
      else if s = ''bytes32'' then Inr (transmit_types ! 4) else Inl s),
    abi_PackValues := (\<lambda>ts vs. Inr [1, 2, 3])\<rparr>"

definition report_env :: "nat Env" where
  "report_env = on_nodes (fixed_env\<lparr>lib_of := report_lib\<rparr>) head_http head_http"

lemma report_lib_knows: "knows_types report_lib"
  by (simp add: knows_types_def report_lib_def)

lemma report_env_fields [simp]:
  "lib_of report_env = report_lib" "BroadcastChanSize (config report_env) = 1"
  "keystore_Sign report_env = (\<lambda>_ _ w. (w, Inr []))" "client report_env = NewCombinedClient report_lib head_http head_http"
  "time_Now report_env = (\<lambda>w. (w, int w))" "FixedEnergyValue (config report_env) = 100000"
  by (simp_all add: report_env_def fixed_env_def sample_env_def sample_config_def on_nodes_def)

lemma report_ref_block:
  "computeRefBlockBytesAndHash report_env w = Done (Suc w,
     Inr ([ucast (drop_bit 8 (70000 :: int64)), ucast (70000 :: int64)], [8, 9, 10, 11, 12, 13, 14, 15]))"
  by (simp add: computeRefBlockBytesAndHash_def NewCombinedClient_def sol_GetNowBlock_def after_rpc_def check_block_def
      head_http_def sample_block_def sample_raw_def hex_roundtrip) (simp add: head_id_def)

lemma report_fee: "\<exists>u f. calculateFeeLimit report_env tx t = Done (u, Inr f)"
  by (simp add: calculateFeeLimit_def estimateEnergy_def energy_unit_price_def NewCombinedClient_def head_http_def
      sample_http_def full_GetEnergyPrices_def after_rpc_def Let_def split: prod.split option.split)

lemma report_prepared:
  assumes "Method tx = sig" and "Params tx = transmit_params rctx report cols"
  shows "\<exists>u coreTx. prepare report_env tx t = Done (u, Prepared coreTx)"
proof -
  obtain v f where fee: "calculateFeeLimit report_env tx t = Done (v, Inr f)" using report_fee by blast
  have pack: "Pack report_lib (Method tx) (Params tx) = Done (Inr (Selector report_lib sig @ [1, 2, 3]))"
    by (simp add: assms Pack_transmit [OF report_lib_knows]) (simp add: report_lib_def)
  have "proto_Marshal report_lib m = Inr (raw_Data m)" for m by (simp add: report_lib_def sample_lib_def)
  then have "\<exists>c. BuildTransaction report_lib (serializer_for tx f b h) now = Done (Inr c)" if "length h = 8" for b h now
    using that pack
    by (simp add: BuildTransaction_def buildCallData_def serializer_for_def TriggerSmartContractType_def Let_def)
  then obtain c where "BuildTransaction report_lib (serializer_for tx f [ucast (drop_bit 8 (70000 :: int64)), ucast (70000 :: int64)]
      [8, 9, 10, 11, 12, 13, 14, 15]) (UnixMilli (int (Suc (world v)))) = Done (Inr c)" by fastforce
  then show ?thesis by (simp add: prepare_def fee report_ref_block Let_def)
qed

lemma report_transmitted:
  "\<exists>t1. Transmit sample_util report_env sample_transmitter sample_context [1, 2] [replicate 65 4] (New 0) = Done (t1, None)"
proof -
  let ?req = "transmit_request sample_transmitter (transmit_params (RawReportContext sample_util sample_context) [1, 2]
    (columns sample_util sample_transmitter [replicate 65 4]))"
  have "list_all (splits sample_util) [replicate 65 4]" by (simp add: splits_def sample_util_def)
  from split_signatures_columns [OF _ this] have cols: "split_signatures sample_util (excludeSigs sample_transmitter) 0
      [replicate 65 4] ([], [], replicate 32 0) = Done (columns sample_util sample_transmitter [replicate 65 4])" by simp
  have "refused report_env ?req (world (New 0)) = None" by (rule transmit_not_refused) simp
  moreover have "account_status (state_of (New (0 :: nat))) k = None" for k
    by (simp add: account_status_New_txm del: account_status.simps)
  moreover have "BroadcastChan (New (0 :: nat)) = []" by (simp add: New_def)
  ultimately obtain t1 where "Enqueue report_env ?req (New 0) = Done (t1, None)"
    using Enqueue_new [OF txm_inv_New, of report_env ?req 0] by (auto simp del: account_status.simps)
  then show ?thesis using cols by (simp add: Transmit_def Let_def)
qed

end
