(* ===== verification/Wiring.thy ===== *)
theory Wiring
  imports Relayer Txm_Stuck
begin

text \<open>
  How the parts that the relayer puts together (relayer/plugin/relayer.go, relayer/ocr2) work on each
  other: the transaction manager over the client that validates the chain ID
  (sdk/combined_client.go), and the contract cache over the reader with the digester beside it.
\<close>

subsection \<open>The manager on a node of another chain\<close>

text \<open>Every node answers the request for the genesis block with that of a chain that is not \<open>num\<close>.\<close>

definition foreign :: "'w CombinedClient \<Rightarrow> int \<Rightarrow> bool" where
  "foreign c num \<longleftrightarrow> (\<forall>w. \<exists>w' b n. GetBlockByNum c 0 w = Done (w', Some b, None)
     \<and> chain_id_of_block b = Done (Inr n) \<and> n \<noteq> num)"

definition unvalidated :: "validation \<Rightarrow> bool" where
  "unvalidated v \<longleftrightarrow> (v_done v \<longrightarrow> v_err v \<noteq> None)"

lemma foreign_validate:
  assumes "foreign c num" and "unvalidated (snd wv)"
  shows "\<exists>wv' e. validate c num wv = Done (wv', Some e) \<and> unvalidated (snd wv')"
proof (cases "v_done (snd wv)")
  case True
  then show ?thesis using assms(2) by (cases wv) (auto simp: validate_def unvalidated_def)
next
  case False
  obtain w' b n where "GetBlockByNum c 0 (fst wv) = Done (w', Some b, None)" "chain_id_of_block b = Done (Inr n)" "n \<noteq> num"
    using assms(1) unfolding foreign_def by blast
  then show ?thesis using False by (cases wv) (auto simp: validate_def unvalidated_def Let_def)
qed

lemma foreign_gate:
  assumes "foreign c num" and "unvalidated (snd wv)"
  shows "\<exists>wv' e. gate c num f wv = Done (wv', None, Some e) \<and> unvalidated (snd wv')"
proof -
  obtain wv' e where "validate c num wv = Done (wv', Some e)" "unvalidated (snd wv')"
    using foreign_validate [OF assms] by blast
  then show ?thesis by (cases wv') (simp add: gate_def)
qed

text \<open>A call of the validated client in that state, in the form the manager's definitions use it.\<close>

lemma foreign_callE:
  assumes "foreign c num" and "unvalidated (snd wv)"
  obtains wv' e where "gate c num f wv = Done (wv', None, Some e)" "unvalidated (snd wv')"
  using foreign_gate [OF assms] by blast

lemma foreign_estimate:
  assumes E: "client E = NewValidatedCombinedClient c num" and "foreign c num" and "unvalidated (snd (world t))"
  shows "\<exists>t' r. estimateEnergy E tx t = Done (t', r) \<and> unvalidated (snd (world t'))"
proof -
  have call: "\<exists>t' r. estimate_by_call E tx t = Done (t', r) \<and> unvalidated (snd (world t'))"
    if "unvalidated (snd (world t))" for t
    by (rule foreign_callE [OF assms(2) that, of "TriggerConstantContract c (FromAddress tx) (ContractAddress tx) (Method tx) (Params tx)"])
      (simp add: estimate_by_call_def E NewValidatedCombinedClient_def)
  obtain wv e where g: "gate c num (EstimateEnergy c (FromAddress tx) (ContractAddress tx) (Method tx) (Params tx) 0) (world t)
      = Done (wv, None, Some e)" "unvalidated (snd wv)"
    by (rule foreign_callE [OF assms(2,3)])
  show ?thesis using call [OF assms(3)] call [of "t\<lparr>world := wv\<rparr>"] call [of "t\<lparr>world := wv, EstimateEnergyEnabled := False\<rparr>"] g
    by (auto simp: estimateEnergy_def E NewValidatedCombinedClient_def Let_def assms(3))
qed

lemma foreign_fee:
  assumes E: "client E = NewValidatedCombinedClient c num" and "foreign c num" and "unvalidated (snd (world t))"
  shows "\<exists>t' r. calculateFeeLimit E tx t = Done (t', r) \<and> unvalidated (snd (world t'))"
proof -
  obtain u r where u: "estimateEnergy E tx t = Done (u, r)" "unvalidated (snd (world u))"
    using foreign_estimate [OF assms] by blast
  obtain wv e where g: "gate c num (GetEnergyPrices c) (world u) = Done (wv, None, Some e)" "unvalidated (snd wv)"
    by (rule foreign_callE [OF assms(2) u(2)])
  show ?thesis using u g
    by (cases r) (simp_all add: calculateFeeLimit_def energy_unit_price_def E NewValidatedCombinedClient_def Let_def)
qed

lemma foreign_prepare:
  assumes E: "client E = NewValidatedCombinedClient c num" and "foreign c num" and "unvalidated (snd (world t))"
  shows "\<exists>t'. prepare E tx t = Done (t', NotPrepared) \<and> unvalidated (snd (world t'))"
proof -
  obtain u r where u: "calculateFeeLimit E tx t = Done (u, r)" "unvalidated (snd (world u))"
    using foreign_fee [OF assms] by blast
  obtain wv e where g: "gate c num (GetNowBlockFullNode c) (world u) = Done (wv, None, Some e)" "unvalidated (snd wv)"
    by (rule foreign_callE [OF assms(2) u(2)])
  show ?thesis using u g
    by (cases r) (simp_all add: prepare_def computeRefBlockBytesAndHash_def E NewValidatedCombinedClient_def)
qed

lemma foreign_broadcast:
  assumes "reachable E t" and "received t = Some r" and "client E = NewValidatedCombinedClient c num" and "foreign c num"
    and "unvalidated (snd (world t))"
  shows "\<exists>t'. broadcast_one E r (t\<lparr>received := None\<rparr>) = Some (Done t') \<and> stuck E t' (key E (objects t r))
    \<and> state_of t' = state_of t \<and> unvalidated (snd (world t'))"
proof -
  let ?u = "t\<lparr>received := None\<rparr>"
  have "unvalidated (snd (world ?u))" using assms(5) by simp
  from foreign_prepare [OF assms(3,4) this] obtain t' where
    p: "prepare E (objects ?u r) ?u = Done (t', NotPrepared)" "unvalidated (snd (world t'))" by blast
  note e = only_env_inv [OF prepare_env [OF p(1)]]
  have "state_of t' = state_of t" using e(2) by (simp add: state_of_def)
  moreover have "stuck E t' (key E (objects t r))"
    by (rule dropped_stuck [OF reachable_inv [OF assms(1)] assms(2) \<open>state_of t' = state_of t\<close>])
      (use e in \<open>simp_all add: queue_def\<close>)
  ultimately show ?thesis using p by (auto simp: broadcast_one_def)
qed

subsection \<open>The configuration and its digest\<close>

text \<open>The contract packs the values of an event and hashes them as the digester does.\<close>

definition honest_event :: "lib \<Rightarrow> TRONOffchainConfigDigester \<Rightarrow> gomap \<Rightarrow> bool" where
  "honest_event L d ev \<longleftrightarrow> list_all in_range (event_values (dg_chainID d) (dg_contractAddress d) ev)
     \<and> (\<exists>packed. abi_PackValues L (List.map arg_Type (dg_configDigestArgs d)) (event_values (dg_chainID d) (dg_contractAddress d) ev)
           = Inr packed
         \<and> gomap_get ev ''configDigest'' = GFixedBytes (0 # 1 # drop 2 (LegacyKeccak256 L packed)))"

lemma parsed_digest:
  assumes "parse_ConfigSet L ev = Inr cc" and "gomap_get ev ''configDigest'' = GFixedBytes d"
  shows "cc_ConfigDigest cc = d"
  using assms by (auto simp: parse_ConfigSet_Inr split: if_splits)

lemma honest_verifies:
  assumes "tron_libs L" and "parse_ConfigSet L ev = Inr cc" and "honest_event L d ev"
  shows "dg_ConfigDigest L d cc = Done (Inr (cc_ConfigDigest cc))"
  using assms(3) digest_of_event [OF assms(1,2)] parsed_digest [OF assms(2)] by (auto simp: honest_event_def)

lemma latest_config_event:
  assumes "cr_LatestConfig (NewContractReader L a r) b w = Done (w', Inr cc)"
  shows "\<exists>ev. GetEventsFromBlock r a ''ConfigSet'' b w = Done (w', [ev], None) \<and> parse_ConfigSet L ev = Inr cc"
proof -
  obtain w1 resp where c: "ConfigFromEventAt L r a b w = Done (w1, resp)" "w1 = w'"
    "result_bind resp (\<lambda>c. Inr (cfg_Config c)) = Inr cc"
    using assms by (auto simp: NewContractReader_def outcome_bind_eq_Done)
  then obtain x where x: "resp = Inr x" "cfg_Config x = cc" by (auto simp: result_bind_eq_Inr)
  obtain w2 events err where g: "GetEventsFromBlock r a ''ConfigSet'' b w = Done (w2, events, err)"
    using c(1) by (auto simp: ConfigFromEventAt_def outcome_bind_eq_Done)
  show ?thesis
  proof (cases "err = None \<and> length events = 1")
    case True
    then obtain ev where "events = [ev]" by (cases events) auto
    then show ?thesis using c x g True by (auto simp: ConfigFromEventAt_def result_bind_eq_Inr)
  next
    case False
    then show ?thesis using c x g by (cases err) (auto simp: ConfigFromEventAt_def)
  qed
qed

definition verified :: "lib \<Rightarrow> TRONOffchainConfigDigester \<Rightarrow> contractCache \<Rightarrow> bool" where
  "verified L d c \<longleftrightarrow> c_contractConfig c = zero_config
     \<or> dg_ConfigDigest L d (cfg_Config (c_contractConfig c)) = Done (Inr (cc_ConfigDigest (cfg_Config (c_contractConfig c))))"

lemma update_verified:
  assumes "tron_libs L" and "\<And>b w1 w2 ev. GetEventsFromBlock r a ''ConfigSet'' b w1 = Done (w2, [ev], None) \<Longrightarrow> honest_event L d ev"
    and "updateConfig (NewContractReader L a r) now (w, c) = Done ((w', c'), err)" and "verified L d c"
  shows "verified L d c'"
  using assms(3)
proof (cases rule: updateConfigE)
  case (changed b dg h w1 w2 config)
  from latest_config_event [OF changed(4)] obtain ev where
    ev: "GetEventsFromBlock r a ''ConfigSet'' b w1 = Done (w2, [ev], None)" "parse_ConfigSet L ev = Inr config" by blast
  show ?thesis using honest_verifies [OF assms(1) ev(2) assms(2) [OF ev(1)]] changed(6) by (simp add: verified_def)
qed (use assms(4) in \<open>auto simp: verified_def\<close>)

lemma run_verified:
  assumes "tron_libs L" and "\<And>b w1 w2 ev. GetEventsFromBlock r a ''ConfigSet'' b w1 = Done (w2, [ev], None) \<Longrightarrow> honest_event L d ev"
    and "poll_run (contract_tick (NewContractReader L a r)) ts s = Done (s', oks)" and "verified L d (snd s)"
  shows "verified L d (snd s')"
  using assms(3,4)
proof (induction ts arbitrary: s oks)
  case (Cons t ts)
  then obtain s1 err oks' where u: "contract_tick (NewContractReader L a r) t s = Done (s1, err)"
    and run: "poll_run (contract_tick (NewContractReader L a r)) ts s1 = Done (s', oks')"
    by (auto simp: outcome_bind_eq_Done)
  have "verified L d (snd s1)"
    using update_verified [OF assms(1,2), where now = t and w = "fst s" and c = "snd s" and w' = "fst s1" and c' = "snd s1" and err = err] u Cons.prems(2)
    by (simp add: contract_tick_def)
  then show ?case using Cons.IH [OF run] by blast
qed simp

lemma NewRelayer_Inr:
  assumes "NewRelayer perm net cod L cfg = Done (Inr rl)"
  shows "\<exists>n \<in> set (toml_Nodes cfg). \<exists>url surl. node_URL n = Some url \<and> node_SolidityURL n = Some surl
    \<and> rl_client rl = NewValidatedCombinedClient (CreateCombinedClient net cod L url surl) (rl_chainIdNum rl)"
proof -
  obtain i where i: "toml_ChainID cfg = Some i" using assms by (cases "toml_ChainID cfg") (simp_all add: NewRelayer_def deref_def)
  then obtain num where num: "parse_chain_id i = Some num"
    using assms by (cases "parse_chain_id i") (simp_all add: NewRelayer_def deref_def)
  then obtain r where r: "SelectRandom perm (toml_Nodes cfg) = Done r"
    using assms i by (auto simp: NewRelayer_def deref_def ListNodes_def outcome_bind_eq_Done)
  then obtain n where n: "r = Inr n" using assms i num by (cases r) (simp_all add: NewRelayer_def deref_def ListNodes_def)
  have mem: "n \<in> set (toml_Nodes cfg)" using r n by (auto simp: SelectRandom_def Let_def split: if_splits)
  obtain url where u: "node_URL n = Some url"
    using assms i num r n by (cases "node_URL n") (simp_all add: NewRelayer_def deref_def ListNodes_def)
  obtain surl where su: "node_SolidityURL n = Some surl"
    using assms i num r n u by (cases "node_SolidityURL n") (simp_all add: NewRelayer_def deref_def ListNodes_def)
  have "rl_client rl = NewValidatedCombinedClient (CreateCombinedClient net cod L url surl) (rl_chainIdNum rl)"
    using assms i num r n u su
    by (auto simp: NewRelayer_def deref_def ListNodes_def Let_def outcome_bind_eq_Done)
  then show ?thesis using mem u su by blast
qed

subsection \<open>A node of another chain, and a contract, to evaluate on\<close>

text \<open>Every request is answered, and every answer decodes to the genesis block of chain 6 or not at all.\<close>

definition foreign_net :: "duration \<Rightarrow> nat Net" where
  "foreign_net d = \<lparr>net_NewRequest = \<lambda>m u b. None, net_Do = \<lambda>m u b w. (Suc w, Inr (200, Inr [])), json_Object = \<lambda>b. Inr Map.empty\<rparr>"

definition foreign_codec :: Codec where
  "foreign_codec = \<lparr>enc_GetBlockByNum = \<lambda>_. Inr [], enc_GetAccount = \<lambda>_. Inr [], enc_GetTransactionInfo = \<lambda>_. Inr [],
     enc_TriggerConstant = \<lambda>_. Inr [], enc_Estimate = \<lambda>_. Inr [], enc_GetContract = \<lambda>_. Inr [], enc_TriggerSmart = \<lambda>_. Inr [],
     enc_CreateTransaction = \<lambda>_. Inr [], enc_Transaction = \<lambda>_. Inr [], enc_Deploy = \<lambda>_. Inr [],
     dec_Block = \<lambda>_. Inr (sample_block ''0000000000000006'' 0 0), dec_Account = Inl, dec_TransactionInfo = Inl,
     dec_TriggerConstant = Inl, dec_Estimate = Inl, dec_Contract = Inl, dec_TriggerSmart = Inl, dec_Transaction = Inl,
     dec_Broadcast = Inl, dec_EnergyPrices = Inl, dec_Deploy = Inl\<rparr>"

lemma foreign_node: "foreign (CreateCombinedClient foreign_net foreign_codec L url surl) 5"
proof -
  have "big_SetString ''00000006'' 16 = Some 6" by code_simp
  then have "chain_id_of_block (sample_block ''0000000000000006'' 0 0) = Done (Inr 6)"
    by (simp add: chain_id_of_block_def sample_block_def Let_def)
  moreover have "GetBlockByNum (CreateCombinedClient foreign_net foreign_codec L url surl) 0 w
      = Done (Suc w, Some (sample_block ''0000000000000006'' 0 0), None)" for w
    by (simp add: CreateCombinedClient_def CreateCombinedClientWithTimeout_def NewCombinedClient_def sol_GetBlockByNum_def
        node_http_def foreign_net_def foreign_codec_def http_Post_def http_request_def do_request_def read_response_def
        StatusOK_def after_rpc_def check_block_def sample_block_def Let_def)
  ultimately show ?thesis by (auto simp: foreign_def)
qed

definition foreign_env :: "nat TronRelayer \<Rightarrow> (nat \<times> validation) Env" where
  "foreign_env rl = \<lparr>client = rl_client rl, lib_of = sample_lib, oob = (\<lambda>_. 0), time_Now = (\<lambda>w. (w, int (fst w))),
     time_Sleep = (\<lambda>d w. w), uuid_New = (\<lambda>w. (w, ''u'')), keystore_Sign = (\<lambda>_ _ w. (w, Inr [])), config = sample_config\<rparr>"

lemma foreign_received:
  "\<exists>t. reachable (foreign_env rl) t \<and> received t = Some 0 \<and> unvalidated (snd (world t))"
proof -
  let ?E = "foreign_env rl" and ?w = "(0 :: nat, not_validated)" and ?req = "sample_request ''x''"
  have ok: "refused ?E ?req (world (New ?w)) = None" by (simp add: refused_def foreign_env_def sample_request_def)
  have new: "account_status (state_of (New ?w)) (owner_of ?E (req_FromAddress ?req), request_id ?E ?req (world (New ?w))) = None"
    by (simp add: account_status_New_txm del: account_status.simps)
  obtain t err where e: "Enqueue ?E ?req (New ?w) = Done (t, err)"
    "err = (if length (BroadcastChan (New ?w)) < BroadcastChanSize (config ?E) then None else Some ChannelFull)"
    "BroadcastChan t = BroadcastChan (New ?w) @ (if err = None then [next_object (New ?w)] else [])"
    using Enqueue_new [OF txm_inv_New ok new] by blast
  have "err = None" using e(2) by (simp add: New_def foreign_env_def sample_config_def)
  then have t: "Enqueue ?E ?req (New ?w) = Done (t, None)" "BroadcastChan t = [0]" using e(1,3) by (simp_all add: New_def)
  have step: "txm_step ?E (New ?w) t"
    using t(1) by (intro Enqueues [of _ ?req]) (simp_all add: uuid_fresh_def sample_request_def)
  have r: "received t = None" "world t = ?w"
    using t(1) by (auto simp: Enqueue_def foreign_env_def sample_request_def submit_def New_def Let_def with_store_outcome_def
        on_store_outcome_def put_store_def try_send_def NewAccountStore_def outcome_bind_eq_Done split: prod.splits if_splits)
  have "txm_step ?E t (t\<lparr>BroadcastChan := [], received := Some 0\<rparr>)" by (rule Receives) (use r t in simp_all)
  then have "reachable ?E (t\<lparr>BroadcastChan := [], received := Some 0\<rparr>)"
    by (rule reachable.step [OF reachable.step [OF reachable.start step]])
  then show ?thesis using r(2)
    by (intro exI [of _ "t\<lparr>BroadcastChan := [], received := Some 0\<rparr>"]) (simp add: unvalidated_def not_validated_def)
qed

text \<open>A contract whose event carries the digest that the constant hash of the library gives.\<close>

definition honest_values :: gomap where
  "honest_values = config_event(''configDigest'' \<mapsto> GFixedBytes (0 # 1 # replicate 30 7), ''blockNumber'' \<mapsto> GUint 32 7)"

lemma tron_reader_lib: "tron_libs (reader_lib V)"
proof -
  have "length (bytes_string b) = length b" for b by (simp add: bytes_string_def)
  then show ?thesis by (simp add: tron_libs_def reader_lib_def sample_lib_def Has0xPrefix_def)
qed

lemma honest_values_event: "honest_event (reader_lib honest_values) d honest_values"
  by (simp add: honest_event_def event_values_def honest_values_def config_event_def gomap_get_def) (simp add: sample_lib_def)

lemma reader_events_are:
  assumes "GetEventsFromBlock (NewReader (reader_lib V) (reader_client V a)) b nm k s = Done (s', [ev], None)"
  shows "ev = V"
proof -
  have run: "\<forall>e \<in> set (evs :: gomap list). e = V" if "\<forall>e \<in> set acc. e = V" "decode_events (reader_lib V) parser logs acc = (evs, err)"
    for parser logs acc evs err
    using that
  proof (induction logs arbitrary: acc)
    case (Cons l logs)
    obtain bs e where h: "hex_DecodeString (log_Data l) = (bs, e)" by fastforce
    have "\<forall>e \<in> set (acc @ [V]). e = V" using Cons.prems(1) by simp
    from Cons.IH [OF this] show ?case using Cons.prems(2) h by (cases e) simp_all
  qed simp
  have dec: "\<forall>e \<in> set evs. e = V" if "parse_logs (reader_lib V) abi nm logs = (evs, err)" for abi logs evs err
    using that run [of "[]"] by (cases "GetInputParser (reader_lib V) abi nm") (simp_all add: parse_logs_def)
  obtain w c w' c' where s: "s = (w, c)" "s' = (w', c')" by (cases s; cases s')
  have "rc_GetEventsFromBlock (reader_lib V) (reader_client V a) b nm k (w, c) = Done ((w', c'), [ev], None)"
    using assms by (simp add: NewReader_def s)
  then show ?thesis
  proof (cases rule: GetEventsE)
    case (logs w1 A sig logs)
    then show ?thesis using dec [of A logs "[ev]" None] by simp
  qed simp_all
qed

end
