(* ===== verification/Plugin.thy ===== *)
theory Plugin
  imports Relayer
begin

text \<open>
  relayer/cmd/chainlink-tron/main.go: the plugin, which makes a relayer from the text of a
  configuration: decode, validate, fill in the defaults, report the node URLs, construct.

  Parameters: the strict TOML decoder and the configuration emitter of chainlink-common. The process
  set-up and the gRPC server are not modelled.
\<close>

record 'w PluginEnv =
  toml_Decode :: "string \<Rightarrow> string + TOMLConfig"
  emitter_Start :: "string \<Rightarrow> (string \<rightharpoonup> string) list \<Rightarrow> 'w \<Rightarrow> 'w \<times> string option"

datatype plugin_error =
    DecodeFailed string | InvalidConfig "config_error list" | ChainDisabled string | EmitterFailed string
  | RelayerFailed relayer_error

datatype sub_service = ConfigEmitter | RelayerService

text \<open>
  The loop over the nodes. A decoded node is never a nil pointer, so that guard of the loop is not
  represented.
\<close>

definition node_urls :: "NodeConfig \<Rightarrow> string \<rightharpoonup> string" where
  "node_urls n =
     (let nodeURLs = Map.empty;
          nodeURLs = (case node_URL n of None \<Rightarrow> nodeURLs | Some u \<Rightarrow> nodeURLs(''URL'' \<mapsto> u))
      in case node_SolidityURL n of None \<Rightarrow> nodeURLs | Some u \<Rightarrow> nodeURLs(''SolidityURL'' \<mapsto> u))"

fun raw_nodes :: "NodeConfig list \<Rightarrow> (string \<rightharpoonup> string) list \<Rightarrow> (string \<rightharpoonup> string) list" where
  "raw_nodes [] rawNodes = rawNodes"
| "raw_nodes (n # ns) rawNodes =
     raw_nodes ns (if node_URL n = None \<and> node_SolidityURL n = None then rawNodes else rawNodes @ [node_urls n])"

definition plugin_NewRelayer ::
  "'w PluginEnv \<Rightarrow> (nat \<Rightarrow> nat list) \<Rightarrow> (duration \<Rightarrow> 'v Net) \<Rightarrow> Codec \<Rightarrow> lib \<Rightarrow> string \<Rightarrow> 'w \<times> sub_service list \<Rightarrow>
     (('w \<times> sub_service list) \<times> (plugin_error + 'v TronRelayer)) outcome" where
  "plugin_NewRelayer P perm net cod L configTOML = (\<lambda>(w, subs).
     case toml_Decode P configTOML of
       Inl err \<Rightarrow> Done ((w, subs), Inl (DecodeFailed err))
     | Inr cfg \<Rightarrow>
         if toml_ValidateConfig cfg \<noteq> [] then Done ((w, subs), Inl (InvalidConfig (toml_ValidateConfig cfg)))
         else if \<not> IsEnabled cfg
         then outcome_bind (deref (toml_ChainID cfg)) (\<lambda>i. Done ((w, subs), Inl (ChainDisabled i)))
         else
           let cfg = SetDefaults cfg;
               rawNodes = raw_nodes (toml_Nodes cfg) [];
               chainID = (case toml_ChainID cfg of None \<Rightarrow> [] | Some i \<Rightarrow> i)
           in (case emitter_Start P chainID rawNodes w of
                 (w, Some err) \<Rightarrow> Done ((w, subs), Inl (EmitterFailed err))
               | (w, None) \<Rightarrow>
                   let subs = subs @ [ConfigEmitter]
                   in outcome_bind (NewRelayer perm net cod L cfg) (\<lambda>r.
                        Done (case r of
                                Inl err \<Rightarrow> ((w, subs), Inl (RelayerFailed err))
                              | Inr relayer \<Rightarrow> ((w, subs @ [RelayerService]), Inr relayer)))))"

subsection \<open>What becomes of a configuration\<close>

lemma raw_nodes_complete:
  "\<forall>n \<in> set ns. complete n \<Longrightarrow> raw_nodes ns acc = acc @ List.map node_urls ns"
  by (induction ns arbitrary: acc) (auto simp: complete_def)

text \<open>What the configuration of a valid, enabled chain leads to, by the answers of the emitter and the chain ID.\<close>

lemma plugin_valid:
  assumes "toml_Decode P txt = Inr cfg" and "toml_ValidateConfig cfg = []" and "IsEnabled cfg" and "perm_ok perm"
    and "d = SetDefaults cfg" and "toml_ChainID cfg = Some i"
    and "emitter_Start P i (List.map node_urls (toml_Nodes d)) w = (w', err)"
  shows "plugin_NewRelayer P perm net cod L txt (w, subs) =
    (case err of
       Some e \<Rightarrow> Done ((w', subs), Inl (EmitterFailed e))
     | None \<Rightarrow> outcome_bind (NewRelayer perm net cod L d) (\<lambda>r.
         Done (case r of Inl e \<Rightarrow> ((w', subs @ [ConfigEmitter]), Inl (RelayerFailed e))
                       | Inr t \<Rightarrow> ((w', subs @ [ConfigEmitter, RelayerService]), Inr t))))"
proof -
  have "\<forall>n \<in> set (toml_Nodes d). complete n"
    using toml_valid_nodes(2) [OF assms(2)] nodes_SetFrom_complete [of "[]" "toml_Nodes cfg"]
    by (simp add: assms(5) SetDefaults_fields)
  then have raw: "raw_nodes (toml_Nodes d) [] = List.map node_urls (toml_Nodes d)" by (simp add: raw_nodes_complete)
  have cid: "toml_ChainID d = Some i" by (simp add: assms(5,6) SetDefaults_fields)
  show ?thesis
    using assms(1-3,7) raw cid
    by (cases err; cases "NewRelayer perm net cod L d") (auto simp: plugin_NewRelayer_def assms(5) [symmetric] Let_def split: sum.split)
qed

lemma plugin_refuses:
  assumes "\<And>cfg. toml_Decode P txt = Inr cfg \<Longrightarrow> toml_ValidateConfig cfg \<noteq> [] \<or> \<not> IsEnabled cfg"
  shows "\<exists>e. plugin_NewRelayer P perm net cod L txt (w, subs) = Done ((w, subs), Inl e)"
proof (cases "toml_Decode P txt")
  case (Inr cfg)
  show ?thesis
  proof (cases "toml_ValidateConfig cfg = []")
    case True
    then obtain i where "toml_ChainID cfg = Some i" using toml_valid_nodes(3) by blast
    then show ?thesis using assms [OF Inr] Inr True by (simp add: plugin_NewRelayer_def deref_def)
  qed (use Inr in \<open>simp add: plugin_NewRelayer_def\<close>)
qed (simp add: plugin_NewRelayer_def)

lemma valid_urls:
  assumes "toml_ValidateConfig cfg = []"
  shows "List.map node_urls (toml_Nodes (SetDefaults cfg)) =
    List.map (\<lambda>n. [''URL'' \<mapsto> the (node_URL n), ''SolidityURL'' \<mapsto> the (node_SolidityURL n)]) (toml_Nodes (SetDefaults cfg))"
proof -
  have "\<forall>n \<in> set (toml_Nodes (SetDefaults cfg)). complete n"
    using toml_valid_nodes(2) [OF assms] nodes_SetFrom_complete [of "[]" "toml_Nodes cfg"]
    by (simp add: SetDefaults_fields)
  then show ?thesis by (intro map_cong refl) (auto simp: node_urls_def complete_def)
qed

lemma NewRelayer_valid:
  assumes "toml_ValidateConfig cfg = []" and "perm_ok perm" and "toml_ChainID cfg = Some i" and "parse_chain_id i = Some num"
  obtains n t where "n \<in> set (toml_Nodes (SetDefaults cfg))" "NewRelayer perm net cod L (SetDefaults cfg) = Done (Inr t)"
    "rl_cfg t = SetDefaults cfg" "rl_client t = NewValidatedCombinedClient
       (CreateCombinedClient net cod L (the (node_URL n)) (the (node_SolidityURL n))) num"
proof -
  obtain n url surl t where "n \<in> set (toml_Nodes (SetDefaults cfg))" "node_URL n = Some url" "node_SolidityURL n = Some surl"
    "NewRelayer perm net cod L (SetDefaults cfg) = Done (Inr t)" "rl_cfg t = SetDefaults cfg"
    "rl_client t = NewValidatedCombinedClient (CreateCombinedClient net cod L url surl) num"
    using relayer_starts [OF assms(1,2) refl, of net cod L] assms(3,4) by fastforce
  then show thesis using that [of n t] by simp
qed


definition sample_plugin :: "nat PluginEnv" where
  "sample_plugin = \<lparr>toml_Decode = \<lambda>s. if s = ''config'' then Inr sample_toml_config else Inl s,
     emitter_Start = \<lambda>i urls w. (w + length urls, None)\<rparr>"


end
