(* ===== verification/Services.thy ===== *)
theory Services
  imports Relayer
begin

text \<open>
  The life of the services: starting and closing the transaction manager (relayer/txm/txm.go), the balance
  monitor (relayer/monitor/balance.go), the OCR2 caches and providers (relayer/ocr2) and the relayer
  (relayer/plugin/relayer.go), with the goroutines they launch, the stop channels they close and the
  goroutines they wait for.

  What a goroutine does between two waits is modelled by the theories of its component; here it only works
  or waits. Parameters: the state machine with \<open>StartOnce\<close> and \<open>StopOnce\<close>, and \<open>MultiStart\<close> and
  \<open>CloseAll\<close>, of chainlink-common.
\<close>

subsection \<open>Calls that may block\<close>

text \<open>A call returns, waits for ever, or takes the process down with a panic.\<close>

datatype 'a wait = Returns 'a | Blocks | Crashes

fun wait_bind :: "'a wait \<Rightarrow> ('a \<Rightarrow> 'b wait) \<Rightarrow> 'b wait" where
  "wait_bind (Returns x) f = f x"
| "wait_bind Blocks f = Blocks"
| "wait_bind Crashes f = Crashes"

lemma wait_bind_eq_Returns: "wait_bind m f = Returns y \<longleftrightarrow> (\<exists>x. m = Returns x \<and> f x = Returns y)"
  by (cases m) auto

subsection \<open>Goroutines that loop over a select\<close>

text \<open>
  Every goroutine of the relayer has the same shape: a loop over a select of the stop channel and a
  timer (for the broadcast loop, the channel of transactions). It waits, whether the timer has fired
  or not, or works, or has returned. When both cases are ready the select takes any of the two.
\<close>

datatype routine = Selecting bool | Working | Ended

inductive loop_step :: "bool \<Rightarrow> routine \<Rightarrow> routine \<Rightarrow> bool" for stop :: bool where
  fires: "loop_step stop (Selecting False) (Selecting True)"
| takes: "loop_step stop (Selecting True) Working"
| finishes: "loop_step stop Working (Selecting False)"
| stops: "stop \<Longrightarrow> loop_step stop (Selecting b) Ended"

inductive_cases loop_stepE: "loop_step stop r r'"
inductive_simps loop_step_Ended: "loop_step stop Ended r"

text \<open>The goroutines that share a stop channel, and whether it has been closed.\<close>

record group =
  g_stop :: bool
  g_routines :: "routine list"

definition no_group :: group where
  "no_group = \<lparr>g_stop = False, g_routines = []\<rparr>"

inductive group_step :: "group \<Rightarrow> group \<Rightarrow> bool" where
  routine: "i < length (g_routines g) \<Longrightarrow> loop_step (g_stop g) (g_routines g ! i) r \<Longrightarrow>
    group_step g (g\<lparr>g_routines := (g_routines g)[i := r]\<rparr>)"

inductive_cases group_stepE: "group_step g g'"

definition ended :: "group \<Rightarrow> bool" where
  "ended g \<longleftrightarrow> list_all (\<lambda>r. r = Ended) (g_routines g)"

definition all_ended :: "group \<Rightarrow> group" where
  "all_ended g = g\<lparr>g_routines := replicate (length (g_routines g)) Ended\<rparr>"

definition launch :: "nat \<Rightarrow> group \<Rightarrow> group" where
  "launch n g = g\<lparr>g_routines := g_routines g @ replicate n (Selecting False)\<rparr>"

text \<open>Closing a closed channel panics.\<close>

definition close_stop :: "group \<Rightarrow> group wait" where
  "close_stop g = (if g_stop g then Crashes else Returns (g\<lparr>g_stop := True\<rparr>))"

text \<open>
  Waiting for the end of the goroutines: on the WaitGroup, whose counter is the number of goroutines that
  have not returned, and on a \<open>done\<close> channel, which the goroutine closes when it returns; with two goroutines
  the second one to return closes it again. The lemmas \<open>drains\<close> and \<open>never_ends\<close> below justify both.
\<close>

definition wg_Wait :: "group \<Rightarrow> group wait" where
  "wg_Wait g = (if ended g then Returns g else if g_stop g then Returns (all_ended g) else Blocks)"

definition recv_done :: "group \<Rightarrow> group wait" where
  "recv_done g =
     (if g_routines g = [] \<or> \<not> g_stop g \<and> \<not> ended g then Blocks
      else if 1 < length (g_routines g) then Crashes
      else Returns (all_ended g))"

lemma loop_ends: "(loop_step True)\<^sup>*\<^sup>* r Ended"
proof -
  have s: "(loop_step True)\<^sup>*\<^sup>* (Selecting b) Ended" for b by (intro r_into_rtranclp loop_step.stops) simp
  show ?thesis
  proof (cases r)
    case Working
    then show ?thesis using s [of False] loop_step.finishes [of True] by (simp add: converse_rtranclp_into_rtranclp)
  qed (use s in auto)
qed

lemma group_steps_routine:
  "(loop_step (g_stop g))\<^sup>*\<^sup>* (g_routines g ! i) r \<Longrightarrow> i < length (g_routines g) \<Longrightarrow>
     group_step\<^sup>*\<^sup>* g (g\<lparr>g_routines := (g_routines g)[i := r]\<rparr>)"
proof (induction rule: rtranclp_induct)
  case base
  then show ?case by simp
next
  case (step r r')
  have "group_step (g\<lparr>g_routines := (g_routines g)[i := r]\<rparr>) (g\<lparr>g_routines := (g_routines g)[i := r']\<rparr>)"
    using group_step.routine [of i "g\<lparr>g_routines := (g_routines g)[i := r]\<rparr>" r'] step.hyps(2) step.prems by simp
  then show ?case using step.IH [OF step.prems] by (rule rtranclp.rtrancl_into_rtrancl [rotated])
qed

text \<open>Once the stop channel is closed the goroutines can always run to their end, wherever they are.\<close>

lemma drains:
  assumes "g_stop g"
  shows "group_step\<^sup>*\<^sup>* g (all_ended g)"
proof -
  have "group_step\<^sup>*\<^sup>* g (g\<lparr>g_routines := replicate n Ended @ drop n (g_routines g)\<rparr>)" if "n \<le> length (g_routines g)" for n
    using that
  proof (induction n)
    case 0
    then show ?case by simp
  next
    case (Suc n)
    let ?g = "g\<lparr>g_routines := replicate n Ended @ drop n (g_routines g)\<rparr>"
    have "(loop_step (g_stop ?g))\<^sup>*\<^sup>* (g_routines ?g ! n) Ended" using assms loop_ends by simp
    from group_steps_routine [OF this] have
      "group_step\<^sup>*\<^sup>* ?g (g\<lparr>g_routines := (replicate n Ended @ drop n (g_routines g))[n := Ended]\<rparr>)"
      using Suc.prems by simp
    moreover have "(replicate n Ended @ drop n (g_routines g))[n := Ended] = replicate (Suc n) Ended @ drop (Suc n) (g_routines g)"
      using Suc.prems by (simp add: list_update_append Cons_nth_drop_Suc [symmetric] replicate_append_same)
    ultimately show ?case using Suc by (auto intro: rtranclp_trans)
  qed
  from this [of "length (g_routines g)"] show ?thesis by (simp add: all_ended_def)
qed

text \<open>While it is open no goroutine ends, and steps neither launch goroutines nor close the channel.\<close>

lemma group_steps_frame:
  "group_step\<^sup>*\<^sup>* g g' \<Longrightarrow> g_stop g' = g_stop g \<and> length (g_routines g') = length (g_routines g)"
  by (induction rule: rtranclp_induct) (auto elim!: group_stepE)

lemma never_ends:
  assumes "group_step\<^sup>*\<^sup>* g g'" and "\<not> g_stop g" and "i < length (g_routines g)" and "g_routines g ! i \<noteq> Ended"
  shows "g_routines g' ! i \<noteq> Ended"
  using assms(1)
proof (induction rule: rtranclp_induct)
  case base
  show ?case by (rule assms(4))
next
  case (step g1 g2)
  have "\<not> g_stop g1" "length (g_routines g1) = length (g_routines g)"
    using group_steps_frame [OF step.hyps(1)] assms(2) by simp_all
  then show ?case using step.hyps(2) step.IH assms(3)
    by (auto elim!: group_stepE loop_stepE simp: nth_list_update split: if_splits)
qed

subsection \<open>The parameters: state machines, starting and closing several services\<close>

text \<open>
  The state machine of chainlink-common is opaque, a value of \<open>'m\<close>; \<open>StartOnce\<close> and \<open>StopOnce\<close> run a closure
  on the state \<open>'s\<close> of the services.
\<close>

type_synonym 's job = "'s \<Rightarrow> ('s \<times> string option) wait"

record ('m, 's) StateMachine =
  StartOnce :: "string \<Rightarrow> 's job \<Rightarrow> ('m \<times> 's) job"
  StopOnce :: "string \<Rightarrow> 's job \<Rightarrow> ('m \<times> 's) job"
  sm_Ready :: "'m \<Rightarrow> string option"
  sm_Healthy :: "'m \<Rightarrow> string option"

record 's Multi =
  ms_Start :: "('s job \<times> 's job) list \<Rightarrow> 's job"          \<comment> \<open>the \<open>Start\<close> and \<open>Close\<close> of each service\<close>
  CloseAll :: "'s job list \<Rightarrow> 's job"
  CopyHealth :: "(string \<rightharpoonup> string option) \<Rightarrow> (string \<rightharpoonup> string option) \<Rightarrow> string \<rightharpoonup> string option"

text \<open>
  Documented of it: \<open>StartOnce\<close> runs its closure only for a machine that has never been started, \<open>StopOnce\<close>
  only for one that is started; an error of the closure is returned; any other call returns an
  error and does nothing.
\<close>

datatype phase = Unstarted | Started | Over

definition runs :: "('m \<Rightarrow> phase) \<Rightarrow> 's job \<Rightarrow> 's \<Rightarrow> phase \<Rightarrow> (('m \<times> 's) \<times> string option) wait \<Rightarrow> bool" where
  "runs phase_of f s p res =
     (case f s of
        Returns (s', err) \<Rightarrow> (\<exists>m'. res = Returns ((m', s'), err) \<and> phase_of m' = (if err = None then p else Over))
      | Blocks \<Rightarrow> res = Blocks
      | Crashes \<Rightarrow> res = Crashes)"

definition once_laws :: "('m, 's) StateMachine \<Rightarrow> ('m \<Rightarrow> phase) \<Rightarrow> bool" where
  "once_laws M phase_of \<longleftrightarrow> (\<forall>name f m s.
     (if phase_of m = Unstarted then runs phase_of f s Started (StartOnce M name f (m, s))
      else \<exists>e. StartOnce M name f (m, s) = Returns ((m, s), Some e))
   \<and> (if phase_of m = Started then runs phase_of f s Over (StopOnce M name f (m, s))
      else \<exists>e. StopOnce M name f (m, s) = Returns ((m, s), Some e)))"

text \<open>
  \<open>MultiStart\<close> starts services in order. \<open>CloseAll\<close> closes them at the same time and joins their errors: when both
  can be closed in either order, the result is that of one of the orders.
\<close>

definition multi_laws :: "'s Multi \<Rightarrow> bool" where
  "multi_laws M \<longleftrightarrow>
     (\<forall>f f' g g' s s1 s2. f s = Returns (s1, None) \<longrightarrow> g s1 = Returns (s2, None) \<longrightarrow>
        ms_Start M [(f, f'), (g, g')] s = Returns (s2, None))
   \<and> (\<forall>f f' g g' s. f s = Crashes \<longrightarrow> ms_Start M [(f, f'), (g, g')] s = Crashes)
   \<and> (\<forall>f g s s1 s2 t1 t2. f s = Returns (s1, None) \<longrightarrow> g s1 = Returns (s2, None) \<longrightarrow>
        g s = Returns (t1, None) \<longrightarrow> f t1 = Returns (t2, None) \<longrightarrow> CloseAll M [f, g] s \<in> {Returns (s2, None), Returns (t2, None)})"

lemma CloseAll_law:
  "multi_laws M \<Longrightarrow> f s = Returns (s1, None) \<Longrightarrow> g s1 = Returns (s2, None) \<Longrightarrow>
     g s = Returns (t1, None) \<Longrightarrow> f t1 = Returns (t2, None) \<Longrightarrow> CloseAll M [f, g] s \<in> {Returns (s2, None), Returns (t2, None)}"
  by (simp only: multi_laws_def)

subsection \<open>The relayer and its services\<close>

record 'm services =
  txm_Starter :: 'm
  txm_loops :: group
  bm_StateMachine :: 'm
  bm_loop :: group
  rel_StateMachine :: 'm

text \<open>
  txm.go: \<open>Start\<close> launches the three loops. \<open>reapLoop\<close> makes a ticker of the reap interval first, and
  \<open>time.NewTicker\<close> panics on an interval that is not positive.
\<close>

definition txm_Start :: "('m, 'm services) StateMachine \<Rightarrow> TronTxmConfig \<Rightarrow> 'm services job" where
  "txm_Start M cfg s =
     wait_bind (StartOnce M ''TronTxm''
         (\<lambda>s. if ReapInterval cfg \<le> 0 then Crashes
              else Returns (s\<lparr>txm_loops := launch 3 (txm_loops s)\<rparr>, None)) (txm_Starter s, s))
       (\<lambda>((m, s), err). Returns (s\<lparr>txm_Starter := m\<rparr>, err))"

definition txm_Close :: "('m, 'm services) StateMachine \<Rightarrow> 'm services job" where
  "txm_Close M s =
     wait_bind (StopOnce M ''TronTxm''
         (\<lambda>s. wait_bind (wait_bind (close_stop (txm_loops s)) wg_Wait) (\<lambda>g. Returns (s\<lparr>txm_loops := g\<rparr>, None)))
         (txm_Starter s, s))
       (\<lambda>((m, s), err). Returns (s\<lparr>txm_Starter := m\<rparr>, err))"

text \<open>balance.go.\<close>

definition bm_Start :: "('m, 'm services) StateMachine \<Rightarrow> 'm services job" where
  "bm_Start M s =
     wait_bind (StartOnce M ''TronBalanceMonitor'' (\<lambda>s. Returns (s\<lparr>bm_loop := launch 1 (bm_loop s)\<rparr>, None))
         (bm_StateMachine s, s))
       (\<lambda>((m, s), err). Returns (s\<lparr>bm_StateMachine := m\<rparr>, err))"

definition bm_Close :: "('m, 'm services) StateMachine \<Rightarrow> 'm services job" where
  "bm_Close M s =
     wait_bind (StopOnce M ''TronBalanceMonitor''
         (\<lambda>s. wait_bind (wait_bind (close_stop (bm_loop s)) recv_done) (\<lambda>g. Returns (s\<lparr>bm_loop := g\<rparr>, None)))
         (bm_StateMachine s, s))
       (\<lambda>((m, s), err). Returns (s\<lparr>bm_StateMachine := m\<rparr>, err))"

text \<open>relayer.go.\<close>

definition relayer_Start :: "('m, 'm services) StateMachine \<Rightarrow> 'm services Multi \<Rightarrow> TronTxmConfig \<Rightarrow> 'm services job" where
  "relayer_Start M MS cfg s =
     wait_bind (StartOnce M ''TronRelayer''
         (ms_Start MS [(txm_Start M cfg, txm_Close M), (bm_Start M, bm_Close M)]) (rel_StateMachine s, s))
       (\<lambda>((m, s), err). Returns (s\<lparr>rel_StateMachine := m\<rparr>, err))"

definition relayer_Close :: "('m, 'm services) StateMachine \<Rightarrow> 'm services Multi \<Rightarrow> 'm services job" where
  "relayer_Close M MS s =
     wait_bind (StopOnce M ''TronRelayer'' (CloseAll MS [txm_Close M, bm_Close M]) (rel_StateMachine s, s))
       (\<lambda>((m, s), err). Returns (s\<lparr>rel_StateMachine := m\<rparr>, err))"

text \<open>\<open>errors.Join\<close> of the errors that are not nil, and the health of the services by name.\<close>

definition txm_Ready :: "('m, 's) StateMachine \<Rightarrow> 'm services \<Rightarrow> string option" where
  "txm_Ready M s = sm_Ready M (txm_Starter s)"

definition relayer_Ready :: "('m, 's) StateMachine \<Rightarrow> 'm services \<Rightarrow> string list" where
  "relayer_Ready M s = List.map_filter (\<lambda>e. e) [sm_Ready M (rel_StateMachine s), txm_Ready M s]"

definition txm_HealthReport :: "('m, 's) StateMachine \<Rightarrow> string \<Rightarrow> 'm services \<Rightarrow> string \<rightharpoonup> string option" where
  "txm_HealthReport M name s = [name \<mapsto> sm_Healthy M (txm_Starter s)]"

definition bm_HealthReport :: "('m, 's) StateMachine \<Rightarrow> string \<Rightarrow> 'm services \<Rightarrow> string \<rightharpoonup> string option" where
  "bm_HealthReport M name s = [name \<mapsto> sm_Healthy M (bm_StateMachine s)]"

definition relayer_HealthReport ::
  "('m, 's) StateMachine \<Rightarrow> 's Multi \<Rightarrow> string \<Rightarrow> string \<Rightarrow> 'm services \<Rightarrow> string \<rightharpoonup> string option" where
  "relayer_HealthReport M MS name txmName s =
     CopyHealth MS [name \<mapsto> sm_Healthy M (rel_StateMachine s)] (txm_HealthReport M txmName s)"

subsection \<open>The OCR2 providers\<close>

text \<open>
  The median provider embeds the config provider and with it its state machine: the two share it. The
  caches have none. Their first update, in \<open>Start\<close>, is in \<open>Ocr2_Transmit\<close>.
\<close>

record 'm providers =
  cp_StateMachine :: 'm
  cc_loop :: group
  tc_loop :: group

definition cache_Start :: "group \<Rightarrow> group wait" where
  "cache_Start g = Returns (launch 1 g)"

definition cache_Close :: "group \<Rightarrow> group wait" where
  "cache_Close g = wait_bind (close_stop g) recv_done"

definition config_Start :: "('m, 'm providers) StateMachine \<Rightarrow> 'm providers job" where
  "config_Start M s =
     wait_bind (StartOnce M ''ConfigProvider''
         (\<lambda>s. wait_bind (cache_Start (cc_loop s)) (\<lambda>g. Returns (s\<lparr>cc_loop := g\<rparr>, None))) (cp_StateMachine s, s))
       (\<lambda>((m, s), err). Returns (s\<lparr>cp_StateMachine := m\<rparr>, err))"

definition config_Close :: "('m, 'm providers) StateMachine \<Rightarrow> 'm providers job" where
  "config_Close M s =
     wait_bind (StopOnce M ''ConfigProvider''
         (\<lambda>s. wait_bind (cache_Close (cc_loop s)) (\<lambda>g. Returns (s\<lparr>cc_loop := g\<rparr>, None))) (cp_StateMachine s, s))
       (\<lambda>((m, s), err). Returns (s\<lparr>cp_StateMachine := m\<rparr>, err))"

definition median_Start :: "('m, 'm providers) StateMachine \<Rightarrow> 'm providers job" where
  "median_Start M s =
     wait_bind (StartOnce M ''MedianProvider''
         (\<lambda>s. wait_bind (cache_Start (cc_loop s)) (\<lambda>g.
              wait_bind (cache_Start (tc_loop s)) (\<lambda>g'. Returns (s\<lparr>cc_loop := g, tc_loop := g'\<rparr>, None))))
         (cp_StateMachine s, s))
       (\<lambda>((m, s), err). Returns (s\<lparr>cp_StateMachine := m\<rparr>, err))"

definition median_Close :: "('m, 'm providers) StateMachine \<Rightarrow> 'm providers job" where
  "median_Close M s =
     wait_bind (StopOnce M ''MedianProvider''
         (\<lambda>s. wait_bind (cache_Close (cc_loop s)) (\<lambda>g.
              wait_bind (cache_Close (tc_loop s)) (\<lambda>g'. Returns (s\<lparr>cc_loop := g, tc_loop := g'\<rparr>, None))))
         (cp_StateMachine s, s))
       (\<lambda>((m, s), err). Returns (s\<lparr>cp_StateMachine := m\<rparr>, err))"

definition provider_HealthReport :: "('m, 's) StateMachine \<Rightarrow> string \<Rightarrow> 'm providers \<Rightarrow> string \<rightharpoonup> string option" where
  "provider_HealthReport M name s = [name \<mapsto> sm_Healthy M (cp_StateMachine s)]"

text \<open>A plugin provider is always ready, and starts, closes and reports its config provider.\<close>

definition plugin_HealthReport ::
  "('m, 's) StateMachine \<Rightarrow> 's Multi \<Rightarrow> string \<Rightarrow> string \<Rightarrow> 'm providers \<Rightarrow> string \<rightharpoonup> string option" where
  "plugin_HealthReport M MS name configName s = CopyHealth MS [name \<mapsto> None] (provider_HealthReport M configName s)"

definition plugin_Start :: "('m, 'm providers) StateMachine \<Rightarrow> 'm providers job" where
  "plugin_Start M = config_Start M"

definition plugin_Close :: "('m, 'm providers) StateMachine \<Rightarrow> 'm providers job" where
  "plugin_Close M = config_Close M"

subsection \<open>A service that owns a state machine\<close>

text \<open>
  The state machine is a field of the state. The lemmas give each call in the three phases; the laws of
  the machine are a premise of each.
\<close>

locale machine_field =
  fixes get :: "'s \<Rightarrow> 'm" and put :: "'m \<Rightarrow> 's \<Rightarrow> 's"
  assumes get_put [simp]: "get (put m s) = m"
    and put_get [simp]: "put (get s) s = s"
begin

lemma start_first:
  assumes "once_laws M ph" and "ph (get s) = Unstarted" and "body s = Returns (s', None)"
  shows "\<exists>m. wait_bind (StartOnce M name body (get s, s)) (\<lambda>((m, s), err). Returns (put m s, err)) = Returns (put m s', None)
    \<and> ph m = Started"
proof -
  have "runs ph body s Started (StartOnce M name body (get s, s))"
    using assms(1,2) by (simp add: once_laws_def)
  then show ?thesis using assms(3) by (auto simp: runs_def)
qed

lemma start_again:
  assumes "once_laws M ph" and "ph (get s) \<noteq> Unstarted"
  shows "\<exists>e. wait_bind (StartOnce M name body (get s, s)) (\<lambda>((m, s), err). Returns (put m s, err)) = Returns (s, Some e)"
proof -
  have "\<exists>e. StartOnce M name body (get s, s) = Returns ((get s, s), Some e)"
    using assms by (simp add: once_laws_def)
  then show ?thesis by auto
qed

lemma start_crashes:
  assumes "once_laws M ph" and "ph (get s) = Unstarted" and "body s = Crashes"
  shows "wait_bind (StartOnce M name body (get s, s)) (\<lambda>((m, s), err). Returns (put m s, err)) = Crashes"
proof -
  have "runs ph body s Started (StartOnce M name body (get s, s))"
    using assms(1,2) by (simp add: once_laws_def)
  then show ?thesis using assms(3) by (simp add: runs_def)
qed

lemma stop_first:
  assumes "once_laws M ph" and "ph (get s) = Started" and "body s = Returns (s', None)"
  shows "\<exists>m. wait_bind (StopOnce M name body (get s, s)) (\<lambda>((m, s), err). Returns (put m s, err)) = Returns (put m s', None)
    \<and> ph m = Over"
proof -
  have "runs ph body s Over (StopOnce M name body (get s, s))"
    using assms(1,2) by (simp add: once_laws_def)
  then show ?thesis using assms(3) by (auto simp: runs_def)
qed

lemma stop_blocks:
  assumes "once_laws M ph" and "ph (get s) = Started" and "body s = Blocks"
  shows "wait_bind (StopOnce M name body (get s, s)) (\<lambda>((m, s), err). Returns (put m s, err)) = Blocks"
proof -
  have "runs ph body s Over (StopOnce M name body (get s, s))"
    using assms(1,2) by (simp add: once_laws_def)
  then show ?thesis using assms(3) by (simp add: runs_def)
qed

lemma stop_idle:
  assumes "once_laws M ph" and "ph (get s) \<noteq> Started"
  shows "\<exists>e. wait_bind (StopOnce M name body (get s, s)) (\<lambda>((m, s), err). Returns (put m s, err)) = Returns (s, Some e)"
proof -
  have "\<exists>e. StopOnce M name body (get s, s) = Returns ((get s, s), Some e)"
    using assms by (simp add: once_laws_def)
  then show ?thesis by auto
qed

end

interpretation txm_once: machine_field txm_Starter "\<lambda>m s. s\<lparr>txm_Starter := m\<rparr>" by unfold_locales simp_all
interpretation bm_once: machine_field bm_StateMachine "\<lambda>m s. s\<lparr>bm_StateMachine := m\<rparr>" by unfold_locales simp_all
interpretation rel_once: machine_field rel_StateMachine "\<lambda>m s. s\<lparr>rel_StateMachine := m\<rparr>" by unfold_locales simp_all
interpretation cp_once: machine_field cp_StateMachine "\<lambda>m s. s\<lparr>cp_StateMachine := m\<rparr>" by unfold_locales simp_all

subsection \<open>Groups in the life of a service\<close>

definition alive :: "nat \<Rightarrow> group \<Rightarrow> bool" where
  "alive n g \<longleftrightarrow> \<not> g_stop g \<and> length (g_routines g) = n \<and> Ended \<notin> set (g_routines g)"

definition drained :: "nat \<Rightarrow> group \<Rightarrow> bool" where
  "drained n g \<longleftrightarrow> g_stop g \<and> length (g_routines g) = n \<and> ended g"

lemma launch_alive [simp]: "alive n (launch n no_group)"
  by (simp add: alive_def launch_def no_group_def)

lemma no_group_step: "\<not> group_step no_group g"
  by (auto simp: no_group_def elim: group_stepE)

lemma drained_step: "drained n g \<Longrightarrow> \<not> group_step g g'"
  by (auto simp: drained_def ended_def list_all_length loop_step_Ended elim: group_stepE)

lemma alive_step: "group_step g g' \<Longrightarrow> alive n g \<Longrightarrow> alive n g'"
  by (auto simp: alive_def elim!: group_stepE loop_stepE dest!: subsetD [OF set_update_subset_insert])

lemma all_ended_drained: "g_stop g \<Longrightarrow> drained (length (g_routines g)) (all_ended g)"
  by (simp add: drained_def all_ended_def ended_def list_all_length)

lemma stop_wg:
  assumes "alive n g"
  shows "\<exists>g'. wait_bind (close_stop g) wg_Wait = Returns g' \<and> drained n g'"
  using assms all_ended_drained [of "g\<lparr>g_stop := True\<rparr>"]
  by (auto simp: alive_def close_stop_def wg_Wait_def drained_def ended_def)

lemma stop_done:
  assumes "alive 1 g"
  shows "\<exists>g'. wait_bind (close_stop g) recv_done = Returns g' \<and> drained 1 g'"
  using assms all_ended_drained [of "g\<lparr>g_stop := True\<rparr>"]
  by (auto simp: alive_def close_stop_def recv_done_def)

subsection \<open>The life of the relayer\<close>

text \<open>Its state changes by its own calls, in any order and number, and by the work of the goroutines.\<close>

inductive relayer_step ::
  "('m, 'm services) StateMachine \<Rightarrow> 'm services Multi \<Rightarrow> TronTxmConfig \<Rightarrow> 'm services \<Rightarrow> 'm services \<Rightarrow> bool"
  for M MS cfg where
  start: "relayer_Start M MS cfg s = Returns (s', err) \<Longrightarrow> relayer_step M MS cfg s s'"
| close: "relayer_Close M MS s = Returns (s', err) \<Longrightarrow> relayer_step M MS cfg s s'"
| txm_works: "group_step (txm_loops s) g \<Longrightarrow> relayer_step M MS cfg s (s\<lparr>txm_loops := g\<rparr>)"
| bm_works: "group_step (bm_loop s) g \<Longrightarrow> relayer_step M MS cfg s (s\<lparr>bm_loop := g\<rparr>)"

definition new_services :: "'m \<Rightarrow> 'm services" where
  "new_services m = \<lparr>txm_Starter = m, txm_loops = no_group, bm_StateMachine = m, bm_loop = no_group, rel_StateMachine = m\<rparr>"

definition services_inv :: "('m \<Rightarrow> phase) \<Rightarrow> 'm services \<Rightarrow> bool" where
  "services_inv ph s \<longleftrightarrow>
     ph (txm_Starter s) = ph (rel_StateMachine s) \<and> ph (bm_StateMachine s) = ph (rel_StateMachine s)
     \<and> (case ph (rel_StateMachine s) of
          Unstarted \<Rightarrow> txm_loops s = no_group \<and> bm_loop s = no_group
        | Started \<Rightarrow> alive 3 (txm_loops s) \<and> alive 1 (bm_loop s)
        | Over \<Rightarrow> drained 3 (txm_loops s) \<and> drained 1 (bm_loop s))"

lemma relayer_starts_services:
  assumes M: "once_laws M ph" and MS: "multi_laws MS" and "0 < ReapInterval cfg"
    and inv: "services_inv ph s" and fresh: "ph (rel_StateMachine s) = Unstarted"
  shows "\<exists>s'. relayer_Start M MS cfg s = Returns (s', None) \<and> services_inv ph s' \<and> ph (rel_StateMachine s') = Started"
proof -
  have f: "ph (txm_Starter s) = Unstarted" "ph (bm_StateMachine s) = Unstarted" "txm_loops s = no_group" "bm_loop s = no_group"
    using inv fresh by (simp_all add: services_inv_def)
  let ?s1 = "s\<lparr>txm_loops := launch 3 no_group\<rparr>"
  obtain m1 where m1: "txm_Start M cfg s = Returns (?s1\<lparr>txm_Starter := m1\<rparr>, None)" "ph m1 = Started"
    using txm_once.start_first [OF M f(1), of "\<lambda>s. if ReapInterval cfg \<le> 0 then Crashes
              else Returns (s\<lparr>txm_loops := launch 3 (txm_loops s)\<rparr>, None)" ?s1 "''TronTxm''"] assms(3) f(3)
    by (auto simp: txm_Start_def)
  let ?s2 = "s\<lparr>txm_loops := launch 3 no_group, txm_Starter := m1\<rparr>"
  obtain m2 where m2: "bm_Start M ?s2 = Returns (?s2\<lparr>bm_loop := launch 1 no_group, bm_StateMachine := m2\<rparr>, None)" "ph m2 = Started"
    using bm_once.start_first [OF M, of ?s2 "\<lambda>s. Returns (s\<lparr>bm_loop := launch 1 (bm_loop s)\<rparr>, None)"
        "?s2\<lparr>bm_loop := launch 1 no_group\<rparr>" "''TronBalanceMonitor''"] f(2,4)
    by (auto simp: bm_Start_def)
  let ?s3 = "?s2\<lparr>bm_loop := launch 1 no_group, bm_StateMachine := m2\<rparr>"
  have "ms_Start MS [(txm_Start M cfg, txm_Close M), (bm_Start M, bm_Close M)] s = Returns (?s3, None)"
    using MS m1(1) m2(1) by (simp add: multi_laws_def)
  from rel_once.start_first [where body = "ms_Start MS [(txm_Start M cfg, txm_Close M), (bm_Start M, bm_Close M)]", OF M fresh this, of "''TronRelayer''"]
  obtain m3 where "relayer_Start M MS cfg s = Returns (?s3\<lparr>rel_StateMachine := m3\<rparr>, None)" "ph m3 = Started"
    by (auto simp: relayer_Start_def)
  then show ?thesis using m1(2) m2(2) by (simp add: services_inv_def)
qed

lemma txm_closes:
  assumes "once_laws M ph" and "ph (txm_Starter s) = Started"
    and "wait_bind (close_stop (txm_loops s)) wg_Wait = Returns g"
  shows "\<exists>m. txm_Close M s = Returns (s\<lparr>txm_loops := g, txm_Starter := m\<rparr>, None) \<and> ph m = Over"
  using txm_once.stop_first [OF assms(1,2), of
      "\<lambda>s. wait_bind (wait_bind (close_stop (txm_loops s)) wg_Wait) (\<lambda>g. Returns (s\<lparr>txm_loops := g\<rparr>, None))"
      "s\<lparr>txm_loops := g\<rparr>" "''TronTxm''"] assms(3)
  by (simp add: txm_Close_def)

lemma bm_closes:
  assumes "once_laws M ph" and "ph (bm_StateMachine s) = Started"
    and "wait_bind (close_stop (bm_loop s)) recv_done = Returns g"
  shows "\<exists>m. bm_Close M s = Returns (s\<lparr>bm_loop := g, bm_StateMachine := m\<rparr>, None) \<and> ph m = Over"
  using bm_once.stop_first [OF assms(1,2), of
      "\<lambda>s. wait_bind (wait_bind (close_stop (bm_loop s)) recv_done) (\<lambda>g. Returns (s\<lparr>bm_loop := g\<rparr>, None))"
      "s\<lparr>bm_loop := g\<rparr>" "''TronBalanceMonitor''"] assms(3)
  by (simp add: bm_Close_def)

lemma relayer_closes_services:
  assumes M: "once_laws M ph" and MS: "multi_laws MS" and inv: "services_inv ph s"
    and started: "ph (rel_StateMachine s) = Started"
  shows "\<exists>s'. relayer_Close M MS s = Returns (s', None) \<and> services_inv ph s' \<and> ph (rel_StateMachine s') = Over"
proof -
  have st: "ph (txm_Starter s) = Started" "ph (bm_StateMachine s) = Started" "alive 3 (txm_loops s)" "alive 1 (bm_loop s)"
    using inv started by (simp_all add: services_inv_def)
  obtain g h where g: "wait_bind (close_stop (txm_loops s)) wg_Wait = Returns g" "drained 3 g"
    and h: "wait_bind (close_stop (bm_loop s)) recv_done = Returns h" "drained 1 h"
    using stop_wg [OF st(3)] stop_done [OF st(4)] by blast
  let ?closed = "\<lambda>m m'. s\<lparr>txm_loops := g, txm_Starter := m, bm_loop := h, bm_StateMachine := m'\<rparr>"
  obtain m1 m2 where a: "txm_Close M s = Returns (s\<lparr>txm_loops := g, txm_Starter := m1\<rparr>, None)"
    "bm_Close M (s\<lparr>txm_loops := g, txm_Starter := m1\<rparr>) = Returns (?closed m1 m2, None)" "ph m1 = Over" "ph m2 = Over"
    using txm_closes [OF M st(1) g(1)] bm_closes [OF M, of "s\<lparr>txm_loops := g, txm_Starter := m\<rparr>" h for m] st(2) h(1)
    by fastforce
  obtain m4 where b4: "bm_Close M s = Returns (s\<lparr>bm_loop := h, bm_StateMachine := m4\<rparr>, None)" "ph m4 = Over"
    using bm_closes [OF M st(2) h(1)] by blast
  let ?s4 = "s\<lparr>bm_loop := h, bm_StateMachine := m4\<rparr>"
  have "ph (txm_Starter ?s4) = Started" "wait_bind (close_stop (txm_loops ?s4)) wg_Wait = Returns g"
    using st(1) g(1) by simp_all
  from txm_closes [OF M this] obtain m3
    where b3: "txm_Close M ?s4 = Returns (?s4\<lparr>txm_loops := g, txm_Starter := m3\<rparr>, None)" "ph m3 = Over" by blast
  have "?s4\<lparr>txm_loops := g, txm_Starter := m3\<rparr> = ?closed m3 m4" by simp
  note b = b4(1) b3(1) [unfolded this] b3(2) b4(2)
  have "CloseAll MS [txm_Close M, bm_Close M] s \<in> {Returns (?closed m1 m2, None), Returns (?closed m3 m4, None)}"
    by (rule CloseAll_law [OF MS a(1,2) b(1,2)])
  then obtain m m' where c: "CloseAll MS [txm_Close M, bm_Close M] s = Returns (?closed m m', None)" "ph m = Over" "ph m' = Over"
    using a(3,4) b(3,4) by blast
  from rel_once.stop_first [where body = "CloseAll MS [txm_Close M, bm_Close M]", OF M started c(1), of "''TronRelayer''"]
  obtain m3 where "relayer_Close M MS s = Returns ((?closed m m')\<lparr>rel_StateMachine := m3\<rparr>, None)" "ph m3 = Over"
    by (auto simp: relayer_Close_def)
  then show ?thesis using c(2,3) g(2) h(2) by (simp add: services_inv_def)
qed

lemma relayer_Start_again:
  assumes "once_laws M ph" and "ph (rel_StateMachine s) \<noteq> Unstarted"
  shows "\<exists>e. relayer_Start M MS cfg s = Returns (s, Some e)"
  unfolding relayer_Start_def by (rule rel_once.start_again [OF assms])

lemma relayer_Close_idle:
  assumes "once_laws M ph" and "ph (rel_StateMachine s) \<noteq> Started"
  shows "\<exists>e. relayer_Close M MS s = Returns (s, Some e)"
  unfolding relayer_Close_def by (rule rel_once.stop_idle [OF assms])

lemma services_inv_steps:
  assumes M: "once_laws M ph" and MS: "multi_laws MS" and pos: "0 < ReapInterval cfg"
    and "(relayer_step M MS cfg)\<^sup>*\<^sup>* s0 s" and "services_inv ph s0"
  shows "services_inv ph s"
  using assms(4)
proof (induction rule: rtranclp_induct)
  case base
  show ?case by (rule assms(5))
next
  case (step s s')
  note inv = step.IH
  from step.hyps(2) show ?case
  proof cases
    case (start err)
    then show ?thesis
      using relayer_starts_services [OF M MS pos inv] relayer_Start_again [OF M, of s MS cfg] inv
      by (cases "ph (rel_StateMachine s) = Unstarted") auto
  next
    case (close err)
    then show ?thesis
      using relayer_closes_services [OF M MS inv] relayer_Close_idle [OF M, of s MS] inv
      by (cases "ph (rel_StateMachine s) = Started") auto
  next
    case (txm_works g)
    then show ?thesis using inv no_group_step drained_step alive_step
      by (auto simp: services_inv_def split: phase.splits)
  next
    case (bm_works g)
    then show ?thesis using inv no_group_step drained_step alive_step
      by (auto simp: services_inv_def split: phase.splits)
  qed
qed


text \<open>A state machine and a starter as documented, to show that the laws can hold.\<close>

definition sample_machine :: "(phase, 's) StateMachine" where
  "sample_machine =
     \<lparr>StartOnce = (\<lambda>name f (m, s). if m = Unstarted
        then wait_bind (f s) (\<lambda>(s', err). Returns ((if err = None then Started else Over, s'), err))
        else Returns ((m, s), Some name)),
      StopOnce = (\<lambda>name f (m, s). if m = Started
        then wait_bind (f s) (\<lambda>(s', err). Returns ((Over, s'), err)) else Returns ((m, s), Some name)),
      sm_Ready = (\<lambda>m. if m = Started then None else Some ''not started''),
      sm_Healthy = (\<lambda>m. if m = Started then None else Some ''not started'')\<rparr>"

definition sample_multi :: "'s Multi" where
  "sample_multi =
     \<lparr>ms_Start = (\<lambda>js. case js of [(f, f'), (g, g')] \<Rightarrow> (\<lambda>s. wait_bind (f s) (\<lambda>(s, err). if err = None then g s else Returns (s, err)))
        | _ \<Rightarrow> (\<lambda>s. Returns (s, None))),
      CloseAll = (\<lambda>js. case js of [f, g] \<Rightarrow> (\<lambda>s. wait_bind (f s) (\<lambda>(s, err). if err = None then g s else Returns (s, err)))
        | _ \<Rightarrow> (\<lambda>s. Returns (s, None))),
      CopyHealth = (++)\<rparr>"

lemma sample_once: "once_laws sample_machine (\<lambda>m. m)"
  by (auto simp: once_laws_def sample_machine_def runs_def split: wait.split prod.split)

lemma sample_multi_laws: "multi_laws sample_multi"
  by (simp add: multi_laws_def sample_multi_def)

definition default_txm :: TronTxmConfig where
  "default_txm = \<lparr>BroadcastChanSize = 4096, ConfirmPollSecs = 0, EnergyMultiplier = Fin 3 (- 1), FixedEnergyValue = 0,
     RetentionPeriod = 0, ReapInterval = 60 * nanos_per_second\<rparr>"

lemma sample_start:
  "relayer_Start sample_machine sample_multi default_txm (new_services Unstarted) =
     Returns (\<lparr>txm_Starter = Started, txm_loops = launch 3 no_group, bm_StateMachine = Started,
       bm_loop = launch 1 no_group, rel_StateMachine = Started\<rparr>, None)"
  by (simp add: relayer_Start_def sample_machine_def sample_multi_def txm_Start_def bm_Start_def default_txm_def
      new_services_def nanos_per_second_def)


text \<open>
  C28. Error: validation accepts every reap interval, and a relayer is made from it; but starting it
  takes the process down exactly when the interval is given and not positive.
\<close>

theorem reap_interval_crashes:
  assumes "once_laws M ph" and "multi_laws MS" and "ph m = Unstarted"
    and "toml_ValidateConfig cfg = []" and "perm_ok perm"
    and "NewRelayer perm net cod L (SetDefaults cfg) = Done (Inr r)"
  shows "if \<exists>d. cc_ReapInterval (toml_Chain cfg) = Some d \<and> d \<le> 0
    then relayer_Start M MS (rl_txmConfig r) (new_services m) = Crashes
    else \<exists>s. relayer_Start M MS (rl_txmConfig r) (new_services m) = Returns (s, None)"
proof -
  have inv: "services_inv ph (new_services m)" using assms(3) by (simp add: services_inv_def new_services_def)
  have "txm_config (SetDefaults cfg) = Done (rl_txmConfig r)"
    using relayer_starts [OF assms(4,5) refl, of net cod L] assms(6) by (auto split: option.splits)
  from this [unfolded txm_config_SetDefaults outcome.inject, symmetric]
  have reap: "ReapInterval (rl_txmConfig r) = (case cc_ReapInterval (toml_Chain cfg) of None \<Rightarrow> 60 * nanos_per_second | Some d \<Rightarrow> d)"
    by (simp add: given_def)
  show ?thesis
  proof (cases "0 < ReapInterval (rl_txmConfig r)")
    case True
    then show ?thesis using relayer_starts_services [OF assms(1,2) True inv] assms(3) reap by (auto simp: new_services_def)
  next
    case False
    let ?s = "new_services m"
    have "txm_Start M (rl_txmConfig r) ?s = Crashes"
      unfolding txm_Start_def by (rule txm_once.start_crashes [OF assms(1)]) (use assms(3) False in \<open>simp_all add: new_services_def\<close>)
    then have "ms_Start MS [(txm_Start M (rl_txmConfig r), txm_Close M), (bm_Start M, bm_Close M)] ?s = Crashes"
      using assms(2) by (simp add: multi_laws_def)
    then have "relayer_Start M MS (rl_txmConfig r) ?s = Crashes"
      unfolding relayer_Start_def by (intro rel_once.start_crashes [OF assms(1)]) (use assms(3) in \<open>simp_all add: new_services_def\<close>)
    then show ?thesis using False reap by (auto simp: nanos_per_second_def split: option.splits)
  qed
qed

definition hasty_toml_config :: TOMLConfig where
  "hasty_toml_config = sample_toml_config\<lparr>toml_Chain := (toml_Chain sample_toml_config)\<lparr>cc_ReapInterval := Some 0\<rparr>\<rparr>"

theorem reap_interval_crashes_witness:
  "\<forall>net cod. \<exists>r. toml_ValidateConfig hasty_toml_config = []
     \<and> NewRelayer sample_perm net cod sample_lib (SetDefaults hasty_toml_config) = Done (Inr r)
     \<and> relayer_Start sample_machine sample_multi (rl_txmConfig r) (new_services Unstarted) = Crashes"
proof (intro allI)
  fix net :: "duration \<Rightarrow> 'a Net" and cod
  have valid: "toml_ValidateConfig hasty_toml_config = []"
  proof -
    have "toml_ValidateConfig hasty_toml_config = toml_ValidateConfig sample_toml_config"
      by (simp add: hasty_toml_config_def toml_ValidateConfig_def)
    then show ?thesis using sample_toml_valid by simp
  qed
  have i: "toml_ChainID hasty_toml_config = Some (dec_string 5)"
    by (simp add: hasty_toml_config_def sample_toml_config_def sample_toml_def)
  then obtain r where r: "NewRelayer sample_perm net cod sample_lib (SetDefaults hasty_toml_config) = Done (Inr r)"
    using relayer_starts [OF valid sample_perm_ok refl, of net cod sample_lib] parse_chain_id_decimal [of 5] by fastforce
  have "\<exists>d. cc_ReapInterval (toml_Chain hasty_toml_config) = Some d \<and> d \<le> 0" by (simp add: hasty_toml_config_def)
  then have "relayer_Start sample_machine sample_multi (rl_txmConfig r) (new_services Unstarted) = Crashes"
    using reap_interval_crashes [OF sample_once sample_multi_laws refl valid sample_perm_ok r] by simp
  then show "\<exists>r. toml_ValidateConfig hasty_toml_config = []
     \<and> NewRelayer sample_perm net cod sample_lib (SetDefaults hasty_toml_config) = Done (Inr r)
     \<and> relayer_Start sample_machine sample_multi (rl_txmConfig r) (new_services Unstarted) = Crashes"
    using valid r by blast
qed

subsection \<open>The life of a median provider\<close>

inductive median_step :: "('m, 'm providers) StateMachine \<Rightarrow> 'm providers \<Rightarrow> 'm providers \<Rightarrow> bool" for M where
  start: "median_Start M s = Returns (s', err) \<Longrightarrow> median_step M s s'"
| close: "median_Close M s = Returns (s', err) \<Longrightarrow> median_step M s s'"
| cc_works: "group_step (cc_loop s) g \<Longrightarrow> median_step M s (s\<lparr>cc_loop := g\<rparr>)"
| tc_works: "group_step (tc_loop s) g \<Longrightarrow> median_step M s (s\<lparr>tc_loop := g\<rparr>)"

definition new_providers :: "'m \<Rightarrow> 'm providers" where
  "new_providers m = \<lparr>cp_StateMachine = m, cc_loop = no_group, tc_loop = no_group\<rparr>"

definition providers_inv :: "('m \<Rightarrow> phase) \<Rightarrow> 'm providers \<Rightarrow> bool" where
  "providers_inv ph s \<longleftrightarrow>
     (case ph (cp_StateMachine s) of
        Unstarted \<Rightarrow> cc_loop s = no_group \<and> tc_loop s = no_group
      | Started \<Rightarrow> alive 1 (cc_loop s) \<and> alive 1 (tc_loop s)
      | Over \<Rightarrow> drained 1 (cc_loop s) \<and> drained 1 (tc_loop s))"

lemma median_starts:
  assumes "once_laws M ph" and "providers_inv ph s" and "ph (cp_StateMachine s) = Unstarted"
  shows "\<exists>m. median_Start M s = Returns (s\<lparr>cc_loop := launch 1 no_group, tc_loop := launch 1 no_group, cp_StateMachine := m\<rparr>, None)
    \<and> ph m = Started"
  unfolding median_Start_def
  by (rule cp_once.start_first [OF assms(1,3), where s' = "s\<lparr>cc_loop := launch 1 no_group, tc_loop := launch 1 no_group\<rparr>"])
    (use assms(2,3) in \<open>simp add: providers_inv_def cache_Start_def\<close>)

lemma median_closes:
  assumes "once_laws M ph" and "providers_inv ph s" and "ph (cp_StateMachine s) = Started"
  shows "\<exists>m g h. median_Close M s = Returns (s\<lparr>cc_loop := g, tc_loop := h, cp_StateMachine := m\<rparr>, None)
    \<and> ph m = Over \<and> drained 1 g \<and> drained 1 h"
proof -
  obtain g h where g: "wait_bind (close_stop (cc_loop s)) recv_done = Returns g" "drained 1 g"
    and h: "wait_bind (close_stop (tc_loop s)) recv_done = Returns h" "drained 1 h"
    using stop_done [of "cc_loop s"] stop_done [of "tc_loop s"] assms(2,3) by (auto simp: providers_inv_def)
  have "\<exists>m. median_Close M s = Returns ((s\<lparr>cc_loop := g, tc_loop := h\<rparr>)\<lparr>cp_StateMachine := m\<rparr>, None) \<and> ph m = Over"
    unfolding median_Close_def
    by (rule cp_once.stop_first [OF assms(1,3)]) (simp add: cache_Close_def g(1) h(1))
  then show ?thesis using g(2) h(2) by auto
qed

lemma median_Start_again:
  assumes "once_laws M ph" and "ph (cp_StateMachine s) \<noteq> Unstarted"
  shows "\<exists>e. median_Start M s = Returns (s, Some e)"
  unfolding median_Start_def by (rule cp_once.start_again [OF assms])

lemma median_Close_idle:
  assumes "once_laws M ph" and "ph (cp_StateMachine s) \<noteq> Started"
  shows "\<exists>e. median_Close M s = Returns (s, Some e)"
  unfolding median_Close_def by (rule cp_once.stop_idle [OF assms])

lemma providers_inv_steps:
  assumes M: "once_laws M ph" and "(median_step M)\<^sup>*\<^sup>* s0 s" and "providers_inv ph s0"
  shows "providers_inv ph s"
  using assms(2)
proof (induction rule: rtranclp_induct)
  case base
  show ?case by (rule assms(3))
next
  case (step s s')
  note inv = step.IH
  from step.hyps(2) show ?case
  proof cases
    case (start err)
    then show ?thesis
      using median_starts [OF M inv] median_Start_again [OF M, of s] inv
      by (cases "ph (cp_StateMachine s) = Unstarted") (auto simp: providers_inv_def)
  next
    case (close err)
    then show ?thesis
      using median_closes [OF M inv] median_Close_idle [OF M, of s] inv
      by (cases "ph (cp_StateMachine s) = Started") (auto simp: providers_inv_def)
  next
    case (cc_works g)
    then show ?thesis using inv no_group_step drained_step alive_step
      by (auto simp: providers_inv_def split: phase.splits)
  next
    case (tc_works g)
    then show ?thesis using inv no_group_step drained_step alive_step
      by (auto simp: providers_inv_def split: phase.splits)
  qed
qed

text \<open>
  C27. Safety: the caches have no state machine of their own (closing one before it was started blocks for
  ever, closing it twice panics); the one that the median provider shares with its config provider keeps
  both from happening, over every order of its calls and the work of the polling loops. \<open>Start\<close>
  succeeds only once and launches both loops, \<open>Close\<close> only while they run, and both have ended then.
  Mixed use is not covered: a median provider closed after its config provider was started blocks for ever.
\<close>

theorem median_caches_once:
  assumes "once_laws M ph" and "ph m = Unstarted" and "(median_step M)\<^sup>*\<^sup>* (new_providers m) s"
  shows "(\<exists>s' err. median_Start M s = Returns (s', err)
      \<and> (err = None \<longleftrightarrow> cc_loop s = no_group \<and> tc_loop s = no_group)
      \<and> (if err = None then alive 1 (cc_loop s') \<and> alive 1 (tc_loop s') else s' = s))
    \<and> (\<exists>s' err. median_Close M s = Returns (s', err)
      \<and> (err = None \<longleftrightarrow> alive 1 (cc_loop s) \<and> alive 1 (tc_loop s))
      \<and> (if err = None then drained 1 (cc_loop s') \<and> drained 1 (tc_loop s') else s' = s))
    \<and> cache_Close no_group = Blocks
    \<and> (\<forall>g g'. cache_Close g = Returns g' \<longrightarrow> cache_Close g' = Crashes)
    \<and> (\<exists>t. config_Start M (new_providers m) = Returns (t, None) \<and> median_Close M t = Blocks)"
proof -
  have inv: "providers_inv ph s"
    by (rule providers_inv_steps [OF assms(1,3)]) (simp add: assms(2) providers_inv_def new_providers_def)
  have no: "\<not> alive 1 no_group" "\<not> drained 1 no_group" "\<not> (alive n g \<and> drained n g)" for n g
    by (auto simp: alive_def drained_def no_group_def)
  have a: "\<exists>s' err s'' err'. median_Start M s = Returns (s', err) \<and> median_Close M s = Returns (s'', err')
    \<and> (err = None \<longleftrightarrow> cc_loop s = no_group \<and> tc_loop s = no_group)
    \<and> (if err = None then alive 1 (cc_loop s') \<and> alive 1 (tc_loop s') else s' = s)
    \<and> (err' = None \<longleftrightarrow> alive 1 (cc_loop s) \<and> alive 1 (tc_loop s))
    \<and> (if err' = None then drained 1 (cc_loop s'') \<and> drained 1 (tc_loop s'') else s'' = s)"
  proof (cases "ph (cp_StateMachine s)")
    case Unstarted
    obtain s' e where "median_Start M s = Returns (s', None)" "median_Close M s = Returns (s, Some e)"
      "cc_loop s' = launch 1 no_group" "tc_loop s' = launch 1 no_group"
      using median_starts [OF assms(1) inv Unstarted] median_Close_idle [OF assms(1), of s] Unstarted by auto
    then show ?thesis using inv Unstarted no launch_alive [of 1] by (simp add: providers_inv_def)
  next
    case Started
    obtain s' e where "median_Start M s = Returns (s, Some e)" "median_Close M s = Returns (s', None)"
      "drained 1 (cc_loop s')" "drained 1 (tc_loop s')"
      using median_closes [OF assms(1) inv Started] median_Start_again [OF assms(1), of s] Started by auto
    then show ?thesis using inv Started no by (auto simp: providers_inv_def)
  next
    case Over
    obtain e e' where "median_Start M s = Returns (s, Some e)" "median_Close M s = Returns (s, Some e')"
      using median_Start_again [OF assms(1), of s] median_Close_idle [OF assms(1), of s] Over by auto
    then show ?thesis using inv Over no by (auto simp: providers_inv_def)
  qed
  have b: "cache_Close g' = Crashes" if "cache_Close g = Returns g'" for g g'
    using that by (auto simp: cache_Close_def close_stop_def recv_done_def all_ended_def split: if_splits)
  have c: "cache_Close no_group = Blocks"
    by (simp add: cache_Close_def close_stop_def recv_done_def no_group_def)
  let ?t = "(new_providers m)\<lparr>cc_loop := launch 1 no_group\<rparr>"
  obtain m' where t: "config_Start M (new_providers m) = Returns (?t\<lparr>cp_StateMachine := m'\<rparr>, None)" "ph m' = Started"
    using cp_once.start_first [OF assms(1), of "new_providers m"
        "\<lambda>s. wait_bind (cache_Start (cc_loop s)) (\<lambda>g. Returns (s\<lparr>cc_loop := g\<rparr>, None))" ?t "''ConfigProvider''"] assms(2)
    by (auto simp: config_Start_def new_providers_def cache_Start_def)
  obtain g where "cache_Close (launch 1 no_group) = Returns g"
    using stop_done [OF launch_alive] by (auto simp: cache_Close_def)
  then have "median_Close M (?t\<lparr>cp_StateMachine := m'\<rparr>) = Blocks"
    unfolding median_Close_def
    by (intro cp_once.stop_blocks [OF assms(1)]) (use t(2) c in \<open>simp_all add: new_providers_def\<close>)
  then show ?thesis using a b c t(1) by blast
qed

theorem median_caches_once_witness:
  "\<exists>s s'. median_Start sample_machine (new_providers Unstarted) = Returns (s, None) \<and> alive 1 (tc_loop s)
     \<and> median_Close sample_machine s = Returns (s', None) \<and> drained 1 (tc_loop s')"
proof -
  note run = median_caches_once [OF sample_once refl]
  obtain s where s: "median_Start sample_machine (new_providers Unstarted) = Returns (s, None)" "alive 1 (cc_loop s)" "alive 1 (tc_loop s)"
    using conjunct1 [OF run [OF rtranclp.rtrancl_refl]] by (elim exE conjE) (simp add: new_providers_def split: if_splits)
  have "(median_step sample_machine)\<^sup>*\<^sup>* (new_providers Unstarted) s" using median_step.start [OF s(1)] by blast
  from conjunct1 [OF conjunct2 [OF run [OF this]]] s show ?thesis
    by (elim exE conjE) (simp split: if_splits)
qed

end
