(* ===== verification/Managed.thy ===== *)
theory Managed
  imports Services Txm_Stuck
begin

text \<open>
  The manager and its life together: the steps of the machine of \<open>Txm_Spec\<close>, each taken by the goroutine it
  belongs to, which must be running for it (\<open>Services\<close>); \<open>Enqueue\<close> and the outside need none. \<open>Close\<close> is one
  step here: what a goroutine still does between the closing of the channel and its own return touches
  nothing of the services, so it is the same work done just before the call.
\<close>

subsection \<open>Whose step it is\<close>

inductive outside_step :: "'w Env \<Rightarrow> 'w txm \<Rightarrow> 'w txm \<Rightarrow> bool" for E where
  Tick: "outside_step E t (t\<lparr>world := w\<rparr>)"
| Enqueues: "uuid_fresh E req t \<Longrightarrow> Enqueue E req t = Done (t', err) \<Longrightarrow> outside_step E t t'"

inductive broadcastLoop_step :: "'w Env \<Rightarrow> 'w txm \<Rightarrow> 'w txm \<Rightarrow> bool" for E where
  Receives: "received t = None \<Longrightarrow> BroadcastChan t = r # q \<Longrightarrow>
    broadcastLoop_step E t (t\<lparr>BroadcastChan := q, received := Some r\<rparr>)"
| Prepares: "received t = Some r \<Longrightarrow> prepare E (objects t r) t = Done (t', Prepared coreTx) \<Longrightarrow> broadcastLoop_step E t t'"
| Drops: "received t = Some r \<Longrightarrow> prepare E (objects t r) t = Done (t', NotPrepared) \<Longrightarrow>
    broadcastLoop_step E t (t'\<lparr>received := None\<rparr>)"
| Sends: "received t = Some r \<Longrightarrow>
    (\<And>s. store (accounts t) (owner_of E (FromAddress (objects t r))) = Some s \<Longrightarrow> hash_fresh s (TxID coreTx)) \<Longrightarrow>
    send E r coreTx (t\<lparr>received := None\<rparr>) = Some (Done t') \<Longrightarrow> broadcastLoop_step E t t'"

inductive confirmLoop_step :: "'w Env \<Rightarrow> 'w txm \<Rightarrow> 'w txm \<Rightarrow> bool" for E where
  Checks: "unconfirmed_in (state_of t) a p \<Longrightarrow>
    GetTransactionInfoByIdFullNode (client E) (inf_Hash p) (world t) = Done (w, info, err) \<Longrightarrow>
    err = None \<longrightarrow> info \<noteq> None \<Longrightarrow> check_one E a ts p t = Done t' \<Longrightarrow> confirmLoop_step E t t'"
| Finalizes: "confirmed_in (state_of t) a p \<Longrightarrow> finalize_one E a p t = Done t' \<Longrightarrow> confirmLoop_step E t t'"

inductive reapLoop_step :: "'w Env \<Rightarrow> 'w txm \<Rightarrow> 'w txm \<Rightarrow> bool" for E where
  Reaps: "reapLoop_step E t (reap_iteration E accs ids t)"

text \<open>Together they are the steps of the machine.\<close>

lemma txm_step_parties:
  "txm_step E t t' \<longleftrightarrow>
     outside_step E t t' \<or> broadcastLoop_step E t t' \<or> confirmLoop_step E t t' \<or> reapLoop_step E t t'"
proof
  assume "txm_step E t t'"
  then show "outside_step E t t' \<or> broadcastLoop_step E t t' \<or> confirmLoop_step E t t' \<or> reapLoop_step E t t'"
    by cases (blast intro: outside_step.intros broadcastLoop_step.intros confirmLoop_step.intros reapLoop_step.intros)+
next
  show "outside_step E t t' \<or> broadcastLoop_step E t t' \<or> confirmLoop_step E t t' \<or> reapLoop_step E t t' \<Longrightarrow> txm_step E t t'"
    by (elim disjE outside_step.cases broadcastLoop_step.cases confirmLoop_step.cases reapLoop_step.cases)
      (auto intro: txm_step.intros)
qed

text \<open>The three goroutines, in the order \<open>Start\<close> launches them.\<close>

definition working :: "nat \<Rightarrow> 'm services \<Rightarrow> bool" where
  "working i s \<longleftrightarrow> i < length (g_routines (txm_loops s)) \<and> g_routines (txm_loops s) ! i = Working"

inductive managed_step ::
  "('m, 'm services) StateMachine \<Rightarrow> 'm services Multi \<Rightarrow> TronTxmConfig \<Rightarrow> 'w Env \<Rightarrow> 'm services \<times> 'w txm \<Rightarrow> 'm services \<times> 'w txm \<Rightarrow> bool"
  for M MS cfg E where
  life: "relayer_step M MS cfg s s' \<Longrightarrow> managed_step M MS cfg E (s, t) (s', t)"
| outside: "outside_step E t t' \<Longrightarrow> managed_step M MS cfg E (s, t) (s, t')"
| broadcastLoop: "working 0 s \<Longrightarrow> broadcastLoop_step E t t' \<Longrightarrow> managed_step M MS cfg E (s, t) (s, t')"
| confirmLoop: "working 1 s \<Longrightarrow> confirmLoop_step E t t' \<Longrightarrow> managed_step M MS cfg E (s, t) (s, t')"
| reapLoop: "working 2 s \<Longrightarrow> reapLoop_step E t t' \<Longrightarrow> managed_step M MS cfg E (s, t) (s, t')"

lemma managed_life:
  "(managed_step M MS cfg E)\<^sup>*\<^sup>* x y \<Longrightarrow> (relayer_step M MS cfg)\<^sup>*\<^sup>* (fst x) (fst y)"
proof (induction rule: rtranclp_induct)
  case (step y z)
  have "fst z = fst y \<or> relayer_step M MS cfg (fst y) (fst z)" using step.hyps(2) by cases auto
  then show ?case using step.IH by (metis rtranclp.rtrancl_into_rtrancl)
qed simp

lemma managed_txm:
  "(managed_step M MS cfg E)\<^sup>*\<^sup>* x y \<Longrightarrow> (txm_step E)\<^sup>*\<^sup>* (snd x) (snd y)"
proof (induction rule: rtranclp_induct)
  case (step y z)
  have "snd z = snd y \<or> txm_step E (snd y) (snd z)"
    using step.hyps(2) unfolding txm_step_parties by cases auto
  then show ?case using step.IH by (metis rtranclp.rtrancl_into_rtrancl)
qed simp

lemma reachable_steps: "(txm_step E)\<^sup>*\<^sup>* t t' \<Longrightarrow> reachable E t \<Longrightarrow> reachable E t'"
  by (induction rule: rtranclp_induct) (auto intro: reachable.step)

subsection \<open>After the end\<close>

lemma relayer_over_step:
  assumes "once_laws M ph" and "services_inv ph s" and "ph (rel_StateMachine s) = Over" and "relayer_step M MS cfg s s'"
  shows "s' = s"
  using assms(4)
proof cases
  case (start err)
  then show ?thesis using relayer_Start_again [OF assms(1), of s MS cfg] assms(3) by auto
next
  case (close err)
  then show ?thesis using relayer_Close_idle [OF assms(1), of s MS] assms(3) by auto
next
  case (txm_works g)
  then show ?thesis using assms(2,3) drained_step by (auto simp: services_inv_def)
next
  case (bm_works g)
  then show ?thesis using assms(2,3) drained_step by (auto simp: services_inv_def)
qed

lemma over_not_working:
  assumes "services_inv ph s" and "ph (rel_StateMachine s) = Over"
  shows "\<not> working i s"
  using assms by (auto simp: services_inv_def drained_def ended_def list_all_length working_def)

lemma over_steps:
  assumes "once_laws M ph" and "services_inv ph s" and "ph (rel_StateMachine s) = Over"
    and "(managed_step M MS cfg E)\<^sup>*\<^sup>* (s, t) y"
  shows "fst y = s \<and> (outside_step E)\<^sup>*\<^sup>* t (snd y)"
  using assms(4)
proof (induction rule: rtranclp_induct)
  case (step y z)
  have y: "fst y = s" "(outside_step E)\<^sup>*\<^sup>* t (snd y)" using step.IH by simp_all
  from step.hyps(2) show ?case
    by cases (use y relayer_over_step [OF assms(1-3)] over_not_working [OF assms(2,3)] in
      \<open>auto intro: rtranclp.rtrancl_into_rtrancl\<close>)
qed simp

text \<open>What the outside does: new transactions become pending, the others stay as they are.\<close>

lemma outside_frozen:
  assumes "(outside_step E)\<^sup>*\<^sup>* t t'" and "reachable E t"
  shows "reachable E t' \<and> (\<forall>k. account_status (state_of t') k = account_status (state_of t) k
    \<or> account_status (state_of t) k = None \<and> account_status (state_of t') k = Some Pending)"
  using assms(1)
proof (induction rule: rtranclp_induct)
  case base
  show ?case using assms(2) by simp
next
  case (step u v)
  have r: "reachable E v" using step reachable.step txm_step_parties by blast
  have "\<forall>k. account_status (state_of v) k = account_status (state_of u) k
    \<or> account_status (state_of u) k = None \<and> account_status (state_of v) k = Some Pending"
    using step.hyps(2)
  proof cases
    case (Tick w)
    then show ?thesis by (simp add: state_of_def)
  next
    case (Enqueues req err)
    have "txm_inv E u" using step.IH reachable_inv by blast
    from Enqueue_ok [OF this Enqueues(1)] Enqueues(2)
    show ?thesis by (auto simp: untouched_def submitted_def simp del: account_status.simps split: if_splits)
  qed
  then show ?case using step.IH r by (metis option.distinct(1))
qed

subsection \<open>The closed manager\<close>

text \<open>
  C10. Safety: once the relayer's \<open>Close\<close> has returned without an error, no run of the
  whole system does anything more with a transaction. The goroutines have all returned, nothing starts
  them again, and only \<open>Enqueue\<close> still changes the manager: it accepts new transactions, which are pending
  and stay so, and whatever has a status at some moment has the same one at every later moment.
\<close>

theorem closed_manager_frozen:
  assumes "once_laws M ph" and "multi_laws MS" and "0 < ReapInterval cfg" and "ph m = Unstarted"
    and run: "(managed_step M MS cfg E)\<^sup>*\<^sup>* (new_services m, New w) (s, t)"
    and closed: "relayer_Close M MS s = Returns (s', None)"
    and later: "(managed_step M MS cfg E)\<^sup>*\<^sup>* (s', t) (s1, t1)" "(managed_step M MS cfg E)\<^sup>*\<^sup>* (s1, t1) (s2, t2)"
  shows "s2 = s' \<and> (outside_step E)\<^sup>*\<^sup>* t t2
    \<and> (\<forall>k v. account_status (state_of t1) k = Some v \<longrightarrow> account_status (state_of t2) k = Some v)
    \<and> (\<forall>k. account_status (state_of t2) k = account_status (state_of t) k
        \<or> account_status (state_of t) k = None \<and> account_status (state_of t2) k = Some Pending)"
proof -
  have "services_inv ph (new_services m)" using assms(4) by (simp add: services_inv_def new_services_def)
  from services_inv_steps [OF assms(1-3) _ this] managed_life [OF run] have inv: "services_inv ph s" by simp
  have "ph (rel_StateMachine s) = Started"
    using relayer_Close_idle [OF assms(1), of s MS] closed by (cases "ph (rel_StateMachine s)") auto
  then have over: "services_inv ph s'" "ph (rel_StateMachine s') = Over"
    using relayer_closes_services [OF assms(1,2) inv] closed by auto
  have one: "s1 = s'" "(outside_step E)\<^sup>*\<^sup>* t t1" using over_steps [OF assms(1) over later(1)] by simp_all
  have two: "s2 = s'" "(outside_step E)\<^sup>*\<^sup>* t1 t2" using over_steps [OF assms(1) over later(2) [unfolded one(1)]] by simp_all
  have "reachable E t" using reachable_steps [OF _ reachable.start] managed_txm [OF run] by simp
  from outside_frozen [OF one(2) this] have "reachable E t1" by blast
  from outside_frozen [OF two(2) this]
  have "\<forall>k v. account_status (state_of t1) k = Some v \<longrightarrow> account_status (state_of t2) k = Some v"
    by (metis option.distinct(1))
  moreover have both: "(outside_step E)\<^sup>*\<^sup>* t t2" using one(2) two(2) by (rule rtranclp_trans)
  ultimately show ?thesis using two(1) outside_frozen [OF both \<open>reachable E t\<close>] by blast
qed

text \<open>A relayer that is started and closed still accepts a transaction, which then stays pending.\<close>

theorem closed_manager_frozen_witness:
  "\<exists>s s'. relayer_Start sample_machine sample_multi default_txm (new_services Unstarted) = Returns (s, None)
    \<and> relayer_Close sample_machine sample_multi s = Returns (s', None)
    \<and> Enqueue (good_env ''SUCCESS'') (sample_request ''x'') (New 0) = Done (enqueued_state, None)
    \<and> (\<forall>s2 t2. (managed_step sample_machine sample_multi default_txm (good_env ''SUCCESS''))\<^sup>*\<^sup>* (s', enqueued_state) (s2, t2)
        \<longrightarrow> account_status (state_of t2) sample_key = Some Pending)"
proof -
  let ?E = "good_env ''SUCCESS''"
  let ?step = "managed_step sample_machine sample_multi default_txm ?E"
  have pos: "0 < ReapInterval default_txm" by (simp add: default_txm_def nanos_per_second_def)
  obtain s where s: "relayer_Start sample_machine sample_multi default_txm (new_services Unstarted) = Returns (s, None)"
    using sample_start by simp
  have run: "?step\<^sup>*\<^sup>* (new_services Unstarted, New 0) (s, New 0)"
    using managed_step.life [OF relayer_step.start [OF s]] by blast
  have inv: "services_inv (\<lambda>m. m) (new_services Unstarted)" by (simp add: services_inv_def new_services_def)
  have at: "services_inv (\<lambda>m. m) s" "rel_StateMachine s = Started"
    using relayer_starts_services [OF sample_once sample_multi_laws pos inv] s by (auto simp: new_services_def)
  then obtain s' where s': "relayer_Close sample_machine sample_multi s = Returns (s', None)"
    using relayer_closes_services [OF sample_once sample_multi_laws at(1)] by auto
  have "outside_step ?E (New 0) enqueued_state"
    using good_enqueue by (intro outside_step.Enqueues [of _ "sample_request ''x''"]) (simp_all add: uuid_fresh_def sample_request_def)
  then have one: "?step\<^sup>*\<^sup>* (s', New 0) (s', enqueued_state)" by (blast intro: managed_step.outside)
  have pending: "account_status (state_of enqueued_state) sample_key = Some Pending"
    using enqueued_status by (simp add: state_of_def enqueued_state_def sample_key_def del: account_status.simps)
  have "account_status (state_of t2) sample_key = Some Pending"
    if "?step\<^sup>*\<^sup>* (s', enqueued_state) (s2, t2)" for s2 t2
    using closed_manager_frozen [OF sample_once sample_multi_laws pos refl run s' one that] pending by blast
  then show ?thesis using s s' good_enqueue by blast
qed

end
