(* ===== verification/Txm_Tick.thy ===== *)
theory Txm_Tick
  imports Txm_Node Txm_Stuck
begin

text \<open>
  A whole tick of the confirm loop (\<open>confirmLoop\<close> of relayer/txm/txm.go) on nodes whose answers do not change
  while it runs: what it makes of every transaction, as a function of the statuses before it.
\<close>

subsection \<open>What one look leaves alone\<close>

definition inflight_in :: "account_state \<Rightarrow> string \<Rightarrow> InflightTx \<Rightarrow> bool" where
  "inflight_in st a p \<longleftrightarrow> unconfirmed_in st a p \<or> confirmed_in st a p"

definition keeps_others :: "'w Env \<Rightarrow> string \<times> string \<Rightarrow> 'w txm \<Rightarrow> 'w txm \<Rightarrow> bool" where
  "keeps_others E k t t' \<longleftrightarrow> (\<forall>r. key E (objects t r) \<noteq> k \<longrightarrow> objects t' r = objects t r)
     \<and> (\<forall>a p. inflight_in (state_of t') a p \<longrightarrow> inflight_in (state_of t) a p)"

text \<open>A call that moves the entry of one ID: it writes to the object of that entry only, and adds none in flight.\<close>

definition entry_in :: "TxStore \<Rightarrow> string \<Rightarrow> InflightTx \<Rightarrow> bool" where
  "entry_in s i p \<longleftrightarrow> unconfirmedTxs s i = Some p \<or> confirmedTxs s i = Some p"

definition moves_entry :: "string \<Rightarrow> (store_state \<Rightarrow> store_state \<times> 'e) \<Rightarrow> bool" where
  "moves_entry i f \<longleftrightarrow> (\<forall>h s h' s' e. f (h, s) = ((h', s'), e) \<longrightarrow>
     (h' = h \<or> (\<exists>p S. entry_in s i p \<and> h' = set_State (inf_Tx p) S h))
     \<and> (\<forall>j p. entry_in s' j p \<longrightarrow> entry_in s j p))"

lemma moves_entry_ops:
  "moves_entry i (OnConfirmed i)" "moves_entry i (OnErrored now i)" "moves_entry i (OnFatalError now i)"
  "moves_entry i (OnReorg i)" "moves_entry i (OnFinalized now i)"
  by (auto simp: moves_entry_def entry_in_def OnConfirmed_def OnErrored_def OnFatalError_def OnReorg_def OnFinalized_def
      map_delete_apply split: option.splits if_splits)

lemma inflight_entry:
  "inflight_in (h, c) a p \<longleftrightarrow> (\<exists>s. store c a = Some s \<and> entry_in s (ID (h (inf_Tx p))) p)"
  by (auto simp: inflight_in_def unconfirmed_in_def confirmed_in_def entry_in_def)

lemma entry_key:
  assumes "txm_inv E t" and "store (accounts t) a = Some s" and "entry_in s i p"
  shows "key E (objects t (inf_Tx p)) = (a, i)"
proof -
  note I = txm_invD(1) [OF assms(1)]
  have "inf_Tx p \<in> store_refs s" "ID (objects t (inf_Tx p)) = i"
    using assms(3) unconfirmed_facts(1) [OF account_invD(1) [OF I assms(2)]] confirmed_facts(1) [OF account_invD(1) [OF I assms(2)]]
    by (auto simp: entry_in_def dest: store_refs_entry)
  then show ?thesis using account_invD(2) [OF I assms(2)] by (simp add: key_def owned_by_def)
qed

lemma moves_entry_keeps:
  assumes inv: "txm_inv E t" and f: "moves_entry i f"
  shows "keeps_others E (a, i) t (fst (with_store a f t))"
proof -
  obtain c s where G: "GetTxStore a (accounts t) = (c, s)" by fastforce
  obtain h' s' e where r: "f (objects t, s) = ((h', s'), e)" by (metis prod.exhaust)
  have res: "state_of (fst (with_store a f t)) = (h', c\<lparr>store := (store c)(a \<mapsto> s')\<rparr>)"
    using G r by (simp add: with_store_def on_store_def put_store_def state_of_def)
  have old: "entry_in s j p \<Longrightarrow> store (accounts t) a = Some s" for j p
    using G by (auto simp: GetTxStore_def entry_in_def NewTxStore_def split: option.splits)
  have other: "b \<noteq> a \<Longrightarrow> store c b = store (accounts t) b" for b
    using G by (auto simp: GetTxStore_def split: option.splits)
  have h': "h' = objects t \<or> (\<exists>p S. entry_in s i p \<and> h' = set_State (inf_Tx p) S (objects t))"
    and s': "\<And>j p. entry_in s' j p \<Longrightarrow> entry_in s j p"
    using f r unfolding moves_entry_def by blast+
  have obj: "objects (fst (with_store a f t)) = h'" using res by (simp add: state_of_def)
  have "h' q = objects t q" if "key E (objects t q) \<noteq> (a, i)" for q
    using h' that entry_key [OF inv old] by (auto simp: set_State_def)
  moreover have "ID (h' q) = ID (objects t q)" for q using h' by (auto simp: set_State_def)
  then have "inflight_in (state_of t) b p" if "inflight_in (h', c\<lparr>store := (store c)(a \<mapsto> s')\<rparr>) b p" for b p
    using that s' [of "ID (objects t (inf_Tx p))" p] old [of "ID (objects t (inf_Tx p))" p] other
    by (cases "b = a") (auto simp: inflight_entry state_of_def)
  ultimately show ?thesis by (simp add: keeps_others_def obj res)
qed

lemma keeps_world [simp]:
  "keeps_others E k (t\<lparr>world := w\<rparr>) t' = keeps_others E k t t'"
  "keeps_others E k t (t'\<lparr>world := w\<rparr>) = keeps_others E k t t'"
  by (simp_all add: keeps_others_def state_of_def)

lemma keeps_refl [simp]: "keeps_others E k t t"
  by (simp add: keeps_others_def)

lemma keeps_try_send [simp]: "keeps_others E k t (fst (try_send E r t')) = keeps_others E k t t'"
  by (simp add: keeps_others_def state_of_def)

lemma retry_keeps:
  assumes inv: "txm_inv E t" and p: "unconfirmed_in (state_of t) a p" and run: "maybeRetry E a p b oo t = Done t'"
  shows "keeps_others E (a, ID (objects t (inf_Tx p))) t t'"
proof (cases "5 \<le> Attempt (objects t (inf_Tx p)) \<or> 2 \<le> OutOfTimeErrors (objects t (inf_Tx p))")
  case True
  obtain w now where n: "time_Now E (world t) = (w, now)" by fastforce
  have "keeps_others E (a, i) (t\<lparr>world := w\<rparr>) (fst (with_store a (OnErrored now i) (t\<lparr>world := w\<rparr>)))" for i
    by (rule moves_entry_keeps) (use inv moves_entry_ops in auto)
  then show ?thesis using True run n by (auto simp: maybeRetry_def Let_def MAX_RETRY_ATTEMPTS_def errored_def split: if_splits)
next
  case False
  let ?h = "(objects t)(inf_Tx p := bump_tx b oo (objects t (inf_Tx p)))" and ?i = "ID (objects t (inf_Tx p))"
  obtain c s where s: "store (accounts t) a = Some s" "store c = (store (accounts t))(a \<mapsto> retried ?i p s)"
    "with_store_outcome a (OnPending (inf_Tx p) True) (t\<lparr>objects := ?h\<rparr>) = Done (t\<lparr>objects := ?h, accounts := c\<rparr>, None)"
    using retry_ok [OF inv p, of b oo] False by (auto simp: not_le)
  have t': "t' = fst (try_send E (inf_Tx p) (t\<lparr>objects := ?h, accounts := c\<rparr>))"
    using run s(3) False by (auto simp: maybeRetry_def MAX_RETRY_ATTEMPTS_def Let_def)
  have "inflight_in (state_of t) d q" if "inflight_in (?h, c) d q" for d q
  proof -
    have "ID (?h (inf_Tx q)) = ID (objects t (inf_Tx q))" by (simp add: bump_tx_def)
    then show ?thesis using that s(1,2)
      by (cases "d = a") (auto simp: inflight_entry state_of_def entry_in_def retried_def split: if_splits)
  qed
  then show ?thesis using unconfirmed_key(1) [OF inv p] unfolding t' keeps_try_send
    by (auto simp: keeps_others_def state_of_def)
qed

lemma check_one_keeps:
  assumes inv: "txm_inv E t" and p: "unconfirmed_in (state_of t) a p" and run: "check_one E a ts p t = Done t'"
  shows "keeps_others E (a, ID (objects t (inf_Tx p))) t t'"
proof -
  obtain w info err where g: "GetTransactionInfoByIdFullNode (client E) (inf_Hash p) (world t) = Done (w, info, err)"
    using run by (auto simp: check_one_def outcome_bind_eq_Done)
  let ?u = "t\<lparr>world := w\<rparr>" and ?k = "(a, ID (objects t (inf_Tx p)))"
  have u: "txm_inv E ?u" "unconfirmed_in (state_of ?u) a p" using inv p by (simp_all add: state_of_def)
  have retry: "maybeRetry E a p b oo ?u = Done t' \<Longrightarrow> keeps_others E ?k t t'" for b oo
    using retry_keeps [OF u] by simp
  have move: "moves_entry (ID (objects t (inf_Tx p))) f \<Longrightarrow> keeps_others E ?k t (fst (with_store a f (t\<lparr>world := v\<rparr>)))"
    for f :: "store_state \<Rightarrow> store_state \<times> store_error option" and v
    using moves_entry_keeps [of E "t\<lparr>world := v\<rparr>" _ f a] inv by simp
  have result: "check_result E a p r ?u = Done t' \<Longrightarrow> keeps_others E ?k t t'" for r
    using retry move [OF moves_entry_ops(1)] move [OF moves_entry_ops(3)] by (auto simp: check_result_def Let_def split: if_splits prod.splits)
  show ?thesis
    using run retry result unfolding check_one_def g unconfirmed_in_touch [OF u(2)] outcome_bind.simps
    by (auto simp: unconfirmed_in_touch [OF u(2)] Let_def split: option.splits if_splits)
qed

lemma finalize_one_keeps:
  assumes inv: "txm_inv E t" and run: "finalize_one E a p t = Done t'"
  shows "keeps_others E (a, ID (objects t (inf_Tx p))) t t'"
proof -
  have move: "moves_entry (ID (objects t (inf_Tx p))) f \<Longrightarrow>
    keeps_others E (a, ID (objects t (inf_Tx p))) t (fst (with_store a f (t\<lparr>world := v\<rparr>)))" for f :: "store_state \<Rightarrow> store_state \<times> store_error option"
    and v
    using moves_entry_keeps [of E "t\<lparr>world := v\<rparr>" _ f a] inv by simp
  note m = move [OF moves_entry_ops(4)] move [OF moves_entry_ops(5)]
  from run show ?thesis
    by (auto simp: finalize_one_def Let_def outcome_bind_eq_Done m split_beta split: if_splits)
qed

subsection \<open>One look, on steady nodes\<close>

text \<open>
  The nodes are steady in the worlds \<open>W\<close>, which neither they nor the clock leave, when their answers are the
  same in all of them: the time of the full node's latest block (\<open>None\<close> when no block with its raw data
  comes back), the result it has for a transaction (\<open>None\<close> when it knows none), and whether the solidity
  node knows it.
\<close>

definition head_time :: "'w Http \<Rightarrow> 'w \<Rightarrow> int64 option" where
  "head_time F w = (case sol_GetNowBlock F w of
     Done (_, Some b, None) \<Rightarrow> map_option bh_Timestamp (Option.bind (BlockHeader_of b) bh_RawData)
   | _ \<Rightarrow> None)"

definition steady ::
  "'w Env \<Rightarrow> 'w Http \<Rightarrow> 'w Http \<Rightarrow> 'w set \<Rightarrow> int64 option \<Rightarrow> (string \<Rightarrow> string option) \<Rightarrow> (string \<Rightarrow> bool) \<Rightarrow> bool" where
  "steady E F S W ts res solid \<longleftrightarrow> (\<forall>w \<in> W. head_time F w = ts \<and> fst (get_getnowblock F () w) \<in> W
     \<and> fst (time_Now E w) \<in> W \<and> (\<forall>d. time_Sleep E d w \<in> W)
     \<and> (\<forall>x. info_result (snd (tx_info F x w)) = res x \<and> fst (tx_info F x w) \<in> W)
     \<and> (\<forall>x. reports S x w = solid x \<and> fst (tx_info S x w) \<in> W))"

lemma steadyD:
  assumes "steady E F S W ts res solid" and "w \<in> W"
  shows "head_time F w = ts" "fst (get_getnowblock F () w) \<in> W" "fst (time_Now E w) \<in> W" "time_Sleep E d w \<in> W"
    "info_result (snd (tx_info F x w)) = res x" "asked F x w \<in> W" "reports S x w = solid x" "asked S x w \<in> W"
    "reports F x w \<longleftrightarrow> res x \<noteq> None"
  using assms by (simp_all add: steady_def asked_def reports_def)

lemma steady_known:
  assumes st: "steady E F S W ts res solid" and w: "w \<in> W"
  shows "known E F S x w \<longleftrightarrow> solid x \<or> res x \<noteq> None"
proof -
  have "v \<in> W \<Longrightarrow> seen_later E F x n v \<Longrightarrow> res x \<noteq> None" for n v
  proof (induction n arbitrary: v)
    case (Suc n)
    then show ?case using steadyD(4,6,9) [OF st] Suc.IH [of "asked F x (time_Sleep E REORG_RETRY_DELAY v)"] by (auto simp: Let_def)
  qed simp
  from this [of "asked F x (asked S x w)" REORG_RETRY_COUNT] show ?thesis
    using steadyD(6,7,8,9) [OF st] w by (auto simp: known_def Let_def)
qed

text \<open>The passes stay in these worlds.\<close>

lemma world_simps [simp]:
  "world (fst (with_store a f t)) = world t" "world (fst (try_send E r t)) = world t"
  by (simp_all add: with_store_def try_send_def split: prod.splits)

lemma world_outcome: "with_store_outcome a f t = Done (t', e) \<Longrightarrow> world t' = world t"
  by (auto simp: with_store_outcome_def outcome_bind_eq_Done)

lemma lookup_asked: "sol_GetTransactionInfoById H x w = Done (w', r, e) \<Longrightarrow> w' = asked H x w"
  by (auto simp: sol_info_result asked_def)

lemma retry_world:
  assumes st: "steady E F S W ts res solid" and w: "world t \<in> W" and run: "maybeRetry (on_nodes E F S) a p b oo t = Done t'"
  shows "world t' \<in> W"
proof -
  have "world (errored (on_nodes E F S) a i t) \<in> W" for i
    using steadyD(3) [OF st w] by (simp add: errored_def split_beta)
  then show ?thesis using run w
    by (auto simp: maybeRetry_def Let_def outcome_bind_eq_Done dest!: world_outcome split: if_splits)
qed

lemma check_one_world:
  assumes st: "steady E F S W ts res solid" and w: "world t \<in> W" and run: "check_one (on_nodes E F S) a now p t = Done t'"
  shows "world t' \<in> W"
proof -
  obtain r e where g: "sol_GetTransactionInfoById F (inf_Hash p) (world t) = Done (asked F (inf_Hash p) (world t), r, e)"
    using lookup_reports [of F "inf_Hash p" "world t"] by blast
  let ?u = "touch_store a (t\<lparr>world := asked F (inf_Hash p) (world t)\<rparr>)"
  have u: "world ?u \<in> W" using steadyD(6) [OF st w] by simp
  note retry = retry_world [OF st u]
  have result: "check_result (on_nodes E F S) a p v ?u = Done t' \<Longrightarrow> world t' \<in> W" for v
    using retry u steadyD(3) [OF st u] by (auto simp: check_result_def Let_def split_beta split: if_splits)
  show ?thesis using run retry result u
    by (auto simp: check_one_def NewCombinedClient_def g Let_def split: option.splits if_splits)
qed

lemma finalize_one_world:
  assumes st: "steady E F S W ts res solid" and w: "world t \<in> W" and run: "finalize_one (on_nodes E F S) a p t = Done t'"
  shows "world t' \<in> W"
proof -
  let ?E = "on_nodes E F S"
  have retries: "v \<in> W \<Longrightarrow> reorg_retries ?E x n v = Done (v', b) \<Longrightarrow> v' \<in> W" for x n v v' b
  proof (induction n arbitrary: v)
    case (Suc n)
    then show ?case using steadyD(4,6) [OF st] Suc.IH [of "asked F x (time_Sleep E REORG_RETRY_DELAY v)"]
      by (auto simp: NewCombinedClient_def outcome_bind_eq_Done dest!: lookup_asked split: if_splits)
  qed simp
  have "gone ?E x v = Done (v', b) \<Longrightarrow> v \<in> W \<Longrightarrow> v' \<in> W" for x v v' b
    using steadyD(6,8) [OF st] retries [of "asked F x (asked S x v)" x REORG_RETRY_COUNT v' b]
    by (auto simp: gone_def checkReorged_def NewCombinedClient_def outcome_bind_eq_Done dest!: lookup_asked split: if_splits)
  then show ?thesis using run w steadyD(3) [OF st]
    by (fastforce simp: finalize_one_def Let_def outcome_bind_eq_Done split_beta split: if_splits)
qed

subsection \<open>One look, on steady nodes\<close>

text \<open>What an event makes of a transaction that was broadcast.\<close>

definition broadcast_then :: "lifecycle_event option \<Rightarrow> TxState" where
  "broadcast_then ev = (case ev of
     None \<Rightarrow> Broadcasted
   | Some e \<Rightarrow> (case lifecycle e (Some Broadcasted) of Some (Some s) \<Rightarrow> s | _ \<Rightarrow> Broadcasted))"

definition settles :: "'w Env \<Rightarrow> string \<Rightarrow> string \<Rightarrow> TxState \<Rightarrow> 'w txm \<Rightarrow> 'w txm \<Rightarrow> bool" where
  "settles E a i v t t' \<longleftrightarrow> txm_inv E t' \<and> only_touches a i (state_of t) (state_of t')
     \<and> account_status (state_of t') = (account_status (state_of t))((a, i) \<mapsto> v) \<and> keeps_others E (a, i) t t'"

lemma verdict_moves: "verdict tx r \<in> {Confirm, Retry, Fail, Fatal}"
  by (simp add: verdict_def retry_event_def)

lemma check_one_settles:
  assumes st: "steady E F S W ts res solid" and w: "world t \<in> W"
    and inv: "txm_inv (on_nodes E F S) t" and p: "unconfirmed_in (state_of t) a p"
  shows "\<exists>t'. check_one (on_nodes E F S) a now p t = Done t' \<and> world t' \<in> W
    \<and> settles (on_nodes E F S) a (ID (objects t (inf_Tx p)))
        (broadcast_then (decides now p (objects t (inf_Tx p)) (res (inf_Hash p)))) t t'"
proof -
  let ?E = "on_nodes E F S" and ?i = "ID (objects t (inf_Tx p))" and ?ev = "decides now p (objects t (inf_Tx p)) (res (inf_Hash p))"
  obtain v inf err where r: "GetTransactionInfoByIdFullNode (client ?E) (inf_Hash p) (world t) = Done (v, inf, err)"
    "err = None \<longrightarrow> inf \<noteq> None"
    using nodes.info_full [of E F S "inf_Hash p"] unfolding call_ok_def by blast
  have ev: "?ev = node_verdict now p (objects t (inf_Tx p)) (inf, err)"
    using node_verdict_decides [OF r(1)] steadyD(5) [OF st w] by simp
  obtain t' where t': "check_one ?E a now p t = Done t'" "reported ?ev ?E a ?i t t'"
    using check_one_reported [OF inv p r, of now] unfolding ev by blast
  have k: "account_status (state_of t) (a, ?i) = Some Broadcasted" by (rule unconfirmed_key(2) [OF inv p])
  have "?ev = None \<or> ?ev = Some Confirm \<or> ?ev = Some Retry \<or> ?ev = Some Fail \<or> ?ev = Some Fatal"
    using verdict_moves by (auto simp: decides_def retry_event_def split: option.splits)
  then have "account_status (state_of t') = (account_status (state_of t))((a, ?i) \<mapsto> broadcast_then ?ev)"
    using t'(2) k by (auto simp: reported_def checked_def broadcast_then_def spec_status_def fun_upd_idem
      simp del: account_status.simps)
  then show ?thesis using t' reported_ok [OF t'(2)] check_one_keeps [OF inv p t'(1)] check_one_world [OF st w t'(1)]
    by (simp add: settles_def)
qed

lemma finalize_one_settles:
  assumes st: "steady E F S W ts res solid" and w: "world t \<in> W"
    and inv: "txm_inv (on_nodes E F S) t" and p: "confirmed_in (state_of t) a p"
  shows "\<exists>t'. finalize_one (on_nodes E F S) a p t = Done t' \<and> world t' \<in> W
    \<and> settles (on_nodes E F S) a (ID (objects t (inf_Tx p)))
        (if solid (inf_Hash p) \<or> res (inf_Hash p) \<noteq> None then Finalized else Pending) t t'"
proof -
  let ?E = "on_nodes E F S" and ?i = "ID (objects t (inf_Tx p))"
  obtain v where g: "gone ?E (inf_Hash p) (world t) = Done (v, \<not> known E F S (inf_Hash p) (world t))"
    using gone_known [of E F S "inf_Hash p" "world t"] by (elim exE)
  obtain t' where t': "finalize_one ?E a p t = Done t'"
    "checked ?E a ?i (if \<not> known E F S (inf_Hash p) (world t) then Reorg else Finalize) t t'"
    using finalize_one_checked [OF inv p g] by blast
  have "account_status (state_of t) (a, ?i) = Some Confirmed" by (rule confirmed_key(2) [OF inv p])
  then show ?thesis using t' finalize_one_keeps [OF inv t'(1)] finalize_one_world [OF st w t'(1)]
    by (simp add: settles_def checked_def spec_status_def steady_known [OF st w] del: account_status.simps)
qed

subsection \<open>A pass over a snapshot\<close>

definition visited :: "(string \<times> InflightTx list) list \<Rightarrow> 'w txm \<Rightarrow> string \<times> string \<Rightarrow> InflightTx \<Rightarrow> bool" where
  "visited xs t k p \<longleftrightarrow> (\<exists>ps. (fst k, ps) \<in> set xs \<and> p \<in> set ps) \<and> snd k = ID (objects t (inf_Tx p))"

definition passes :: "'w Env \<Rightarrow> (InflightTx \<Rightarrow> TronTx \<Rightarrow> TxState) \<Rightarrow> (string \<times> InflightTx list) list \<Rightarrow> 'w txm \<Rightarrow> 'w txm \<Rightarrow> bool" where
  "passes E v xs t t' \<longleftrightarrow> txm_inv E t'
     \<and> (\<forall>k p. visited xs t k p \<longrightarrow> account_status (state_of t') k = Some (v p (objects t (inf_Tx p))))
     \<and> (\<forall>k. (\<nexists>p. visited xs t k p) \<longrightarrow> account_status (state_of t') k = account_status (state_of t) k)
     \<and> (\<forall>a p. inflight_in (state_of t') a p \<longrightarrow> inflight_in (state_of t) a p)
     \<and> (\<forall>r. ID (objects t' r) = ID (objects t r))"

lemma visited_Cons: "visited ((a, p # ps) # xs) t k q \<longleftrightarrow> q = p \<and> k = (a, ID (objects t (inf_Tx p))) \<or> visited ((a, ps) # xs) t k q"
  by (cases k) (auto simp: visited_def)

lemma visited_Nil: "visited ((a, []) # xs) t = visited xs t" "\<not> visited [] t k p"
  by (auto simp: visited_def fun_eq_iff)

lemma passes_Nil: "passes E v [] t t \<longleftrightarrow> txm_inv E t"
  by (simp add: passes_def visited_Nil)

lemma passes_skip: "passes E v ((a, []) # xs) t t' = passes E v xs t t'"
  by (simp add: passes_def visited_Nil)

lemma passes_world: "passes E v xs (t\<lparr>world := w\<rparr>) t' = passes E v xs t t'"
  by (simp add: passes_def visited_def state_of_def)

lemma passes_still:
  assumes P: "passes E v xs t t'"
    and still: "\<And>k p. visited ((a, ps) # xs) t k p \<Longrightarrow> account_status (state_of t) k = Some (v p (objects t (inf_Tx p)))"
  shows "passes E v ((a, ps) # xs) t t'"
proof -
  have sub: "visited xs t k p \<Longrightarrow> visited ((a, ps) # xs) t k p" for k p by (auto simp: visited_def)
  have "account_status (state_of t') k = Some (v p (objects t (inf_Tx p)))" if vis: "visited ((a, ps) # xs) t k p" for k p
  proof (cases "\<exists>q. visited xs t k q")
    case True
    then obtain q where q: "visited xs t k q" ..
    then have "account_status (state_of t') k = Some (v q (objects t (inf_Tx q)))" using P unfolding passes_def by blast
    then show ?thesis using still [OF sub [OF q]] still [OF vis] by simp
  next
    case False
    then have "account_status (state_of t') k = account_status (state_of t) k" using P unfolding passes_def by blast
    then show ?thesis using still [OF vis] by simp
  qed
  then show ?thesis using P sub unfolding passes_def by blast
qed

definition keyed :: "'w Env \<Rightarrow> (account_state \<Rightarrow> string \<Rightarrow> InflightTx \<Rightarrow> bool) \<Rightarrow> bool" where
  "keyed E tab \<longleftrightarrow> in_table tab \<and> (\<forall>t a p. txm_inv E t \<longrightarrow> tab (state_of t) a p \<longrightarrow>
     key E (objects t (inf_Tx p)) = (a, ID (objects t (inf_Tx p))))"

lemma keyed_tables: "keyed E unconfirmed_in" "keyed E confirmed_in"
  using in_table_unconfirmed in_table_confirmed unconfirmed_key(1) confirmed_key(1) by (auto simp: keyed_def)

lemma todo_key:
  assumes "keyed E tab" and "todo E tab xs t" and "visited xs t k p"
  shows "key E (objects t (inf_Tx p)) = k"
  using assms by (cases k) (auto simp: keyed_def todo_def visited_def)

text \<open>The entries still to come are as they were before the look at the first one.\<close>

lemma settles_todo:
  assumes kd: "keyed E tab" and td: "todo E tab ((a, p # ps) # xs) t"
    and s: "settles E a (ID (objects t (inf_Tx p))) v t t1"
  shows "todo E tab ((a, ps) # xs) t1"
    and "visited ((a, ps) # xs) t1 k q \<longleftrightarrow> visited ((a, ps) # xs) t k q"
    and "visited ((a, ps) # xs) t k q \<Longrightarrow> k \<noteq> (a, ID (objects t (inf_Tx p))) \<and> objects t1 (inf_Tx q) = objects t (inf_Tx q)"
proof -
  have touch: "only_touches a (ID (objects t (inf_Tx p))) (state_of t) (state_of t1)" and inv: "txm_inv E t1"
    and keep: "keeps_others E (a, ID (objects t (inf_Tx p))) t t1"
    using s by (simp_all add: settles_def)
  have id: "ID (objects t1 r) = ID (objects t r)" for r using only_touches_ID [OF touch] by (simp add: state_of_def)
  show same: "visited ((a, ps) # xs) t1 k q \<longleftrightarrow> visited ((a, ps) # xs) t k q" for k q by (simp add: visited_def id)
  have other: "k \<noteq> (a, ID (objects t (inf_Tx p)))" if "visited ((a, ps) # xs) t k q" for k q
  proof
    assume k: "k = (a, ID (objects t (inf_Tx p)))"
    have "distinct (snapshot_ids (objects t) (p # ps))" "a \<notin> fst ` set xs" using td by (auto simp: todo_def)
    then show False using that k by (force simp: visited_def snapshot_ids_def)
  qed
  have "tab (state_of t1) b q" if "(b, qs) \<in> set ((a, ps) # xs)" "q \<in> set qs" for b qs q
  proof -
    have "visited ((a, ps) # xs) t (b, ID (objects t (inf_Tx q))) q" using that by (auto simp: visited_def)
    from other [OF this] have "(b, ID (fst (state_of t) (inf_Tx q))) \<noteq> (a, ID (objects t (inf_Tx p)))" by (simp add: state_of_def)
    moreover have "tab (state_of t) b q" using td that by (auto simp: todo_def)
    ultimately show ?thesis using kd touch unfolding keyed_def in_table_def by blast
  qed
  then show "todo E tab ((a, ps) # xs) t1" using td inv by (auto simp: todo_def snapshot_ids_def id)
  show "k \<noteq> (a, ID (objects t (inf_Tx p))) \<and> objects t1 (inf_Tx q) = objects t (inf_Tx q)"
    if v: "visited ((a, ps) # xs) t k q"
  proof -
    have "visited ((a, p # ps) # xs) t k q" using v by (simp add: visited_Cons)
    from todo_key [OF kd td this] show ?thesis using other [OF v] keep by (simp add: keeps_others_def)
  qed
qed

lemma passes_step:
  assumes kd: "keyed E tab" and td: "todo E tab ((a, p # ps) # xs) t"
    and s: "settles E a (ID (objects t (inf_Tx p))) (v p (objects t (inf_Tx p))) t t1"
    and rest: "passes E v ((a, ps) # xs) t1 t'"
  shows "passes E v ((a, p # ps) # xs) t t'"
proof -
  note same = settles_todo(2) [OF kd td s] and other = settles_todo(3) [OF kd td s]
  have st: "account_status (state_of t1) = (account_status (state_of t))((a, ID (objects t (inf_Tx p))) \<mapsto> v p (objects t (inf_Tx p)))"
    and keep: "\<And>b q. inflight_in (state_of t1) b q \<Longrightarrow> inflight_in (state_of t) b q"
    and id: "\<And>r. ID (objects t1 r) = ID (objects t r)"
    using s only_touches_ID [of a _ "state_of t" "state_of t1"] by (auto simp: settles_def keeps_others_def state_of_def)
  have R: "txm_inv E t'"
    "\<And>k q. visited ((a, ps) # xs) t k q \<Longrightarrow> account_status (state_of t') k = Some (v q (objects t (inf_Tx q)))"
    "\<And>k. \<nexists>q. visited ((a, ps) # xs) t k q \<Longrightarrow> account_status (state_of t') k = account_status (state_of t1) k"
    "\<And>b q. inflight_in (state_of t') b q \<Longrightarrow> inflight_in (state_of t1) b q" "\<And>r. ID (objects t' r) = ID (objects t1 r)"
    using rest other unfolding passes_def same by (simp_all del: account_status.simps split_paired_All split_paired_Ex)
  have "\<nexists>q. visited ((a, ps) # xs) t (a, ID (objects t (inf_Tx p))) q" using other by blast
  from R(3) [OF this] have "account_status (state_of t') (a, ID (objects t (inf_Tx p))) = Some (v p (objects t (inf_Tx p)))"
    by (simp add: st del: account_status.simps)
  then show ?thesis using R keep
    by (auto simp: passes_def visited_Cons st id simp del: account_status.simps split_paired_All split_paired_Ex)
qed

lemma pass_account:
  assumes kd: "keyed E tab"
    and body: "\<And>t a p. world t \<in> W \<Longrightarrow> txm_inv E t \<Longrightarrow> tab (state_of t) a p \<Longrightarrow> \<exists>t'. body a p t = Done t' \<and> world t' \<in> W
      \<and> settles E a (ID (objects t (inf_Tx p))) (v p (objects t (inf_Tx p))) t t'"
  shows "world t \<in> W \<Longrightarrow> todo E tab ((a, ps) # xs) t \<Longrightarrow> \<exists>t1. for_range (body a) ps t = Done t1 \<and> world t1 \<in> W
    \<and> todo E tab xs t1 \<and> (\<forall>t'. passes E v xs t1 t' \<longrightarrow> passes E v ((a, ps) # xs) t t')"
proof (induction ps arbitrary: t)
  case Nil
  then show ?case by (simp add: todo_def passes_skip)
next
  case (Cons p ps)
  have "txm_inv E t" "tab (state_of t) a p" using Cons.prems(2) by (auto simp: todo_def)
  then obtain u where u: "body a p t = Done u" "world u \<in> W"
    "settles E a (ID (objects t (inf_Tx p))) (v p (objects t (inf_Tx p))) t u"
    using body [OF Cons.prems(1)] by blast
  from Cons.IH [OF u(2) settles_todo(1) [OF kd Cons.prems(2) u(3)]] show ?case
    using u(1) passes_step [OF kd Cons.prems(2), where v = v, OF u(3)] by auto
qed

lemma pass_accounts:
  assumes "\<And>a ps xs t. world t \<in> W \<Longrightarrow> todo E tab ((a, ps) # xs) t \<Longrightarrow> \<exists>t1. account_body (a, ps) t = Done t1
      \<and> world t1 \<in> W \<and> todo E tab xs t1 \<and> (\<forall>t'. passes E v xs t1 t' \<longrightarrow> passes E v ((a, ps) # xs) t t')"
  shows "world t \<in> W \<Longrightarrow> todo E tab xs t \<Longrightarrow>
    \<exists>t'. for_range account_body xs t = Done t' \<and> world t' \<in> W \<and> passes E v xs t t'"
proof (induction xs arbitrary: t)
  case Nil
  then show ?case by (simp add: todo_def passes_Nil)
next
  case (Cons x xs)
  obtain a ps where x: "x = (a, ps)" by (cases x)
  obtain t1 where t1: "account_body x t = Done t1" "world t1 \<in> W" "todo E tab xs t1"
    "\<And>t'. passes E v xs t1 t' \<Longrightarrow> passes E v (x # xs) t t'"
    using assms [of t a ps xs] Cons.prems x by blast
  show ?case using Cons.IH [OF t1(2,3)] t1(1,4) by auto
qed

subsection \<open>The two passes\<close>

definition look :: "int64 option \<Rightarrow> (string \<Rightarrow> string option) \<Rightarrow> InflightTx \<Rightarrow> TronTx \<Rightarrow> TxState" where
  "look ts res p tx = broadcast_then (Option.bind ts (\<lambda>now. decides now p tx (res (inf_Hash p))))"

definition final :: "(string \<Rightarrow> string option) \<Rightarrow> (string \<Rightarrow> bool) \<Rightarrow> InflightTx \<Rightarrow> TxState" where
  "final res solid p = (if solid (inf_Hash p) \<or> res (inf_Hash p) \<noteq> None then Finalized else Pending)"

lemma check_account_passes:
  assumes st: "steady E F S W ts res solid" and wt: "world t \<in> W" and td: "todo (on_nodes E F S) unconfirmed_in ((a, ps) # xs) t"
  shows "\<exists>t1. check_account (on_nodes E F S) (a, ps) t = Done t1 \<and> world t1 \<in> W \<and> todo (on_nodes E F S) unconfirmed_in xs t1
    \<and> (\<forall>t'. passes (on_nodes E F S) (look ts res) xs t1 t' \<longrightarrow> passes (on_nodes E F S) (look ts res) ((a, ps) # xs) t t')"
proof -
  let ?E = "on_nodes E F S"
  obtain w b err where b: "sol_GetNowBlock F (world t) = Done (w, b, err)" "err = None \<longrightarrow> b \<noteq> None"
    using sol_calls_ok(2) [of F] unfolding call_ok_def by blast
  have head: "head_time F (world t) = ts" and "fst (get_getnowblock F () (world t)) \<in> W" using steadyD(1,2) [OF st wt] .
  then have w: "w \<in> W" using b(1) by (auto simp: sol_GetNowBlock_def after_rpc_def split: prod.splits sum.splits)
  have ts: "ts = (if err = None then map_option bh_Timestamp (Option.bind (BlockHeader_of (the b)) bh_RawData) else None)"
    using b head by (auto simp: head_time_def split: option.splits)
  have tw: "todo ?E unconfirmed_in ((a, ps) # xs) (t\<lparr>world := w\<rparr>)" using td by (simp add: todo_world)
  show ?thesis
  proof (cases ts)
    case None
    have bc: "account_status (state_of t) k = Some Broadcasted" if "visited ((a, ps) # xs) t k p" for k p
    proof -
      have "unconfirmed_in (state_of t) (fst k) p" "txm_inv ?E t" using td that by (auto simp: todo_def visited_def)
      then show ?thesis using unconfirmed_key(2) that by (cases k) (auto simp: visited_def simp del: account_status.simps)
    qed
    have "passes ?E (look ts res) ((a, ps) # xs) t t'" if P: "passes ?E (look ts res) xs t t'" for t'
      by (rule passes_still [OF P]) (use bc None in \<open>simp add: look_def broadcast_then_def del: account_status.simps\<close>)
    moreover have "check_account ?E (a, ps) t = Done (t\<lparr>world := w\<rparr>)"
      using ts None b by (cases err) (auto simp: check_account_def NewCombinedClient_def split: option.splits)
    moreover have "todo ?E unconfirmed_in xs (t\<lparr>world := w\<rparr>)" using tw by (simp add: todo_def)
    ultimately show ?thesis using w by (auto simp: passes_world)
  next
    case (Some now)
    obtain y raw where y: "err = None" "b = Some y" "Option.bind (BlockHeader_of y) bh_RawData = Some raw" "bh_Timestamp raw = now"
      using ts [symmetric] Some b(2) by (cases err) auto
    have run: "check_account ?E (a, ps) t = for_range (check_one ?E a now) ps (t\<lparr>world := w\<rparr>)"
      using b(1) y by (simp add: check_account_def NewCombinedClient_def)
    have "\<exists>t1. for_range (check_one ?E a now) ps (t\<lparr>world := w\<rparr>) = Done t1 \<and> world t1 \<in> W \<and> todo ?E unconfirmed_in xs t1
      \<and> (\<forall>t'. passes ?E (look ts res) xs t1 t' \<longrightarrow> passes ?E (look ts res) ((a, ps) # xs) (t\<lparr>world := w\<rparr>) t')"
      by (rule pass_account [where body = "\<lambda>a. check_one ?E a now" and v = "look ts res", OF keyed_tables(1) _ _ tw])
        (use check_one_settles [OF st] Some w in \<open>simp_all add: look_def\<close>)
    then show ?thesis unfolding run passes_world .
  qed
qed

lemma touch_inflight: "inflight_in (state_of (touch_store a t)) b p \<Longrightarrow> inflight_in (state_of t) b p"
  by (auto simp: touch_store_def state_of_def inflight_entry GetTxStore_def entry_in_def NewTxStore_def split: option.splits if_splits)

lemma passes_touch: "passes E v xs (touch_store a t) t' \<Longrightarrow> passes E v xs t t'"
proof -
  have "visited xs (touch_store a t) = visited xs t" by (simp add: visited_def fun_eq_iff)
  then show "passes E v xs (touch_store a t) t' \<Longrightarrow> passes E v xs t t'"
    unfolding passes_def touch_store_status touch_store_fields using touch_inflight [of a t] by simp
qed

lemma finalize_account_passes:
  assumes st: "steady E F S W ts res solid" and wt: "world t \<in> W" and td: "todo (on_nodes E F S) confirmed_in ((a, ps) # xs) t"
  shows "\<exists>t1. (\<lambda>(acc, confirmedTxs) t. for_range (finalize_one (on_nodes E F S) acc) confirmedTxs (touch_store acc t)) (a, ps) t = Done t1
    \<and> world t1 \<in> W \<and> todo (on_nodes E F S) confirmed_in xs t1
    \<and> (\<forall>t'. passes (on_nodes E F S) (\<lambda>p _. final res solid p) xs t1 t'
        \<longrightarrow> passes (on_nodes E F S) (\<lambda>p _. final res solid p) ((a, ps) # xs) t t')"
proof -
  have tw: "todo (on_nodes E F S) confirmed_in ((a, ps) # xs) (touch_store a t)" by (rule todo_touch [OF in_table_confirmed td])
  have "\<exists>t1. for_range (finalize_one (on_nodes E F S) a) ps (touch_store a t) = Done t1 \<and> world t1 \<in> W
    \<and> todo (on_nodes E F S) confirmed_in xs t1
    \<and> (\<forall>t'. passes (on_nodes E F S) (\<lambda>p _. final res solid p) xs t1 t'
        \<longrightarrow> passes (on_nodes E F S) (\<lambda>p _. final res solid p) ((a, ps) # xs) (touch_store a t) t')"
    by (rule pass_account [where body = "finalize_one (on_nodes E F S)" and v = "\<lambda>p _. final res solid p",
        OF keyed_tables(2) _ _ tw])
      (use finalize_one_settles [OF st] wt in \<open>simp_all add: final_def\<close>)
  then show ?thesis using passes_touch unfolding prod.case by blast
qed

subsection \<open>The whole tick\<close>

text \<open>
  The reference: the tick as a function of the store before it. A broadcast transaction takes the edge its
  receipt and its counters decide, and is final at once when that is its confirmation.
\<close>

definition tick_status ::
  "int64 option \<Rightarrow> (string \<Rightarrow> string option) \<Rightarrow> (string \<Rightarrow> bool) \<Rightarrow> account_state \<Rightarrow> string \<times> string \<Rightarrow> TxState option" where
  "tick_status ts res solid = (\<lambda>(h, c) (a, i).
     case store c a of
       None \<Rightarrow> None
     | Some s \<Rightarrow>
         (case unconfirmedTxs s i of
            Some p \<Rightarrow> (let v = look ts res p (h (inf_Tx p)) in Some (if v = Confirmed then Finalized else v))
          | None \<Rightarrow>
              (case confirmedTxs s i of
                 Some p \<Rightarrow> Some (final res solid p)
               | None \<Rightarrow> GetStatus i (h, s))))"

text \<open>An order in which the maps may be ranged over: each account and each ID once.\<close>

definition ranges :: "string list \<times> (string \<Rightarrow> string list) \<Rightarrow> account_state \<Rightarrow> bool" where
  "ranges od st \<longleftrightarrow> distinct (fst od) \<and> (\<forall>a. distinct (snd od a))
     \<and> (\<forall>a i. account_status st (a, i) \<noteq> None \<longrightarrow> a \<in> set (fst od) \<and> i \<in> set (snd od a))"

lemma tracked_unconfirmed:
  assumes inv: "txm_inv E t" and od: "ranges (accs, ids) (state_of t)"
  shows "visited (entries accs (GetAllUnconfirmed ids (accounts t))) t (a, i) p
    \<longleftrightarrow> (\<exists>s. store (accounts t) a = Some s \<and> unconfirmedTxs s i = Some p)"
proof
  assume "visited (entries accs (GetAllUnconfirmed ids (accounts t))) t (a, i) p"
  then obtain s j where s: "store (accounts t) a = Some s" "unconfirmedTxs s j = Some p" "i = ID (objects t (inf_Tx p))"
    by (auto simp: visited_def set_entries GetAllUnconfirmed_def GetUnconfirmed_def set_map_values)
  then show "\<exists>s. store (accounts t) a = Some s \<and> unconfirmedTxs s i = Some p"
    using unconfirmed_facts(1) [OF account_invD(1) [OF txm_invD(1) [OF inv] s(1)] s(2)] by simp
next
  assume "\<exists>s. store (accounts t) a = Some s \<and> unconfirmedTxs s i = Some p"
  then obtain s where s: "store (accounts t) a = Some s" "unconfirmedTxs s i = Some p" by blast
  have i: "ID (objects t (inf_Tx p)) = i" using unconfirmed_facts(1) [OF account_invD(1) [OF txm_invD(1) [OF inv] s(1)] s(2)] .
  have "unconfirmed_in (state_of t) a p" using s i by (simp add: unconfirmed_in_def state_of_def)
  from unconfirmed_key(2) [OF inv this] have "account_status (state_of t) (a, i) \<noteq> None" using i by simp
  then have "a \<in> set accs" "i \<in> set (ids a)" using od unfolding ranges_def fst_conv snd_conv by blast+
  then show "visited (entries accs (GetAllUnconfirmed ids (accounts t))) t (a, i) p"
    using s i by (auto simp: visited_def set_entries GetAllUnconfirmed_def GetUnconfirmed_def set_map_values)
qed

lemma tracked_confirmed:
  assumes inv: "txm_inv E t" and od: "ranges (accs, ids) (state_of t)"
  shows "visited (entries accs (GetAllConfirmed ids (accounts t))) t (a, i) p
    \<longleftrightarrow> (\<exists>s. store (accounts t) a = Some s \<and> confirmedTxs s i = Some p)"
proof
  assume "visited (entries accs (GetAllConfirmed ids (accounts t))) t (a, i) p"
  then obtain s j where s: "store (accounts t) a = Some s" "confirmedTxs s j = Some p" "i = ID (objects t (inf_Tx p))"
    by (auto simp: visited_def set_entries GetAllConfirmed_def GetConfirmed_def set_map_values)
  then show "\<exists>s. store (accounts t) a = Some s \<and> confirmedTxs s i = Some p"
    using confirmed_facts(1) [OF account_invD(1) [OF txm_invD(1) [OF inv] s(1)] s(2)] by simp
next
  assume "\<exists>s. store (accounts t) a = Some s \<and> confirmedTxs s i = Some p"
  then obtain s where s: "store (accounts t) a = Some s" "confirmedTxs s i = Some p" by blast
  have i: "ID (objects t (inf_Tx p)) = i" using confirmed_facts(1) [OF account_invD(1) [OF txm_invD(1) [OF inv] s(1)] s(2)] .
  have "confirmed_in (state_of t) a p" using s i by (simp add: confirmed_in_def state_of_def)
  from confirmed_key(2) [OF inv this] have "account_status (state_of t) (a, i) \<noteq> None" using i by simp
  then have "a \<in> set accs" "i \<in> set (ids a)" using od unfolding ranges_def fst_conv snd_conv by blast+
  then show "visited (entries accs (GetAllConfirmed ids (accounts t))) t (a, i) p"
    using s i by (auto simp: visited_def set_entries GetAllConfirmed_def GetConfirmed_def set_map_values)
qed

lemma checkUnconfirmed_passes:
  assumes "steady E F S W ts res solid" and "world t \<in> W" and inv: "txm_inv (on_nodes E F S) t"
    and od: "ranges (accs, ids) (state_of t)"
  shows "\<exists>t'. checkUnconfirmed (on_nodes E F S) accs ids t = Done t' \<and> world t' \<in> W
    \<and> passes (on_nodes E F S) (look ts res) (entries accs (GetAllUnconfirmed ids (accounts t))) t t'"
  unfolding checkUnconfirmed_def
  by (rule pass_accounts [OF check_account_passes [OF assms(1)] assms(2) unconfirmed_snapshot [OF inv]])
    (use od in \<open>simp_all add: ranges_def\<close>)

lemma checkFinalized_passes:
  assumes "steady E F S W ts res solid" and "world t \<in> W" and inv: "txm_inv (on_nodes E F S) t"
    and od: "ranges (accs, ids) (state_of t)"
  shows "\<exists>t'. checkFinalized (on_nodes E F S) accs ids t = Done t' \<and> world t' \<in> W
    \<and> passes (on_nodes E F S) (\<lambda>p _. final res solid p) (entries accs (GetAllConfirmed ids (accounts t))) t t'"
  unfolding checkFinalized_def
  by (rule pass_accounts [OF finalize_account_passes [OF assms(1)] assms(2) confirmed_snapshot [OF inv]])
    (use od in \<open>simp_all add: ranges_def\<close>)

lemma look_Confirmed: "look ts res p tx = Confirmed \<Longrightarrow> res (inf_Hash p) \<noteq> None"
  by (cases ts; cases "res (inf_Hash p)") (auto simp: look_def broadcast_then_def decides_def retry_event_def split: if_splits)

lemma confirmed_table:
  assumes "txm_inv E t"
  shows "account_status (state_of t) (a, i) = Some Confirmed
    \<longleftrightarrow> (\<exists>s p. store (accounts t) a = Some s \<and> confirmedTxs s i = Some p \<and> ID (objects t (inf_Tx p)) = i)"
proof -
  note I = account_invD(1) [OF txm_invD(1) [OF assms]]
  show ?thesis
  proof (cases "store (accounts t) a")
    case (Some s)
    then show ?thesis using status_table_all [OF I [OF Some], of i] confirmed_facts(1) [OF I [OF Some], of i]
      by (auto simp: state_of_def status_def)
  qed (simp add: state_of_def)
qed

lemma unconfirmed_status:
  assumes "txm_inv E t" and "store (accounts t) a = Some s" and "unconfirmedTxs s i = Some p"
  shows "account_status (state_of t) (a, i) = Some Broadcasted"
  using status_unconfirmed [OF account_invD(1) [OF txm_invD(1) [OF assms(1)] assms(2)] assms(3)] assms(2)
  by (simp add: state_of_def status_def)

lemma entry_unique:
  assumes "txm_inv E t" and "store (accounts t) a = Some s" and "entry_in s i p" and "entry_in s i q"
  shows "p = q"
  using assms(3,4) unconfirmed_facts(4) [OF account_invD(1) [OF txm_invD(1) [OF assms(1)] assms(2)], of i]
  by (auto simp: entry_in_def)

text \<open>
  Two passes in a row, the first over the broadcast and the second over the confirmed transactions: what is
  confirmed between them has the entry it had before them.
\<close>

definition two_passes ::
  "'w Env \<Rightarrow> int64 option \<Rightarrow> (string \<Rightarrow> string option) \<Rightarrow> (string \<Rightarrow> bool) \<Rightarrow> (string \<times> InflightTx list) list \<Rightarrow>
     (string \<times> InflightTx list) list \<Rightarrow> 'w txm \<Rightarrow> 'w txm \<Rightarrow> 'w txm \<Rightarrow> bool" where
  "two_passes E ts res solid xs ys t t1 t' \<longleftrightarrow> txm_inv E t
     \<and> passes E (look ts res) xs t t1
     \<and> (\<forall>a i p. visited xs t (a, i) p \<longleftrightarrow> (\<exists>s. store (accounts t) a = Some s \<and> unconfirmedTxs s i = Some p))
     \<and> passes E (\<lambda>p _. final res solid p) ys t1 t'
     \<and> (\<forall>a i p. visited ys t1 (a, i) p \<longleftrightarrow> (\<exists>s. store (accounts t1) a = Some s \<and> confirmedTxs s i = Some p))"

lemma two_passesD:
  assumes "two_passes E ts res solid xs ys t t1 t'"
  shows "txm_inv E t" "txm_inv E t1" "passes E (look ts res) xs t t1" "passes E (\<lambda>p _. final res solid p) ys t1 t'"
    "visited xs t (a, i) p \<longleftrightarrow> (\<exists>s. store (accounts t) a = Some s \<and> unconfirmedTxs s i = Some p)"
    "visited ys t1 (a, i) p \<longleftrightarrow> (\<exists>s. store (accounts t1) a = Some s \<and> confirmedTxs s i = Some p)"
  using assms unfolding two_passes_def passes_def by blast+

lemma confirmed_then:
  assumes two: "two_passes E ts res solid xs ys t t1 t'"
    and c: "account_status (state_of t1) (a, i) = Some Confirmed" and s: "store (accounts t) a = Some s" "entry_in s i p"
  shows "account_status (state_of t') (a, i) = Some (final res solid p)"
proof -
  note inv = two_passesD(1) [OF two] and inv1 = two_passesD(2) [OF two] and first = two_passesD(3) [OF two]
    and second = two_passesD(4) [OF two] and all_confirmed = two_passesD(6) [OF two]
  obtain s1 p1 where p1: "store (accounts t1) a = Some s1" "confirmedTxs s1 i = Some p1" "ID (objects t1 (inf_Tx p1)) = i"
    using c confirmed_table [OF inv1] by blast
  then have "visited ys t1 (a, i) p1" using all_confirmed by blast
  then have "account_status (state_of t') (a, i) = Some (final res solid p1)" using second unfolding passes_def by blast
  moreover have "inflight_in (state_of t1) a p1" using p1 by (simp add: inflight_in_def confirmed_in_def state_of_def)
  then have "inflight_in (state_of t) a p1" and "ID (objects t (inf_Tx p1)) = i"
    using first p1(3) unfolding passes_def by (blast, metis)
  then have "entry_in s i p1" using s(1) by (simp add: inflight_entry state_of_def)
  from entry_unique [OF inv s this] have "p1 = p" by simp
  ultimately show ?thesis by simp
qed

lemma stays:
  assumes two: "two_passes E ts res solid xs ys t t1 t'"
    and "account_status (state_of t1) (a, i) \<noteq> Some Confirmed"
  shows "account_status (state_of t') (a, i) = account_status (state_of t1) (a, i)"
proof -
  note inv1 = two_passesD(2) [OF two] and second = two_passesD(4) [OF two] and all_confirmed = two_passesD(6) [OF two]
  have "\<nexists>p. visited ys t1 (a, i) p"
    using assms(2) confirmed_table [OF inv1, of a i] confirmed_facts(1) account_invD(1) [OF txm_invD(1) [OF inv1]]
    unfolding all_confirmed by blast
  then show ?thesis using second unfolding passes_def by blast
qed

lemma not_looked_at:
  assumes two: "two_passes E ts res solid xs ys t t1 t'"
    and "\<And>s. store (accounts t) a = Some s \<Longrightarrow> unconfirmedTxs s i = None"
  shows "account_status (state_of t1) (a, i) = account_status (state_of t) (a, i)"
proof -
  have "\<nexists>p. visited xs t (a, i) p" using assms(2) unfolding two_passesD(5) [OF two] by fastforce
  then show ?thesis using two_passesD(3) [OF two] unfolding passes_def by blast
qed

lemma two_passes_tick:
  assumes two: "two_passes E ts res solid xs ys t t1 t'"
  shows "account_status (state_of t') (a, i) = tick_status ts res solid (state_of t) (a, i)"
proof (cases "store (accounts t) a")
  case None
  then have "account_status (state_of t1) (a, i) = None" using not_looked_at [OF two, of a i] by (simp add: state_of_def)
  then show ?thesis using stays [OF two] None by (simp add: tick_status_def state_of_def)
next
  case (Some s)
  consider (u) p where "unconfirmedTxs s i = Some p" | (c) p where "unconfirmedTxs s i = None" "confirmedTxs s i = Some p"
    | (n) "unconfirmedTxs s i = None" "confirmedTxs s i = None" by fastforce
  then show ?thesis
  proof cases
    case u
    then have "visited xs t (a, i) p" using Some two_passesD(5) [OF two] by blast
    then have one: "account_status (state_of t1) (a, i) = Some (look ts res p (objects t (inf_Tx p)))"
      using two_passesD(3) [OF two] unfolding passes_def by blast
    have "account_status (state_of t') (a, i) = Some (if look ts res p (objects t (inf_Tx p)) = Confirmed then Finalized
        else look ts res p (objects t (inf_Tx p)))"
      using one confirmed_then [OF two _ Some, of i p] stays [OF two, of a i] look_Confirmed [of ts res p] u
      by (auto simp: entry_in_def final_def)
    then show ?thesis using Some u by (simp add: tick_status_def state_of_def Let_def)
  next
    case c
    have "account_status (state_of t) (a, i) = Some Confirmed"
      using confirmed_table [OF two_passesD(1) [OF two]] Some c(2) confirmed_facts(1) [OF account_invD(1) [OF txm_invD(1) [OF two_passesD(1) [OF two]] Some] c(2)] by blast
    then show ?thesis using confirmed_then [OF two _ Some, of i p] not_looked_at [OF two, of a i] c Some
      by (simp add: entry_in_def tick_status_def state_of_def)
  next
    case n
    then have "account_status (state_of t) (a, i) \<noteq> Some Confirmed" using confirmed_table [OF two_passesD(1) [OF two]] Some by fastforce
    then show ?thesis using stays [OF two, of a i] not_looked_at [OF two, of a i] n Some by (simp add: tick_status_def state_of_def)
  qed
qed

lemma tick_runs:
  assumes "reachable (on_nodes E F S) t" and st: "steady E F S W ts res solid" and w: "world t \<in> W"
    and od: "ranges (accs, ids) (state_of t)" "ranges (accs', ids') (state_of t)"
  shows "\<exists>t'. confirm_iteration (on_nodes E F S) ((accs, ids), (accs', ids')) t = Done t' \<and> world t' \<in> W
    \<and> account_status (state_of t') = tick_status ts res solid (state_of t)"
proof -
  let ?E = "on_nodes E F S"
  note inv = reachable_inv [OF assms(1)]
  obtain t1 where t1: "checkUnconfirmed ?E accs ids t = Done t1" "world t1 \<in> W"
    "passes ?E (look ts res) (entries accs (GetAllUnconfirmed ids (accounts t))) t t1"
    using checkUnconfirmed_passes [OF st w inv od(1)] by blast
  note P1 = t1(3) [unfolded passes_def] and v1 = tracked_unconfirmed [OF inv od(1)]
  have inv1: "txm_inv ?E t1" using P1 by blast
  have "account_status (state_of t1) (a, i) \<noteq> None \<Longrightarrow> account_status (state_of t) (a, i) \<noteq> None" for a i
    using P1 v1 [of a i] unconfirmed_status [OF inv, of a _ i] by (metis option.distinct(1))
  then have od1: "ranges (accs', ids') (state_of t1)" using od(2) unfolding ranges_def by blast
  obtain t' where t': "checkFinalized ?E accs' ids' t1 = Done t'" "world t' \<in> W"
    "passes ?E (\<lambda>p _. final res solid p) (entries accs' (GetAllConfirmed ids' (accounts t1))) t1 t'"
    using checkFinalized_passes [OF st t1(2) inv1 od1] by blast
  have "two_passes ?E ts res solid (entries accs (GetAllUnconfirmed ids (accounts t)))
      (entries accs' (GetAllConfirmed ids' (accounts t1))) t t1 t'"
    unfolding two_passes_def using inv t1(3) v1 t'(3) tracked_confirmed [OF inv1 od1] by blast
  from two_passes_tick [OF this] have "account_status (state_of t') = tick_status ts res solid (state_of t)"
    by (simp add: fun_eq_iff)
  then show ?thesis using t1(1) t'(1,2) by (auto simp: confirm_iteration_def)
qed

text \<open>
  C4. Equivalence: on nodes whose answers stay the same while it runs, a tick of the confirm loop
  has one outcome, in whatever orders the maps are ranged over: every status after it is the reference
  function of the store before it. A transaction is looked at once per pass; the look at one leaves the
  fate of every other as it is; and what the first pass confirms the second one finalizes.
\<close>

theorem tick_settles:
  assumes "reachable (on_nodes E F S) t" and "steady E F S W ts res solid" and "world t \<in> W"
    and "ranges (accs, ids) (state_of t)" and "ranges (accs', ids') (state_of t)"
  shows "\<exists>t'. confirm_iteration (on_nodes E F S) ((accs, ids), (accs', ids')) t = Done t'
    \<and> account_status (state_of t') = tick_status ts res solid (state_of t)"
  using tick_runs [OF assms] by blast

subsection \<open>Delivery\<close>

lemma send_accepted:
  assumes inv: "txm_inv E t" and r: "received t = Some r"
    and sent: "SignAndBroadcast E (FromAddress (objects t r)) coreTx (world t) = Some (Done (w, resp, None))"
    and fresh: "\<And>s. store (accounts t) (owner_of E (FromAddress (objects t r))) = Some s \<Longrightarrow>
      hashToId s (TxID coreTx) = None \<and> hash_fresh s (TxID coreTx)"
  obtains u s p where "send E r coreTx (t\<lparr>received := None\<rparr>) = Some (Done u)" "world u = w"
    "store (accounts u) (fst (key E (objects t r))) = Some s" "unconfirmedTxs s (snd (key E (objects t r))) = Some p"
    "inf_Hash p = TxID coreTx"
    "\<And>k. account_status (state_of u) k \<noteq> None \<Longrightarrow> account_status (state_of t) k \<noteq> None"
proof -
  let ?a = "owner_of E (FromAddress (objects t r))" and ?i = "ID (objects t r)" and ?x = "TxID coreTx"
  let ?t = "t\<lparr>received := None, world := w\<rparr>"
  let ?u = "fst (with_store ?a (OnBroadcasted ?x (rd_Expiration (RawData_of coreTx)) r) ?t)"
  have p: "pending_in (owner_of E) (state_of ?t) r" and inv': "txm_inv E ?t" and q: "r \<notin> set (queue ?t)"
    using txm_inv_drop [OF inv r] by (simp_all add: state_of_def queue_def)
  obtain s where s: "store (accounts t) ?a = Some s" "pendingTxs s ?i = Some r"
    using p by (auto simp: pending_in_def state_of_def)
  have run: "send E r coreTx (t\<lparr>received := None\<rparr>) = Some (Done ?u)"
    using s sent by (simp add: send_def touch_store_def GetTxStore_existing owner_of_def Let_def)
  have st: "account_status (state_of ?u) k \<noteq> None \<Longrightarrow> account_status (state_of t) k \<noteq> None" for k
    using broadcast_recorded [OF inv' p q refl, of ?x "rd_Expiration (RawData_of coreTx)"] fresh
    by (auto simp: state_of_def spec_status_def lifecycle_eqs simp del: account_status.simps split: if_splits)
  have "\<exists>s' p'. store (accounts ?u) ?a = Some s' \<and> unconfirmedTxs s' ?i = Some p' \<and> inf_Hash p' = ?x"
    using s fresh [OF s(1)] by (simp add: with_store_def on_store_def GetTxStore_existing OnBroadcasted_def put_store_def)
  then show thesis using that [OF run] st by (auto simp: key_def simp del: account_status.simps)
qed

lemma tick_status_accepted:
  assumes "store (snd st) a = Some s" and "unconfirmedTxs s i = Some p" and "res (inf_Hash p) = Some ''SUCCESS''"
  shows "tick_status (Some now) res solid st (a, i) = Some Finalized"
  using assms
  by (cases st) (simp add: tick_status_def look_def decides_def verdict_def broadcast_then_def)

text \<open>
  C3. Liveness: a transaction that the broadcast loop has received and that the node accepts
  under a new hash is recorded, and final after the next tick of the confirm loop, once the nodes answer
  steadily, have a latest block and report success for that hash, whatever else is in flight, and in
  whatever orders the maps are ranged over.
\<close>

theorem accepted_delivered:
  assumes reach: "reachable (on_nodes E F S) t" and r: "received t = Some r"
    and sent: "SignAndBroadcast (on_nodes E F S) (FromAddress (objects t r)) coreTx (world t) = Some (Done (w, resp, None))"
    and fresh: "\<And>s. store (accounts t) (owner_of (on_nodes E F S) (FromAddress (objects t r))) = Some s \<Longrightarrow>
      hashToId s (TxID coreTx) = None \<and> hash_fresh s (TxID coreTx)"
    and st: "steady E F S W (Some now) res solid" and "w \<in> W" and ok: "res (TxID coreTx) = Some ''SUCCESS''"
    and "ranges (accs, ids) (state_of t)" and "ranges (accs', ids') (state_of t)"
  shows "\<exists>u v. send (on_nodes E F S) r coreTx (t\<lparr>received := None\<rparr>) = Some (Done u)
    \<and> confirm_iteration (on_nodes E F S) ((accs, ids), (accs', ids')) u = Done v
    \<and> account_status (state_of v) (key (on_nodes E F S) (objects t r)) = Some Finalized"
proof -
  let ?E = "on_nodes E F S"
  obtain u s p where u: "send ?E r coreTx (t\<lparr>received := None\<rparr>) = Some (Done u)" "world u = w"
    "store (accounts u) (fst (key ?E (objects t r))) = Some s" "unconfirmedTxs s (snd (key ?E (objects t r))) = Some p"
    "inf_Hash p = TxID coreTx" "\<And>k. account_status (state_of u) k \<noteq> None \<Longrightarrow> account_status (state_of t) k \<noteq> None"
    using send_accepted [OF reachable_inv [OF reach] r sent fresh] by blast
  have "txm_step ?E t u" by (rule Sends [OF r _ u(1)]) (use fresh in blast)
  then have reach': "reachable ?E u" by (rule reachable.step [OF reach])
  have "ranges od (state_of t) \<Longrightarrow> ranges od (state_of u)" for od using u(6) unfolding ranges_def by blast
  from tick_runs [OF reach' st _ this this] assms(6,8,9) u(2) obtain v where
    v: "confirm_iteration ?E ((accs, ids), (accs', ids')) u = Done v"
    "account_status (state_of v) = tick_status (Some now) res solid (state_of u)" by blast
  have "account_status (state_of v) (key ?E (objects t r)) = Some Finalized"
    using tick_status_accepted [of "state_of u" "fst (key ?E (objects t r))" s "snd (key ?E (objects t r))" p res now solid] u(3-5) ok
    unfolding v(2) by (simp add: state_of_def)
  then show ?thesis using u(1) v(1) by blast
qed

subsection \<open>A run\<close>

lemma good_steady:
  "steady sample_env (good_http ''SUCCESS'') (sample_http ''0000000000000005'') {w. 1 \<le> w} (Some 0)
     (\<lambda>x. if x = [] then None else Some ''SUCCESS'') (\<lambda>_. False)"
  by (simp add: steady_def head_time_def sol_GetNowBlock_def after_rpc_def check_block_def good_http_def sample_http_def
      sample_block_def sample_raw_def info_result_def reports_def)

lemma good_ranges:
  "ranges ([fst sample_key], \<lambda>_. [''x'']) (state_of broadcast_state)"
  "ranges ([fst sample_key], \<lambda>_. [''x'']) (state_of received_state)"
  by (auto simp: ranges_def state_of_def broadcast_state_def received_state_def enqueued_state_def GetStatus_def NewTxStore_def
      split: option.splits if_splits)

theorem tick_settles_witness:
  "\<exists>t'. confirm_iteration (good_env ''SUCCESS'') (([fst sample_key], \<lambda>_. [''x'']), ([fst sample_key], \<lambda>_. [''x''])) broadcast_state
       = Done t' \<and> account_status (state_of t') (fst sample_key, ''x'') = Some Finalized"
proof -
  have "world broadcast_state \<in> {w. 1 \<le> w}" by (simp add: broadcast_state_def)
  from tick_settles [OF good_broadcast [unfolded good_env_def] good_steady this good_ranges(1) good_ranges(1)]
  obtain t' where t': "confirm_iteration (good_env ''SUCCESS'') (([fst sample_key], \<lambda>_. [''x'']), ([fst sample_key], \<lambda>_. [''x''])) broadcast_state
       = Done t'" "account_status (state_of t') = tick_status (Some 0) (\<lambda>x. if x = [] then None else Some ''SUCCESS'') (\<lambda>_. False) (state_of broadcast_state)"
    unfolding good_env_def by blast
  have hash: "inf_Hash sample_inflight = ''ab''" by (simp add: sample_inflight_def)
  have "account_status (state_of t') (fst sample_key, ''x'') = Some Finalized"
    unfolding t'(2)
    by (rule tick_status_accepted [where p = sample_inflight
          and s = "NewTxStore\<lparr>hashToId := [''ab'' \<mapsto> ''x''], unconfirmedTxs := [''x'' \<mapsto> sample_inflight]\<rparr>"])
      (use hash in \<open>simp_all add: broadcast_state_def state_of_def\<close>)
  then show ?thesis using t'(1) by blast
qed

theorem accepted_delivered_witness:
  "\<exists>u v. send (good_env ''SUCCESS'') 0 sample_tx (received_state\<lparr>received := None\<rparr>) = Some (Done u)
     \<and> confirm_iteration (good_env ''SUCCESS'') (([fst sample_key], \<lambda>_. [''x'']), ([fst sample_key], \<lambda>_. [''x''])) u = Done v
     \<and> account_status (state_of v) (key (good_env ''SUCCESS'') (objects received_state 0)) = Some Finalized"
proof -
  have r: "received received_state = Some 0" by (simp add: received_state_def)
  have sent: "SignAndBroadcast (good_env ''SUCCESS'') (FromAddress (objects received_state 0)) sample_tx (world received_state)
      = Some (Done (1, Some \<lparr>br_Result = True, br_Code = [], br_TxID = [], br_Message = []\<rparr>, None))"
    using good_sign by (simp add: received_state_def enqueued_state_def)
  have fresh: "hashToId s (TxID sample_tx) = None \<and> hash_fresh s (TxID sample_tx)"
    if "store (accounts received_state) (owner_of (good_env ''SUCCESS'') (FromAddress (objects received_state 0))) = Some s" for s
    using that by (auto simp: received_state_def enqueued_state_def hash_fresh_def NewTxStore_def split: if_splits)
  have one: "1 \<in> {w :: nat. 1 \<le> w}" and x: "(if TxID sample_tx = [] then None else Some ''SUCCESS'') = Some ''SUCCESS''"
    by (simp_all add: sample_tx_def)
  show ?thesis
    using accepted_delivered [OF good_received [unfolded good_env_def] r sent [unfolded good_env_def] fresh [unfolded good_env_def]
        good_steady one x good_ranges(2) good_ranges(2)]
    unfolding good_env_def .
qed

end
