(* ===== verification/Pacing.thy ===== *)
theory Pacing
  imports Txm_Ops Relayer
begin

text \<open>
  The pacing of the confirm loop (\<open>confirmLoop\<close> of relayer/txm/txm.go): how long it waits between two ticks,
  and what that comes to with the configuration a relayer is made with (relayer/plugin/relayer.go).

  \<open>utils.WithJitter\<close> of chainlink-common is a parameter; it is documented to add or take up to 10 %.
\<close>

subsection \<open>Durations of 64 bits\<close>

definition wrap64 :: "int \<Rightarrow> duration" where
  "wrap64 d = signed_take_bit 63 d"

lemma wrap64_small: "- (2 ^ 63) \<le> d \<Longrightarrow> d < 2 ^ 63 \<Longrightarrow> wrap64 d = d"
  by (simp add: wrap64_def signed_take_bit_int_eq_self)

text \<open>\<open>Duration.Abs\<close>: the least duration has no absolute value and becomes the greatest.\<close>

definition duration_Abs :: "duration \<Rightarrow> duration" where
  "duration_Abs d = (if 0 \<le> d then d else if d = - (2 ^ 63) then 2 ^ 63 - 1 else - d)"

lemma duration_Abs_abs: "- (2 ^ 63) < d \<Longrightarrow> duration_Abs d = \<bar>d\<bar>"
  by (simp add: duration_Abs_def)

subsection \<open>The loop\<close>

definition pollDuration :: "TronTxmConfig \<Rightarrow> duration" where
  "pollDuration c = wrap64 (int (ConfirmPollSecs c) * nanos_per_second)"

text \<open>One round of the loop: the tick, and how long the timer is then set for.\<close>

definition confirm_round ::
  "'w Env \<Rightarrow> (duration \<Rightarrow> 'w \<Rightarrow> 'w \<times> duration) \<Rightarrow>
     (string list \<times> (string \<Rightarrow> string list)) \<times> (string list \<times> (string \<Rightarrow> string list)) \<Rightarrow> 'w txm \<Rightarrow> ('w txm \<times> duration) outcome" where
  "confirm_round E WithJitter ods t =
     (let (w, start) = time_Now E (world t)
      in outcome_bind (confirm_iteration E ods (t\<lparr>world := w\<rparr>)) (\<lambda>t.
           let (w, now) = time_Now E (world t);
               remaining = wrap64 (pollDuration (config E) - time_Sub now start);
               (w, delay) = WithJitter (duration_Abs remaining) w
           in Done (t\<lparr>world := w\<rparr>, delay)))"

definition jitter_ok :: "(duration \<Rightarrow> 'w \<Rightarrow> 'w \<times> duration) \<Rightarrow> bool" where
  "jitter_ok J \<longleftrightarrow> (\<forall>d w. 0 \<le> d \<longrightarrow> 10 * \<bar>snd (J d w) - d\<bar> \<le> d)"

text \<open>
  C36. Bounds: in a relayer made from a configuration, a tick that took the time \<open>e\<close> is followed by a
  pause of \<open>\<bar>P - e\<bar>\<close>, give or take the jitter, where \<open>P\<close> is the configured period rounded down to whole seconds.
  That keeps the period when the tick was in time. A tick that overran it by some time is followed by a
  pause of that time again; and since the default period of 500 ms is rounded down to nothing, the loop
  then waits just as long as its tick took, however short or long that was.
\<close>

theorem confirm_pause:
  assumes cfg: "txm_config (SetDefaults c) = Done (config E)"
    and p: "p = given (cc_ConfirmPollPeriod (toml_Chain c)) 500000000" "0 \<le> p" "p < 2 ^ 62"
    and run: "time_Now E (world t) = (w, start)" "confirm_iteration E ods (t\<lparr>world := w\<rparr>) = Done u"
      "time_Now E (world u) = (w', now)"
    and e: "e = now - start" "0 \<le> e" "e < 2 ^ 62" and J: "jitter_ok J"
  shows "\<exists>w'' delay. confirm_round E J ods t = Done (u\<lparr>world := w''\<rparr>, delay)
    \<and> 10 * \<bar>delay - \<bar>p - p mod nanos_per_second - e\<bar>\<bar> \<le> \<bar>p - p mod nanos_per_second - e\<bar>
    \<and> (cc_ConfirmPollPeriod (toml_Chain c) = None \<longrightarrow> 10 * \<bar>delay - e\<bar> \<le> e)"
proof -
  let ?P = "p - p mod nanos_per_second"
  have secs: "ConfirmPollSecs (config E) = nat (p div nanos_per_second)"
    using cfg [unfolded txm_config_SetDefaults outcome.inject, symmetric] by (simp add: p(1) whole_seconds_def)
  have "int (ConfirmPollSecs (config E)) * nanos_per_second = ?P"
    using p(2) by (simp add: secs nanos_per_second_def pos_imp_zdiv_nonneg_iff minus_mod_eq_div_mult)
  moreover have m: "0 \<le> ?P" "?P \<le> p"
    using p(2) by (simp_all add: nanos_per_second_def zmod_le_nonneg_dividend)
  ultimately have poll: "pollDuration (config E) = ?P"
    using p(3) by (simp add: pollDuration_def wrap64_small)
  have "time_Sub now start = e" using e by (simp add: time_Sub_exact)
  moreover have "wrap64 (?P - e) = ?P - e" using m p(3) e(2,3) by (intro wrap64_small) simp_all
  moreover have "duration_Abs (?P - e) = \<bar>?P - e\<bar>" using m e(2,3) by (intro duration_Abs_abs) simp
  ultimately have "confirm_round E J ods t = Done (u\<lparr>world := fst (J \<bar>?P - e\<bar> w')\<rparr>, snd (J \<bar>?P - e\<bar> w'))"
    using run by (simp add: confirm_round_def poll split_beta Let_def)
  moreover have "10 * \<bar>snd (J \<bar>?P - e\<bar> w') - \<bar>?P - e\<bar>\<bar> \<le> \<bar>?P - e\<bar>" using J by (simp add: jitter_ok_def)
  moreover have "?P = 0" if "cc_ConfirmPollPeriod (toml_Chain c) = None"
    using that p(1) by (simp add: given_def nanos_per_second_def)
  ultimately show ?thesis using e(2) by auto
qed

text \<open>With the defaults, a tick of one second is followed by a pause of one second, not of half a second.\<close>

theorem confirm_pause_witness:
  "\<exists>tc w delay. txm_config (SetDefaults zero_toml) = Done tc
     \<and> confirm_round (sample_env\<lparr>config := tc, time_Now := \<lambda>w. (Suc w, int w * nanos_per_second)\<rparr>) (\<lambda>d w. (w, d))
         (([], \<lambda>_. []), ([], \<lambda>_. [])) (New 0) = Done ((New 0)\<lparr>world := w\<rparr>, delay)
     \<and> 10 * \<bar>delay - nanos_per_second\<bar> \<le> nanos_per_second"
proof -
  obtain tc where tc: "txm_config (SetDefaults zero_toml) = Done tc" using txm_config_SetDefaults by blast
  let ?E = "sample_env\<lparr>config := tc, time_Now := \<lambda>w. (Suc w, int w * nanos_per_second)\<rparr>"
  have none: "cc_ConfirmPollPeriod (toml_Chain zero_toml) = None" by (simp add: zero_toml_def)
  have cfg: "txm_config (SetDefaults zero_toml) = Done (config ?E)" using tc by simp
  have run: "time_Now ?E (world (New 0)) = (1, 0)" "time_Now ?E (world ((New 0)\<lparr>world := 1\<rparr>)) = (2, nanos_per_second)"
    "confirm_iteration ?E (([], \<lambda>_. []), ([], \<lambda>_. [])) ((New 0)\<lparr>world := 1\<rparr>) = Done ((New 0)\<lparr>world := 1\<rparr>)"
    by (simp_all add: New_def confirm_iteration_def checkUnconfirmed_def checkFinalized_def)
  have J: "jitter_ok (\<lambda>d w. (w, d))" by (simp add: jitter_ok_def)
  have small: "nanos_per_second < 2 ^ 62" "0 \<le> nanos_per_second" by (simp_all add: nanos_per_second_def)
  show ?thesis
    using confirm_pause [OF cfg refl _ _ run(1,3,2) refl _ _ J] none small tc by (auto simp: given_def)
qed

end
