(* ===== verification/Sdk.thy ===== *)
theory Sdk
  imports HttpClient
begin

text \<open>
  What is left of the SDK: JSON parameters of the ABI (pkg/abi/abi.go) and JSON ABIs
  (pkg/http/common/jsonabi.go), the memo and the hash of a transaction extension
  (pkg/proto/api/api_extension.go), and the creation of the clients (relayer/sdk/full_node_client.go).

  Parameters: \<open>json.Unmarshal\<close> at the three types it is used at, \<open>proto.Marshal\<close> of the raw data, and the
  HTTP client of Go's standard library as a function of its settings.
\<close>

subsection \<open>abi.go and jsonabi.go: JSON\<close>

type_synonym Param = "string \<rightharpoonup> goval"

record json =
  json_Params :: "string \<Rightarrow> string + Param list"
  json_Strings :: "string \<Rightarrow> string + string list"
  json_Entries :: "string \<Rightarrow> string + Entry list"

text \<open>An empty text is no parameters, which is nil, as is the result of an error.\<close>

definition LoadFromJSON :: "json \<Rightarrow> string \<Rightarrow> Param list option \<times> string option" where
  "LoadFromJSON J jString =
     (if length jString = 0 then (None, None)
      else (case json_Params J jString of Inl err \<Rightarrow> (None, Some err) | Inr d \<Rightarrow> (Some d, None)))"

datatype json_array_error = NotAnArray string string | BadElement nat string hex_error

fun decode_elements :: "nat \<Rightarrow> string list \<Rightarrow> json_array_error + bytes list" where
  "decode_elements i [] = Inr []"
| "decode_elements i (elem # elems) =
     (case hex_DecodeString (strings_TrimPrefix elem ''0x'') of
        (b, Some err) \<Rightarrow> Inl (BadElement i elem err)
      | (b, None) \<Rightarrow> (case decode_elements (Suc i) elems of Inl err \<Rightarrow> Inl err | Inr bs \<Rightarrow> Inr (b # bs)))"

definition processJSONArray :: "json \<Rightarrow> string \<Rightarrow> json_array_error + bytes list" where
  "processJSONArray J input =
     (case json_Strings J input of
        Inl err \<Rightarrow> Inl (NotAnArray input err)
      | Inr jsonArray \<Rightarrow> decode_elements 0 jsonArray)"

definition LoadJSONABI :: "json \<Rightarrow> string \<Rightarrow> string + JSONABI" where
  "LoadJSONABI J jsonStr =
     (case json_Entries J jsonStr of
        Inl err \<Rightarrow> Inl (''failed to parse ABI JSON: '' @ err)
      | Inr es \<Rightarrow> Inr \<lparr>Entrys = es\<rparr>)"

lemma decode_elements_Inr:
  "decode_elements i elems = Inr bs \<longleftrightarrow>
     list_all2 (\<lambda>elem b. hex_DecodeString (strings_TrimPrefix elem ''0x'') = (b, None)) elems bs"
proof (induction elems arbitrary: i bs)
  case (Cons elem elems)
  obtain b me where h: "hex_DecodeString (strings_TrimPrefix elem ''0x'') = (b, me)" by fastforce
  show ?case
    using h by (cases me; cases "decode_elements (Suc i) elems"; cases bs) (auto simp: Cons.IH [of "Suc i", symmetric])
qed auto

lemma decode_elements_Inl:
  "decode_elements i elems = Inl err \<Longrightarrow> \<exists>j b e. j < length elems \<and> err = BadElement (i + j) (elems ! j) e
     \<and> hex_DecodeString (strings_TrimPrefix (elems ! j) ''0x'') = (b, Some e)
     \<and> (\<forall>k < j. snd (hex_DecodeString (strings_TrimPrefix (elems ! k) ''0x'')) = None)"
proof (induction elems arbitrary: i)
  case (Cons elem elems)
  obtain b me where h: "hex_DecodeString (strings_TrimPrefix elem ''0x'') = (b, me)" by fastforce
  show ?case
  proof (cases me)
    case (Some e)
    then show ?thesis using Cons.prems h by (intro exI [of _ 0]) auto
  next
    case None
    then have "decode_elements (Suc i) elems = Inl err" using Cons.prems h by (auto split: sum.splits)
    from Cons.IH [OF this] obtain j b' e where "j < length elems" "err = BadElement (Suc i + j) (elems ! j) e"
      "hex_DecodeString (strings_TrimPrefix (elems ! j) ''0x'') = (b', Some e)"
      "\<forall>k < j. snd (hex_DecodeString (strings_TrimPrefix (elems ! k) ''0x'')) = None" by blast
    then show ?thesis using None h by (intro exI [of _ "Suc j"]) (auto simp: less_Suc_eq_0_disj)
  qed
qed simp

text \<open>Hexadecimal text is not changed by the trimming of the prefix, as x is no digit.\<close>

lemma TrimPrefix_hex [simp]:
  "strings_TrimPrefix (''0x'' @ hex_EncodeToString b) ''0x'' = hex_EncodeToString b"
  "strings_TrimPrefix (hex_EncodeToString b) ''0x'' = hex_EncodeToString b"
proof -
  have "\<not> strings_HasPrefix (hex_EncodeToString b) ''0x''"
  proof
    assume "strings_HasPrefix (hex_EncodeToString b) ''0x''"
    then obtain r where "hex_EncodeToString b = ''0x'' @ r" by (auto simp: strings_HasPrefix_def prefix_def)
    then have "CHR ''x'' \<in> set (hex_EncodeToString b)" by simp
    then show False using hex_string_chars hex_char_not_x by metis
  qed
  then show "strings_TrimPrefix (hex_EncodeToString b) ''0x'' = hex_EncodeToString b"
    by (simp add: strings_TrimPrefix_def strings_HasPrefix_def)
qed (simp add: strings_TrimPrefix_def)

text \<open>
  Round trip and error behaviour: an array of hexadecimal strings, with the prefix 0x or without, is read
  back as the bytes they were printed from; otherwise the error names the first element that does not
  decode, by its index, or the text that is no array.
\<close>

theorem json_array_bytes:
  "(json_Strings J input = Inr (List.map (\<lambda>(p, b). (if p then ''0x'' else []) @ hex_EncodeToString b) pbs) \<longrightarrow>
      processJSONArray J input = Inr (List.map snd pbs))
   \<and> (\<forall>err. processJSONArray J input = Inl err \<longrightarrow>
        (\<exists>e. json_Strings J input = Inl e \<and> err = NotAnArray input e)
      \<or> (\<exists>elems i b e. json_Strings J input = Inr elems \<and> i < length elems \<and> err = BadElement i (elems ! i) e
           \<and> hex_DecodeString (strings_TrimPrefix (elems ! i) ''0x'') = (b, Some e)
           \<and> (\<forall>k < i. snd (hex_DecodeString (strings_TrimPrefix (elems ! k) ''0x'')) = None)))"
proof -
  have "decode_elements i (List.map (\<lambda>(p, b). (if p then ''0x'' else []) @ hex_EncodeToString b) pbs) = Inr (List.map snd pbs)" for i
    unfolding decode_elements_Inr
    by (induction pbs) (use TrimPrefix_hex(1) in \<open>auto simp: hex_roundtrip\<close>)
  moreover have "\<exists>i b e. i < length elems \<and> err = BadElement i (elems ! i) e
      \<and> hex_DecodeString (strings_TrimPrefix (elems ! i) ''0x'') = (b, Some e)
      \<and> (\<forall>k < i. snd (hex_DecodeString (strings_TrimPrefix (elems ! k) ''0x'')) = None)"
    if "decode_elements 0 elems = Inl err" for elems err
    using decode_elements_Inl [OF that] by auto
  ultimately show ?thesis by (auto simp: processJSONArray_def split: sum.splits)
qed

theorem json_array_bytes_witness:
  "processJSONArray \<lparr>json_Params = (\<lambda>s. Inl s), json_Strings = (\<lambda>s. Inr [''0x'' @ hex_EncodeToString [1], hex_EncodeToString [255]]),
     json_Entries = (\<lambda>s. Inl s)\<rparr> input = Inr [[1], [255]]"
  using conjunct1 [OF json_array_bytes [where pbs = "[(True, [1]), (False, [255])]"]] by simp

subsection \<open>api_extension.go\<close>

text \<open>
  The messages are pointers, any of which may be nil; of the raw data only the memo is named, the other
  fields are a value of \<open>'x\<close>, \<open>zero\<close> in a new message.
\<close>

record 'x TransactionRaw =
  raw_Memo :: bytes
  raw_Others :: 'x

record 'x TransactionExtention =
  ext_RawData :: "'x TransactionRaw option option"  \<comment> \<open>\<open>Transaction\<close>, and its \<open>RawData\<close>\<close>
  ext_Txid :: bytes

datatype extension_error = NilExtension | NilPart | MemoAlreadySet | MarshalFailed string

definition UpdateHash ::
  "('x TransactionRaw \<Rightarrow> string + bytes) \<Rightarrow> 'x TransactionExtention option \<Rightarrow>
     'x TransactionExtention option \<times> extension_error option" where
  "UpdateHash marshal px =
     (case px of
        None \<Rightarrow> (px, Some NilPart)
      | Some x \<Rightarrow>
          (case ext_RawData x of
             Some (Some raw) \<Rightarrow>
               (case marshal raw of
                  Inl err \<Rightarrow> (px, Some (MarshalFailed err))
                | Inr rawData \<Rightarrow> (Some (x\<lparr>ext_Txid := sha256 rawData\<rparr>), None))
           | _ \<Rightarrow> (px, Some NilPart)))"

definition SetData ::
  "('x TransactionRaw \<Rightarrow> string + bytes) \<Rightarrow> 'x \<Rightarrow> string \<Rightarrow> 'x TransactionExtention option \<Rightarrow>
     'x TransactionExtention option \<times> extension_error option" where
  "SetData marshal zero memo px =
     (case px of
        None \<Rightarrow> (None, Some NilExtension)
      | Some x \<Rightarrow>
          let tx = (case ext_RawData x of None \<Rightarrow> None | Some raw \<Rightarrow> raw);
              raw = (case tx of None \<Rightarrow> \<lparr>raw_Memo = [], raw_Others = zero\<rparr> | Some raw \<Rightarrow> raw)
          in if length (raw_Memo raw) \<noteq> 0 then (Some (x\<lparr>ext_RawData := Some (Some raw)\<rparr>), Some MemoAlreadySet)
             else UpdateHash marshal (Some (x\<lparr>ext_RawData := Some (Some (raw\<lparr>raw_Memo := string_bytes memo\<rparr>))\<rparr>)))"

text \<open>
  Functional, with the error paths: a memo is set only where none is, and is never overwritten. With
  success the transaction carries it and the ID is the hash of the marshalled raw data; a failed
  marshalling leaves the new memo with the old ID, and then even the same call is refused.
\<close>

theorem memo_set_once:
  assumes "SetData marshal zero memo (Some x) = (Some y, err)"
    and "old = (case ext_RawData x of Some (Some raw) \<Rightarrow> raw | _ \<Rightarrow> \<lparr>raw_Memo = [], raw_Others = zero\<rparr>)"
    and "new = old\<lparr>raw_Memo := string_bytes memo\<rparr>"
  shows "(raw_Memo old \<noteq> [] \<longleftrightarrow> err = Some MemoAlreadySet)
    \<and> (raw_Memo old \<noteq> [] \<longrightarrow> ext_Txid y = ext_Txid x \<and> ext_RawData y = ext_RawData x)
    \<and> (raw_Memo old = [] \<longrightarrow> ext_RawData y = Some (Some new) \<and>
        (case marshal new of
           Inr rawData \<Rightarrow> err = None \<and> ext_Txid y = sha256 rawData
         | Inl e \<Rightarrow> err = Some (MarshalFailed e) \<and> ext_Txid y = ext_Txid x))
    \<and> (raw_Memo old = [] \<and> memo \<noteq> [] \<longrightarrow> SetData marshal zero memo (Some y) = (Some y, Some MemoAlreadySet))"
proof -
  have ne: "string_bytes memo = [] \<longleftrightarrow> memo = []" by (simp add: string_bytes_def)
  show ?thesis
  proof (cases "ext_RawData x")
    case None
    then show ?thesis
      using assms ne by (cases "marshal new") (auto simp: SetData_def UpdateHash_def Let_def)
  next
    case (Some r)
    then show ?thesis
      using assms ne by (cases r; cases "marshal new") (auto simp: SetData_def UpdateHash_def Let_def split: if_splits)
  qed
qed

theorem memo_set_once_witness:
  "\<exists>y. SetData (\<lambda>r. Inr (raw_Memo r)) () ''hi'' (Some \<lparr>ext_RawData = None, ext_Txid = []\<rparr>) = (Some y, None)
     \<and> ext_Txid y = sha256 (string_bytes ''hi'')
     \<and> SetData (\<lambda>r. Inr (raw_Memo r)) () ''hi'' (Some y) = (Some y, Some MemoAlreadySet)"
proof -
  let ?x = "\<lparr>ext_RawData = None, ext_Txid = []\<rparr>"
  let ?y = "\<lparr>ext_RawData = Some (Some \<lparr>raw_Memo = string_bytes ''hi'', raw_Others = ()\<rparr>), ext_Txid = sha256 (string_bytes ''hi'')\<rparr>"
  have "SetData (\<lambda>r. Inr (raw_Memo r)) () ''hi'' (Some ?x) = (Some ?y, None)"
    by (simp add: SetData_def UpdateHash_def)
  from memo_set_once [OF this refl refl] this show ?thesis by (intro exI [of _ ?y]) simp
qed

subsection \<open>full_node_client.go\<close>

text \<open>Certificates are always verified. The interface \<open>FullNodeClient\<close> is the record of its methods.\<close>

record HttpSettings =
  http_Timeout :: duration
  InsecureSkipVerify :: bool

definition CreateHttpClientWithTimeout :: "(HttpSettings \<Rightarrow> 'w Net) \<Rightarrow> duration \<Rightarrow> 'w Net" where
  "CreateHttpClientWithTimeout http_Client timeout = http_Client \<lparr>http_Timeout = timeout, InsecureSkipVerify = False\<rparr>"

record 'w FullNodeClient =
  fn_TriggerConstantContract :: "address \<Rightarrow> address \<Rightarrow> string \<Rightarrow> goval list \<Rightarrow> ('w, TriggerConstantContractResponse) call"
  fn_EstimateEnergy :: "address \<Rightarrow> address \<Rightarrow> string \<Rightarrow> goval list \<Rightarrow> int64 \<Rightarrow> ('w, EnergyEstimateResult) call"
  fn_GetNowBlock :: "('w, Block) call"
  fn_GetBlockByNum :: "int32 \<Rightarrow> ('w, Block) call"
  fn_GetAccount :: "address \<Rightarrow> ('w, GetAccountResponse) call"
  fn_GetTransactionInfoById :: "string \<Rightarrow> ('w, TransactionInfo) call"
  fn_DeployContract :: "address \<Rightarrow> string \<Rightarrow> string \<Rightarrow> string \<Rightarrow> int64 \<Rightarrow> int64 \<Rightarrow> int64 \<Rightarrow> goval list \<Rightarrow> ('w, DeployContractResponse) call"
  fn_GetContract :: "address \<Rightarrow> ('w, GetContractResponse) call"
  fn_TriggerSmartContract :: "address \<Rightarrow> address \<Rightarrow> string \<Rightarrow> goval list \<Rightarrow> int32 \<Rightarrow> int64 \<Rightarrow> ('w, TriggerSmartContractResponse) call"
  fn_Transfer :: "address \<Rightarrow> address \<Rightarrow> int64 \<Rightarrow> ('w, Transaction) call"
  fn_BroadcastTransaction :: "Transaction option \<Rightarrow> ('w, BroadcastResponse) call"
  fn_GetEnergyPrices :: "('w, EnergyPrices) call"

text \<open>The methods of \<open>fullnode.Client\<close>, those of its embedded solidity client among them.\<close>

definition full_client :: "lib \<Rightarrow> 'w Http \<Rightarrow> 'w FullNodeClient" where
  "full_client L H =
     \<lparr>fn_TriggerConstantContract = sol_TriggerConstantContract H L, fn_EstimateEnergy = sol_EstimateEnergy H L,
      fn_GetNowBlock = sol_GetNowBlock H, fn_GetBlockByNum = sol_GetBlockByNum H, fn_GetAccount = sol_GetAccount H L,
      fn_GetTransactionInfoById = sol_GetTransactionInfoById H, fn_DeployContract = full_DeployContract H L,
      fn_GetContract = full_GetContract H L, fn_TriggerSmartContract = full_TriggerSmartContract H L,
      fn_Transfer = full_Transfer H L, fn_BroadcastTransaction = full_BroadcastTransaction H,
      fn_GetEnergyPrices = full_GetEnergyPrices H\<rparr>"

definition CreateFullNodeClientWithTimeout ::
  "(HttpSettings \<Rightarrow> 'w Net) \<Rightarrow> Codec \<Rightarrow> lib \<Rightarrow> string \<Rightarrow> duration \<Rightarrow> 'w FullNodeClient" where
  "CreateFullNodeClientWithTimeout http_Client C L httpUrl timeout =
     full_client L (node_http (CreateHttpClientWithTimeout http_Client timeout) C httpUrl)"

definition CreateFullNodeClient :: "(HttpSettings \<Rightarrow> 'w Net) \<Rightarrow> Codec \<Rightarrow> lib \<Rightarrow> string \<Rightarrow> 'w FullNodeClient" where
  "CreateFullNodeClient http_Client C L httpUrl =
     CreateFullNodeClientWithTimeout http_Client C L httpUrl (15 * nanos_per_second)"

text \<open>What the combined client does on the full node is what the full node client of the same URL does.\<close>

lemma combined_on_full_node:
  assumes "c = CreateCombinedClient (CreateHttpClientWithTimeout http_Client) C L url surl"
    and "f = CreateFullNodeClient http_Client C L url"
  shows "TriggerConstantContractFullNode c = fn_TriggerConstantContract f" "GetNowBlockFullNode c = fn_GetNowBlock f"
    "GetBlockByNumFullNode c = fn_GetBlockByNum f" "GetAccountFullNode c = fn_GetAccount f"
    "GetTransactionInfoByIdFullNode c = fn_GetTransactionInfoById f" "EstimateEnergy c = fn_EstimateEnergy f"
    "DeployContract c = fn_DeployContract f" "GetContract c = fn_GetContract f" "TriggerSmartContract c = fn_TriggerSmartContract f"
    "Transfer c = fn_Transfer f" "BroadcastTransaction c = fn_BroadcastTransaction f" "GetEnergyPrices c = fn_GetEnergyPrices f"
  by (simp_all add: assms CreateCombinedClient_def CreateCombinedClientWithTimeout_def NewCombinedClient_def
      CreateFullNodeClient_def CreateFullNodeClientWithTimeout_def full_client_def Let_def)

end
