(* ===== verification/TestUtils.thy ===== *)
theory TestUtils
  imports Relayer
begin

text \<open>
  The tests' own implementation of what the relayer takes from libocr, and their helpers
  (integration-tests/utils/utils.go, relayer/testutils): report contexts and signatures as raw words, the
  report of the aggregator tests, the chain ID of a network, a keystore, and polling for transactions.

  Parameters: go-ethereum's \<open>BytesToHash\<close> and \<open>Sign\<close>, libocr's report codec, \<open>sort.Slice\<close> and \<open>json.Marshal\<close>.
\<close>

subsection \<open>utils.go: signatures and report contexts\<close>

definition ToHexString :: "bytes \<Rightarrow> string" where
  "ToHexString b = ''0x'' @ hex_EncodeToString b"

definition GetRSVFromSignature :: "bytes \<Rightarrow> string + string \<times> string \<times> byte" where
  "GetRSVFromSignature signature =
     (if length signature \<noteq> 65 then Inl ''invalid signature length, expected 65 bytes''
      else let r = ToHexString (take 32 signature); s = ToHexString (take 32 (drop 32 signature)); v = signature ! 64
           in Inr (r, s, v))"

definition ConvertSliceOf32BytesToHexStrings :: "bytes list \<Rightarrow> string list" where
  "ConvertSliceOf32BytesToHexStrings d = foldl (\<lambda>hexStrings item. hexStrings @ [''0x'' @ hex_EncodeToString item]) [] d"

definition Convert32BytesToHexString :: "bytes \<Rightarrow> string" where
  "Convert32BytesToHexString d = ''0x'' @ hex_EncodeToString d"

definition PadToBytes32 :: "bytes \<Rightarrow> bytes" where
  "PadToBytes32 rawVs =
     (if 32 < length rawVs then take 32 rawVs else rawVs @ drop (length rawVs) (replicate 32 0))"

text \<open>The three words: the digest; the epoch (big-endian) and the round at the end of the second; the extra hash.\<close>

definition utils_RawReportContext :: "ReportContext \<Rightarrow> bytes list" where
  "utils_RawReportContext repctx =
     (let word1 = replicate 27 0 @ word32_bytes (rx_Epoch repctx) @ [0]
      in [rx_ConfigDigest repctx, word1[31 := rx_Round repctx], rx_ExtraHash repctx])"

definition RawReportContextToHexString :: "bytes list \<Rightarrow> string list" where
  "RawReportContextToHexString rawRepctx = List.map (\<lambda>raw. ''0x'' @ hex_EncodeToString raw) rawRepctx"

definition utils_SplitSignature :: "(bytes \<Rightarrow> bytes) \<Rightarrow> bytes \<Rightarrow> string + bytes \<times> bytes \<times> byte" where
  "utils_SplitSignature hash_of sig =
     (if length sig \<noteq> 65 then Inl ''SplitSignature: wrong size''
      else Inr (hash_of (take 32 sig), hash_of (take 32 (drop 32 sig)), sig ! 64))"

definition test_evmutil :: "(bytes \<Rightarrow> bytes) \<Rightarrow> evmutil" where
  "test_evmutil hash_of =
     \<lparr>RawReportContext = utils_RawReportContext, SplitSignature = utils_SplitSignature hash_of\<rparr>"

text \<open>Documented of \<open>BytesToHash\<close>: 32 bytes are the hash itself.\<close>

definition hash_bytes :: "(bytes \<Rightarrow> bytes) \<Rightarrow> bool" where
  "hash_bytes hash_of \<longleftrightarrow> (\<forall>b. length b = 32 \<longrightarrow> hash_of b = b)"

lemma length_word32_bytes [simp]: "length (word32_bytes w) = 4"
  by (simp add: word32_bytes_def)

lemma word32_bytes_inject: "word32_bytes w = word32_bytes w' \<longleftrightarrow> w = w'"
proof
  assume eq: "word32_bytes w = word32_bytes w'"
  have byte: "unat (of_nat (n mod 256) :: byte) = n mod 256" for n by (simp add: unat_of_nat)
  have digit: "unat w div 256 ^ i mod 256 = unat w' div 256 ^ i mod 256" if "i \<in> {0, 1, 2, 3}" for i
    using arg_cong [OF eq, of "\<lambda>bs. List.map unat bs"] that by (auto simp: word32_bytes_def byte)
  have step: "n div 256 ^ i = 256 * (n div 256 ^ Suc i) + n div 256 ^ i mod 256" for n i :: nat
    using mult_div_mod_eq [of 256 "n div 256 ^ i"] by (simp only: div_mult2_eq power_Suc2)
  have low: "unat v div 256 ^ 4 = 0" for v :: uint32 using unsigned_less [where ?'a = nat, of v] by simp
  have down: "unat w div 256 ^ i = unat w' div 256 ^ i"
    if "unat w div 256 ^ Suc i = unat w' div 256 ^ Suc i" "i \<in> {0, 1, 2, 3}" for i
    using step [of "unat w" i] step [of "unat w'" i] digit [OF that(2)] that(1) by simp
  have "unat w div 256 ^ 3 = unat w' div 256 ^ 3" using down [of 3] low by simp
  then have "unat w div 256 ^ 2 = unat w' div 256 ^ 2" using down [of 2] by simp
  then have "unat w div 256 ^ 1 = unat w' div 256 ^ 1" using down [of 1] by (simp add: numeral_2_eq_2)
  then have "unat w = unat w'" using down [of 0] by simp
  then show "w = w'" by (simp add: word_unat_eq_iff)
qed simp

lemma utils_context_words:
  "utils_RawReportContext c = [rx_ConfigDigest c, replicate 27 0 @ word32_bytes (rx_Epoch c) @ [rx_Round c], rx_ExtraHash c]"
  by (simp add: utils_RawReportContext_def list_update_append)

lemma utils_context_inject: "utils_RawReportContext c = utils_RawReportContext c' \<longleftrightarrow> c = c'"
proof
  assume "utils_RawReportContext c = utils_RawReportContext c'"
  then have eq: "rx_ConfigDigest c = rx_ConfigDigest c'" "rx_ExtraHash c = rx_ExtraHash c'"
    "word32_bytes (rx_Epoch c) @ [rx_Round c] = word32_bytes (rx_Epoch c') @ [rx_Round c']"
    by (simp_all add: utils_context_words)
  then show "c = c'" by (simp add: word32_bytes_inject)
qed simp

lemma signature_parts:
  assumes "length sig = 65"
  shows "take 32 sig @ take 32 (drop 32 sig) @ [sig ! 64] = sig"
proof -
  have "drop 64 sig = [sig ! 64]"
    using assms Cons_nth_drop_Suc [of 64 sig] by simp
  moreover have "take 32 (drop 32 sig) @ drop 64 sig = drop 32 sig"
    using append_take_drop_id [of 32 "drop 32 sig"] by simp
  ultimately show ?thesis using append_take_drop_id [of 32 sig] by simp
qed

lemma utils_split:
  assumes "hash_bytes B"
  shows "splits (test_evmutil B) sig \<longleftrightarrow> length sig = 65"
    and "length sig = 65 \<Longrightarrow> sig_r (test_evmutil B) sig @ sig_s (test_evmutil B) sig @ [sig_v (test_evmutil B) sig] = sig"
proof -
  show "splits (test_evmutil B) sig \<longleftrightarrow> length sig = 65"
    by (simp add: splits_def test_evmutil_def utils_SplitSignature_def)
  assume len: "length sig = 65"
  then have "B (take 32 sig) = take 32 sig" "B (take 32 (drop 32 sig)) = take 32 (drop 32 sig)"
    using assms by (simp_all add: hash_bytes_def)
  then show "sig_r (test_evmutil B) sig @ sig_s (test_evmutil B) sig @ [sig_v (test_evmutil B) sig] = sig"
    using len signature_parts [OF len]
    by (simp add: sig_r_def sig_s_def sig_v_def test_evmutil_def utils_SplitSignature_def)
qed

lemma PadToBytes32_length: "length (PadToBytes32 b) = 32"
  by (simp add: PadToBytes32_def)

text \<open>The two functions on signatures agree, one giving texts and the other bytes.\<close>

lemma rsv_agree:
  "hash_bytes B \<Longrightarrow> GetRSVFromSignature sig = Inr (r, s, v) \<longleftrightarrow>
     (\<exists>r' s'. utils_SplitSignature B sig = Inr (r', s', v) \<and> r = ToHexString r' \<and> s = ToHexString s')"
  by (auto simp: GetRSVFromSignature_def utils_SplitSignature_def hash_bytes_def Let_def)

lemma columns_lossless:
  assumes "hash_bytes B" and "\<not> excludeSigs oc" and "\<forall>sig \<in> set sigs \<union> set sigs'. length sig = 65"
    and "columns (test_evmutil B) oc sigs = columns (test_evmutil B) oc sigs'"
  shows "sigs = sigs'"
proof -
  let ?U = "test_evmutil B"
  have cols: "List.map (sig_r ?U) sigs = List.map (sig_r ?U) sigs'" "List.map (sig_s ?U) sigs = List.map (sig_s ?U) sigs'"
    "List.map (sig_v ?U) sigs @ replicate (32 - length sigs) 0 = List.map (sig_v ?U) sigs' @ replicate (32 - length sigs') 0"
    using assms(2,4) by (simp_all add: columns_def)
  have len: "length sigs = length sigs'" using arg_cong [OF cols(1), of length] by simp
  then have vs: "List.map (sig_v ?U) sigs = List.map (sig_v ?U) sigs'" using cols(3) by simp
  have same: "sig_r ?U (sigs ! i) = sig_r ?U (sigs' ! i)" "sig_s ?U (sigs ! i) = sig_s ?U (sigs' ! i)"
    "sig_v ?U (sigs ! i) = sig_v ?U (sigs' ! i)" if "i < length sigs" for i
    using arg_cong [OF cols(1), of "\<lambda>l. l ! i"] arg_cong [OF cols(2), of "\<lambda>l. l ! i"]
      arg_cong [OF vs, of "\<lambda>l. l ! i"] len that by simp_all
  have "sigs ! i = sigs' ! i" if "i < length sigs" for i
  proof -
    have "length (sigs ! i) = 65" "length (sigs' ! i) = 65" using assms(3) len that by auto
    from utils_split(2) [OF assms(1) this(1), unfolded same [OF that]] utils_split(2) [OF assms(1) this(2)]
    show ?thesis by (rule trans [OF sym])
  qed
  then show ?thesis using len by (simp add: list_eq_iff_nth_eq)
qed

text \<open>
  C25. Round trip: with the word layout and the signature format of the contract tests, nothing of a report
  is lost or confused in the call data: two transmissions with the same parameters have the same
  digest, epoch, round and extra hash, the same report, and the same signatures in the same order.
\<close>

theorem report_lossless:
  assumes "hash_bytes B" and "U = test_evmutil B" and "\<not> excludeSigs oc"
    and "\<forall>sig \<in> set sigs \<union> set sigs'. length sig = 65"
  shows "transmit_params (RawReportContext U c) rep (columns U oc sigs)
      = transmit_params (RawReportContext U c') rep' (columns U oc sigs')
    \<longleftrightarrow> c = c' \<and> rep = rep' \<and> sigs = sigs'"
proof
  assume eq: "transmit_params (RawReportContext U c) rep (columns U oc sigs)
      = transmit_params (RawReportContext U c') rep' (columns U oc sigs')"
  then have "utils_RawReportContext c = utils_RawReportContext c'" "rep = rep'"
    "columns U oc sigs = columns U oc sigs'"
    by (auto simp: transmit_params_def assms(2) test_evmutil_def columns_def split_beta assms(3))
  then show "c = c' \<and> rep = rep' \<and> sigs = sigs'"
    using columns_lossless [OF assms(1,3,4)] by (simp add: utils_context_inject assms(2))
qed simp

theorem report_lossless_witness:
  "transmit_params (RawReportContext (test_evmutil (\<lambda>b. b)) sample_context) [1] (columns (test_evmutil (\<lambda>b. b)) sample_transmitter [replicate 65 4])
   \<noteq> transmit_params (RawReportContext (test_evmutil (\<lambda>b. b)) sample_context) [1] (columns (test_evmutil (\<lambda>b. b)) sample_transmitter [replicate 65 5])"
proof -
  have "hash_bytes (\<lambda>b. b)" "\<not> excludeSigs sample_transmitter"
    by (simp_all add: hash_bytes_def sample_transmitter_def NewOCRContractTransmitter_def)
  from report_lossless [OF this(1) refl this(2), of "[replicate 65 4]" "[replicate 65 5]" sample_context "[1]" sample_context "[1]"]
  show ?thesis by (simp add: numeral_eq_Suc)
qed

subsection \<open>utils.go: the chain ID of a network\<close>

text \<open>
  The start of \<open>setUpTronEnvironment\<close>. \<open>chainIdInt.SetString\<close> is called without a look at its result: with a
  text that is no number the value is unspecified, the argument \<open>junk\<close>.
\<close>

definition setup_chainId :: "'w CombinedClient \<Rightarrow> (string \<Rightarrow> int) \<Rightarrow> 'w \<Rightarrow> ('w \<times> (string + string)) outcome" where
  "setup_chainId combinedClient junk w =
     outcome_bind (GetBlockByNum combinedClient 0 w) (\<lambda>(w, blockInfo, err).
       case err of
         Some e \<Rightarrow> Done (w, Inl e)
       | None \<Rightarrow>
           (case blockInfo of
              None \<Rightarrow> Panic
            | Some b \<Rightarrow>
                let blockId = BlockID b
                in if length blockId < 8 then Panic
                   else let chainIdHex = drop (length blockId - 8) blockId;
                            chainIdInt = (case big_SetString chainIdHex 16 of None \<Rightarrow> junk chainIdHex | Some n \<Rightarrow> n)
                        in Done (w, Inr (big_String chainIdInt))))"

text \<open>
  C26. Equivalence of the two readings of a chain ID: on a network whose genesis block has the chain ID n,
  the text that the set-up writes into the configuration of the nodes is read back by \<open>NewRelayer\<close>
  as n, and n is the only configured chain ID with which the validated client accepts the network.
\<close>

theorem setup_chain_accepted:
  assumes "GetBlockByNum c 0 w = Done (w', Some b, None)" and "chain_id_of_block b = Done (Inr n)" and "0 \<le> n"
  shows "\<exists>cid. setup_chainId c junk w = Done (w', Inr cid) \<and> parse_chain_id cid = Some n
    \<and> (\<forall>m. (\<exists>v. validate c m (w, not_validated) = Done ((w', v), None)) \<longleftrightarrow> parse_chain_id cid = Some m)"
proof -
  have len: "\<not> length (BlockID b) < 8" and num: "big_SetString (drop (length (BlockID b) - 8) (BlockID b)) 16 = Some n"
    using assms(2) by (auto simp: chain_id_of_block_def Let_def split: if_splits option.splits)
  have cid: "big_String n = dec_string (nat n)" using assms(3) by (simp add: big_String_def)
  have "setup_chainId c junk w = Done (w', Inr (big_String n))"
    using len num by (simp add: setup_chainId_def assms(1))
  moreover have parse: "parse_chain_id (big_String n) = Some n" using parse_chain_id_decimal [of "nat n"] assms(3) cid by simp
  moreover have "(\<exists>v. validate c m (w, not_validated) = Done ((w', v), None)) \<longleftrightarrow> n = m" for m
    by (simp add: validate_def not_validated_def assms(1,2) Let_def)
  ultimately show ?thesis by auto
qed

theorem setup_chain_accepted_witness:
  "\<exists>cid. setup_chainId (sample_client ''0000000000000005'') (\<lambda>_. 0) 0 = Done (1, Inr cid) \<and> parse_chain_id cid = Some 5"
proof -
  have "big_SetString ''00000005'' 16 = Some 5" by code_simp
  then have b: "chain_id_of_block (sample_block ''0000000000000005'' 0 0) = Done (Inr 5)"
    by (simp add: chain_id_of_block_def sample_block_def)
  have g: "GetBlockByNum (sample_client ''0000000000000005'') 0 0 = Done (1, Some (sample_block ''0000000000000005'' 0 0), None)"
    by (simp add: sample_client_def NewCombinedClient_def sol_GetBlockByNum_def sample_http_def after_rpc_def check_block_def sample_block_def)
  from setup_chain_accepted [OF g b, of "\<lambda>_. 0"] show ?thesis by auto
qed

subsection \<open>utils.go: parameters and the report\<close>

datatype test_failure = OddParams | NonStringType | MarshalError string

fun encode_pairs :: "goval list \<Rightarrow> (string \<rightharpoonup> goval) list \<Rightarrow> test_failure + (string \<rightharpoonup> goval) list" where
  "encode_pairs (t # v # ps) acc =
     (case as_string t of None \<Rightarrow> Inl NonStringType | Some ty \<Rightarrow> encode_pairs ps (acc @ [[ty \<mapsto> v]]))"
| "encode_pairs _ acc = Inr acc"

definition MustMarshalParams :: "((string \<rightharpoonup> goval) list \<Rightarrow> string + string) \<Rightarrow> goval list \<Rightarrow> test_failure + string" where
  "MustMarshalParams marshal params =
     (if length params mod 2 = 1 then Inl OddParams
      else (case encode_pairs params [] of
              Inl e \<Rightarrow> Inl e
            | Inr encodedParams \<Rightarrow> (case marshal encodedParams of Inl e \<Rightarrow> Inl (MarshalError e) | Inr b \<Rightarrow> Inr b)))"

definition MustConvertAddress :: "lib \<Rightarrow> string \<Rightarrow> address_error + address" where
  "MustConvertAddress L tronAddress = StringToAddress L tronAddress"

definition MustConvertToEthAddress :: "lib \<Rightarrow> string \<Rightarrow> (address_error + bytes) outcome" where
  "MustConvertToEthAddress L tronAddress =
     (case StringToAddress L tronAddress of
        Inl e \<Rightarrow> Done (Inl e)
      | Inr a \<Rightarrow> outcome_bind (EthAddress L a) (\<lambda>e. Done (Inr e)))"

definition FunctionSignatureHash :: "(bytes \<Rightarrow> bytes) \<Rightarrow> string \<Rightarrow> string" where
  "FunctionSignatureHash keccak functionSignature =
     (let hash = keccak (string_bytes functionSignature) in ''0x'' @ hex_EncodeToString hash)"

record ParsedAttributedObservation =
  pao_Timestamp :: uint32
  pao_Value :: int
  JuelsPerFeeCoin :: int
  GasPriceSubunits :: int
  Observer :: uint8

definition test_observations :: "ParsedAttributedObservation list" where
  "test_observations = List.map (\<lambda>(t, v, obs). \<lparr>pao_Timestamp = t, pao_Value = v, JuelsPerFeeCoin = 1000000000000000000,
     GasPriceSubunits = 0, Observer = obs\<rparr>)
    [
     (1750755864, 1271127070705242445, 0), (901430628, 7142860741125246750, 1), (3441600637, 6632808366083118734, 2),
     (2535110149, 8911919877521849818, 3), (3892996001, 786026922747303397, 4), (632275502, 2731549183433775004, 5),
     (3117570168, 7911589968318461182, 6), (2894514909, 5776549002916223716, 7), (810936509, 6200928152459444193, 8),
     (1745543156, 6701302325764932302, 9), (1480268637, 8154764892406459019, 10), (4251749876, 2846500446905292057, 11),
     (2841869438, 6297123943045257721, 12), (2778158242, 4898235019263516856, 13), (358910537, 538793199214391335, 14),
     (1929768584, 1848167929414573296, 15), (2097386607, 6045326344142570107, 16), (1796893012, 6191080222126842088, 17),
     (2325194541, 5164923635739237355, 18), (806699139, 8639664443292681347, 19), (1561217097, 1933969485392146004, 20),
     (2577347004, 6988926203054418701, 21), (637874287, 5165075787665716655, 22), (2560416105, 6193326628629273182, 23),
     (1636608432, 8221375515390474978, 24), (1962450390, 6513272651572558066, 25), (2760531991, 7814566626301179977, 26),
     (3432267792, 4173452982976083880, 27), (2808783005, 6740236431543500352, 28), (2258741909, 4575545089208729518, 29),
     (2051531540, 4567101290862106515, 30)]"

text \<open>\<open>%x\<close> of a number that is not negative.\<close>

fun hex_nat :: "nat \<Rightarrow> string" where
  "hex_nat n = (if n < 16 then [hex_char n] else hex_nat (n div 16) @ [hex_char (n mod 16)])"

declare hex_nat.simps [simp del]

definition GenerateOCR2Report ::
  "((ParsedAttributedObservation \<Rightarrow> ParsedAttributedObservation \<Rightarrow> bool) \<Rightarrow> ParsedAttributedObservation list \<Rightarrow>
     ParsedAttributedObservation list) \<Rightarrow> (ParsedAttributedObservation list \<Rightarrow> string + bytes) \<Rightarrow> string + string \<times> string" where
  "GenerateOCR2Report sort_Slice BuildReport =
     (let paos = sort_Slice (\<lambda>a b. pao_Value a < pao_Value b) test_observations;
          medianIndex = length paos div 2;
          m = pao_Value (paos ! medianIndex);
          medianHex = ''0x'' @ hex_nat (nat m)
      in case BuildReport paos of
           Inl err \<Rightarrow> Inl err
         | Inr built \<Rightarrow> Inr (''0x'' @ hex_EncodeToString built, medianHex))"

text \<open>Documented of \<open>sort.Slice\<close>: the result is a permutation in which no later element is less than an earlier one.\<close>

definition sorts :: "(('a \<Rightarrow> 'a \<Rightarrow> bool) \<Rightarrow> 'a list \<Rightarrow> 'a list) \<Rightarrow> bool" where
  "sorts sort_Slice \<longleftrightarrow> (\<forall>less xs. mset (sort_Slice less xs) = mset xs
     \<and> (\<forall>i j. i < j \<longrightarrow> j < length xs \<longrightarrow> \<not> less (sort_Slice less xs ! j) (sort_Slice less xs ! i)))"

lemma test_report_median:
  assumes "sorts sort_Slice" and "BuildReport (sort_Slice (\<lambda>a b. pao_Value a < pao_Value b) test_observations) = Inr built"
  shows "GenerateOCR2Report sort_Slice BuildReport
    = Inr (''0x'' @ hex_EncodeToString built, ''0x'' @ hex_nat (nat (sort (List.map pao_Value test_observations) ! 15)))"
proof -
  let ?s = "sort_Slice (\<lambda>a b. pao_Value a < pao_Value b) test_observations"
  have m: "mset ?s = mset test_observations" using assms(1) by (simp add: sorts_def)
  then have len: "length ?s = 31" using mset_eq_length [OF m] by (simp add: test_observations_def)
  have "sorted (List.map pao_Value ?s)"
    using assms(1) mset_eq_length [OF m] by (auto simp: sorts_def sorted_iff_nth_mono_less not_less)
  moreover have "mset (List.map pao_Value ?s) = mset (List.map pao_Value test_observations)"
    using m by (simp only: mset_map)
  ultimately have "sort (List.map pao_Value test_observations) = List.map pao_Value ?s"
    by (intro properties_for_sort) simp_all
  then have "pao_Value (?s ! 15) = sort (List.map pao_Value test_observations) ! 15"
    using len by simp
  then show ?thesis using assms(2) len by (simp add: GenerateOCR2Report_def)
qed

end
