(* ===== verification/TestJobs.thy ===== *)
theory TestJobs
  imports TestEnv
begin

text \<open>
  integration-tests/common/client.go: the oracles of a contract configuration, from the keys of the nodes, and
  the jobs that the nodes are given. Parameters: libocr's \<open>ContractSetConfigArgsForTests\<close>, UUIDs and the
  requests to the nodes.
\<close>

subsection \<open>The oracles of a configuration\<close>

record NodeKeysBundle =
  OffChainPublicKey :: string
  OnChainPublicKey :: string
  ConfigPublicKey :: string
  OCR2KeyID :: string
  TXKeyID :: string
  nk_PeerID :: string

record OracleIdentityExtra =
  oi_OffchainPublicKey :: bytes
  oi_OnchainPublicKey :: bytes
  oi_PeerID :: string
  oi_TransmitAccount :: string
  oi_ConfigEncryptionPublicKey :: bytes

datatype oracle_error = KeyNotHex string hex_error | KeyLength nat nat | BadTransmitter address_error | SetConfigArgs string

definition decode_key :: "string \<Rightarrow> nat \<Rightarrow> string \<Rightarrow> oracle_error + bytes" where
  "decode_key pre len s =
     (case hex_DecodeString (strings_TrimPrefix s pre) of
        (b, Some err) \<Rightarrow> Inl (KeyNotHex s err)
      | (b, None) \<Rightarrow> if length b \<noteq> len then Inl (KeyLength len (length b)) else Inr b)"

definition oracle_identity :: "lib \<Rightarrow> NodeKeysBundle \<Rightarrow> (oracle_error + OracleIdentityExtra) outcome" where
  "oracle_identity L key =
     (case decode_key ''ocr2off_tron_'' 32 (OffChainPublicKey key) of
        Inl e \<Rightarrow> Done (Inl e)
      | Inr offchain \<Rightarrow>
     (case decode_key ''ocr2on_tron_'' 20 (OnChainPublicKey key) of
        Inl e \<Rightarrow> Done (Inl e)
      | Inr onchain \<Rightarrow>
     (case decode_key ''ocr2cfg_tron_'' 32 (ConfigPublicKey key) of
        Inl e \<Rightarrow> Done (Inl e)
      | Inr cfg \<Rightarrow>
     (case StringToAddress L (TXKeyID key) of
        Inl e \<Rightarrow> Done (Inl (BadTransmitter e))
      | Inr transmitterAddress \<Rightarrow>
          outcome_bind (EthAddress L transmitterAddress) (\<lambda>e. Done (Inr
            \<lparr>oi_OffchainPublicKey = offchain, oi_OnchainPublicKey = onchain, oi_PeerID = nk_PeerID key,
             oi_TransmitAccount = eth_AddressString L e, oi_ConfigEncryptionPublicKey = cfg\<rparr>))))))"

fun oracle_identities ::
  "lib \<Rightarrow> NodeKeysBundle list \<Rightarrow> nat list \<Rightarrow> OracleIdentityExtra list \<Rightarrow>
     (oracle_error + nat list \<times> OracleIdentityExtra list) outcome" where
  "oracle_identities L [] S ois = Done (Inr (S, ois))"
| "oracle_identities L (key # keys) S ois =
     outcome_bind (oracle_identity L key) (\<lambda>r.
       case r of Inl e \<Rightarrow> Done (Inl e) | Inr oi \<Rightarrow> oracle_identities L keys (S @ [1]) (ois @ [oi]))"

text \<open>
  The timing and the plugin configuration of the tests, the arguments of \<open>ContractSetConfigArgsForTests\<close> that
  are not computed. A nil duration is \<open>None\<close>; \<open>Encode\<close> of the median plugin is a parameter.
\<close>

record MedianOffchainConfig =
  AlphaReportInfinite :: bool
  AlphaReportPPB :: nat
  AlphaAcceptInfinite :: bool
  AlphaAcceptPPB :: nat
  DeltaC :: duration

definition test_median_config :: MedianOffchainConfig where
  "test_median_config =
     \<lparr>AlphaReportInfinite = False, AlphaReportPPB = 5000000, AlphaAcceptInfinite = False, AlphaAcceptPPB = 5000000,
      DeltaC = 3600 * nanos_per_second * 24\<rparr>"

record SetConfigParams =
  deltaProgress :: duration
  deltaResend :: duration
  deltaRound :: duration
  deltaGrace :: duration
  deltaStage :: duration
  rMax :: nat
  scp_s :: "nat list"
  scp_oracles :: "OracleIdentityExtra list"
  reportingPluginConfig :: bytes
  maxDurationInitialization :: "duration option"
  maxDurationQuery :: duration
  maxDurationObservation :: duration
  maxDurationReport :: duration
  maxDurationShouldAcceptFinalizedReport :: duration
  maxDurationShouldTransmitAcceptedReport :: duration
  scp_f :: nat
  scp_onchainConfig :: bytes

definition set_config_params :: "(MedianOffchainConfig \<Rightarrow> bytes) \<Rightarrow> nat list \<Rightarrow> OracleIdentityExtra list \<Rightarrow> SetConfigParams" where
  "set_config_params Encode S oracleIdentities =
     \<lparr>deltaProgress = 60 * nanos_per_second, deltaResend = 30 * nanos_per_second, deltaRound = 10 * nanos_per_second,
      deltaGrace = 5 * nanos_per_second, deltaStage = 60 * nanos_per_second, rMax = 6, scp_s = S,
      scp_oracles = oracleIdentities, reportingPluginConfig = Encode test_median_config,
      maxDurationInitialization = None, maxDurationQuery = 2 * nanos_per_second,
      maxDurationObservation = 12 * nanos_per_second, maxDurationReport = 20 * nanos_per_second,
      maxDurationShouldAcceptFinalizedReport = 20 * nanos_per_second,
      maxDurationShouldTransmitAcceptedReport = 20 * nanos_per_second, scp_f = 1, scp_onchainConfig = []\<rparr>"

definition GetSetConfigArgs ::
  "lib \<Rightarrow> (MedianOffchainConfig \<Rightarrow> bytes) \<Rightarrow> (SetConfigParams \<Rightarrow> string + 'a) \<Rightarrow> NodeKeysBundle list \<Rightarrow>
     (oracle_error + 'a) outcome" where
  "GetSetConfigArgs L Encode ContractSetConfigArgsForTests NodeKeys =
     outcome_bind (oracle_identities L NodeKeys [] []) (\<lambda>r. Done
       (case r of
          Inl e \<Rightarrow> Inl e
        | Inr (S, oracleIdentities) \<Rightarrow>
            (case ContractSetConfigArgsForTests (set_config_params Encode S oracleIdentities) of
               Inl err \<Rightarrow> Inl (SetConfigArgs err)
             | Inr args \<Rightarrow> Inr args)))"

fun GetNodeAddresses :: "lib \<Rightarrow> NodeKeysBundle list \<Rightarrow> address list \<Rightarrow> address list outcome" where
  "GetNodeAddresses L [] addresses = Done addresses"
| "GetNodeAddresses L (nodeKey # ks) addresses =
     (case StringToAddress L (TXKeyID nodeKey) of
        Inl err \<Rightarrow> Panic
      | Inr nodeAddress \<Rightarrow> GetNodeAddresses L ks (addresses @ [nodeAddress]))"

lemma decode_key_Inr:
  "decode_key pre len s = Inr b \<longleftrightarrow> hex_DecodeString (strings_TrimPrefix s pre) = (b, None) \<and> length b = len"
  by (auto simp: decode_key_def split: prod.splits option.splits)

lemma oracle_identity_Inr:
  "oracle_identity L key = Done (Inr oi) \<longleftrightarrow>
     decode_key ''ocr2off_tron_'' 32 (OffChainPublicKey key) = Inr (oi_OffchainPublicKey oi)
     \<and> decode_key ''ocr2on_tron_'' 20 (OnChainPublicKey key) = Inr (oi_OnchainPublicKey oi)
     \<and> decode_key ''ocr2cfg_tron_'' 32 (ConfigPublicKey key) = Inr (oi_ConfigEncryptionPublicKey oi)
     \<and> oi_PeerID oi = nk_PeerID key
     \<and> (\<exists>a e. StringToAddress L (TXKeyID key) = Inr a \<and> EthAddress L a = Done e \<and> oi_TransmitAccount oi = eth_AddressString L e)"
  by (cases oi; cases "decode_key ''ocr2off_tron_'' 32 (OffChainPublicKey key)";
      cases "decode_key ''ocr2on_tron_'' 20 (OnChainPublicKey key)";
      cases "decode_key ''ocr2cfg_tron_'' 32 (ConfigPublicKey key)"; cases "StringToAddress L (TXKeyID key)")
    (auto simp: oracle_identity_def outcome_bind_eq_Done)

lemma oracle_identity_exact:
  "oracle_identity L k = Done (Inr oi) \<longleftrightarrow>
      hex_DecodeString (strings_TrimPrefix (OffChainPublicKey k) ''ocr2off_tron_'') = (oi_OffchainPublicKey oi, None)
      \<and> hex_DecodeString (strings_TrimPrefix (OnChainPublicKey k) ''ocr2on_tron_'') = (oi_OnchainPublicKey oi, None)
      \<and> hex_DecodeString (strings_TrimPrefix (ConfigPublicKey k) ''ocr2cfg_tron_'') = (oi_ConfigEncryptionPublicKey oi, None)
      \<and> length (oi_OffchainPublicKey oi) = 32 \<and> length (oi_OnchainPublicKey oi) = 20
      \<and> length (oi_ConfigEncryptionPublicKey oi) = 32 \<and> oi_PeerID oi = nk_PeerID k
      \<and> (\<exists>a e. StringToAddress L (TXKeyID k) = Inr a \<and> EthAddress L a = Done e
          \<and> oi_TransmitAccount oi = eth_AddressString L e)"
  unfolding oracle_identity_Inr decode_key_Inr by blast

lemma oracle_identities_Inr:
  "oracle_identities L keys S ois = Done (Inr (S', ois')) \<longleftrightarrow>
     (\<exists>xs. list_all2 (\<lambda>k oi. oracle_identity L k = Done (Inr oi)) keys xs
        \<and> ois' = ois @ xs \<and> S' = S @ replicate (length keys) 1)"
proof (induction keys arbitrary: S ois)
  case (Cons k keys)
  show ?case
  proof (cases "\<exists>oi. oracle_identity L k = Done (Inr oi)")
    case True
    then obtain oi where "oracle_identity L k = Done (Inr oi)" by blast
    then show ?thesis by (auto simp: Cons.IH list_all2_Cons1)
  next
    case False
    then show ?thesis by (auto simp: outcome_bind_eq_Done list_all2_Cons1 split: sum.splits)
  qed
qed auto

subsection \<open>The jobs\<close>

record OCR2OracleSpec =
  os_ContractID :: string
  os_Relay :: string
  os_NodeName :: string
  os_ChainID :: string
  os_PluginType :: string
  os_OCRKeyBundleID :: "string option"
  os_TransmitterID :: "string option"
  os_P2PV2Bootstrappers :: "string list"
  os_ContractConfigConfirmations :: nat
  os_JuelsPerFeeCoinSource :: "string option"

record Bridge =
  br_Name :: string
  br_URL :: string
  br_RequestData :: string

record JobSpec =
  js_Name :: string
  js_JobType :: string
  js_OCR2OracleSpec :: OCR2OracleSpec
  js_ObservationSource :: "Bridge option"

text \<open>The requests to the node of an index, and what they need: UUIDs, and the text of a bootstrap peer.\<close>

record 'w JobEnv =
  MustCreateJob :: "nat \<Rightarrow> JobSpec \<Rightarrow> 'w \<Rightarrow> 'w \<times> string option"
  CreateBridge :: "nat \<Rightarrow> Bridge \<Rightarrow> 'w \<Rightarrow> 'w \<times> string option"
  uuid_NewString :: "'w \<Rightarrow> 'w \<times> string"
  P2PV2Bootstrapper :: "string \<Rightarrow> string \<Rightarrow> string \<Rightarrow> string"   \<comment> \<open>internal IP, port, peer ID\<close>

definition bootstrap_spec :: "string \<Rightarrow> string \<Rightarrow> string \<Rightarrow> OCR2OracleSpec" where
  "bootstrap_spec chainId nodeName ocrControllerAddress =
     \<lparr>os_ContractID = ocrControllerAddress, os_Relay = ''tron'', os_NodeName = nodeName, os_ChainID = chainId,
      os_PluginType = [], os_OCRKeyBundleID = None, os_TransmitterID = None, os_P2PV2Bootstrappers = [],
      os_ContractConfigConfirmations = 1, os_JuelsPerFeeCoinSource = None\<rparr>"

definition source_bridge :: "string \<Rightarrow> Bridge" where
  "source_bridge mockUrl = \<lparr>br_Name = ''mockserver-bridge'', br_URL = mockUrl @ ''/random'', br_RequestData = ''{}''\<rparr>"

definition oracle_spec :: "string \<Rightarrow> string \<Rightarrow> string \<Rightarrow> string \<Rightarrow> string list \<Rightarrow> NodeKeysBundle \<Rightarrow> OCR2OracleSpec" where
  "oracle_spec chainId nodeName ocrControllerAddress juelsPerFeeCoinSource p2pBootstrappers key =
     \<lparr>os_ContractID = ocrControllerAddress, os_Relay = ''tron'', os_NodeName = nodeName, os_ChainID = chainId,
      os_PluginType = ''median'', os_OCRKeyBundleID = Some (OCR2KeyID key), os_TransmitterID = Some (TXKeyID key),
      os_P2PV2Bootstrappers = [join_char CHR '','' p2pBootstrappers],
      os_ContractConfigConfirmations = 1, os_JuelsPerFeeCoinSource = Some juelsPerFeeCoinSource\<rparr>"

text \<open>The loop over the nodes, the first of which is skipped; an index without keys panics.\<close>

fun jobs_loop ::
  "'w JobEnv \<Rightarrow> (NodeKeysBundle \<Rightarrow> OCR2OracleSpec) \<Rightarrow> Bridge \<Rightarrow> NodeKeysBundle list \<Rightarrow> nat list \<Rightarrow> 'w \<Rightarrow> ('w \<times> string option) outcome" where
  "jobs_loop J spec b keys [] w = Done (w, None)"
| "jobs_loop J spec b keys (nIdx # is) w =
     (if nIdx = 0 then jobs_loop J spec b keys is w
      else (case CreateBridge J nIdx b w of
              (w, Some err) \<Rightarrow> Done (w, Some err)
            | (w, None) \<Rightarrow>
                if length keys \<le> nIdx then Panic
                else let (w, u) = uuid_NewString J w
                     in (case MustCreateJob J nIdx
                             \<lparr>js_Name = ''tron-OCRv2-'' @ dec_string nIdx @ ''-'' @ u, js_JobType = ''offchainreporting2'',
                              js_OCR2OracleSpec = spec (keys ! nIdx), js_ObservationSource = Some b\<rparr> w of
                           (w, Some err) \<Rightarrow> Done (w, Some err)
                         | (w, None) \<Rightarrow> jobs_loop J spec b keys is w)))"

definition CreateJobsForContract ::
  "'w JobEnv \<Rightarrow> string list \<Rightarrow> NodeKeysBundle list \<Rightarrow> string \<Rightarrow> string \<Rightarrow> string \<Rightarrow> string \<Rightarrow> string \<Rightarrow> string \<Rightarrow> 'w \<Rightarrow>
     ('w \<times> string option) outcome" where
  "CreateJobsForContract J nodes NodeKeys chainId nodeName p2pPort mockUrl juelsPerFeeCoinSource ocrControllerAddress w =
     (if nodes = [] \<or> NodeKeys = [] then Panic
      else
        let p2pBootstrappers = [P2PV2Bootstrapper J (nodes ! 0) p2pPort (nk_PeerID (NodeKeys ! 0))];
            (w, u) = uuid_NewString J w
        in (case MustCreateJob J 0
                \<lparr>js_Name = ''tron-OCRv2-bootstrap-'' @ u, js_JobType = ''bootstrap'',
                 js_OCR2OracleSpec = bootstrap_spec chainId nodeName ocrControllerAddress, js_ObservationSource = None\<rparr> w of
              (w, Some err) \<Rightarrow> Done (w, Some err)
            | (w, None) \<Rightarrow>
                jobs_loop J (oracle_spec chainId nodeName ocrControllerAddress juelsPerFeeCoinSource p2pBootstrappers)
                  (source_bridge mockUrl) NodeKeys [0..<length nodes] w))"

text \<open>
  Functional: the arguments of a contract configuration are computed from all nodes, in order and
  with one share each, and only when every key decodes at its length and every transmitter is an
  address; each oracle then transmits from the EVM text of the same 20 bytes as its TRON address.
\<close>

theorem config_oracles_exact:
  "GetSetConfigArgs L enc args keys = Done (Inr r) \<longleftrightarrow>
    (\<exists>ois. args (set_config_params enc (replicate (length keys) 1) ois) = Inr r \<and> list_all2 (\<lambda>k oi.
        hex_DecodeString (strings_TrimPrefix (OffChainPublicKey k) ''ocr2off_tron_'') = (oi_OffchainPublicKey oi, None)
      \<and> hex_DecodeString (strings_TrimPrefix (OnChainPublicKey k) ''ocr2on_tron_'') = (oi_OnchainPublicKey oi, None)
      \<and> hex_DecodeString (strings_TrimPrefix (ConfigPublicKey k) ''ocr2cfg_tron_'') = (oi_ConfigEncryptionPublicKey oi, None)
      \<and> length (oi_OffchainPublicKey oi) = 32 \<and> length (oi_OnchainPublicKey oi) = 20
      \<and> length (oi_ConfigEncryptionPublicKey oi) = 32 \<and> oi_PeerID oi = nk_PeerID k
      \<and> (\<exists>a e. StringToAddress L (TXKeyID k) = Inr a \<and> EthAddress L a = Done e
          \<and> oi_TransmitAccount oi = eth_AddressString L e)) keys ois)"
proof -
  have "GetSetConfigArgs L enc args keys = Done (Inr r) \<longleftrightarrow>
    (\<exists>S ois. oracle_identities L keys [] [] = Done (Inr (S, ois)) \<and> args (set_config_params enc S ois) = Inr r)"
    by (cases "oracle_identities L keys [] []") (auto simp: GetSetConfigArgs_def split: sum.splits)
  then show ?thesis
    unfolding oracle_identities_Inr oracle_identity_exact by auto
qed

text \<open>The nodes of the log of the requests: an environment in which nothing fails.\<close>

definition jobs_log :: "(nat \<times> string) list JobEnv" where
  "jobs_log = \<lparr>MustCreateJob = (\<lambda>i j w. (w @ [(i, js_JobType j)], None)), CreateBridge = (\<lambda>i b w. (w @ [(i, br_Name b)], None)),
     uuid_NewString = (\<lambda>w. (w, ''u'')), P2PV2Bootstrapper = (\<lambda>ip port peer. peer @ ''@'' @ ip @ '':'' @ port)\<rparr>"

lemma jobs_loop_log:
  assumes "length keys = n + k" and "0 < k"
  shows "jobs_loop jobs_log spec b keys [k..<k + n] w
    = Done (w @ concat (List.map (\<lambda>i. [(i, br_Name b), (i, ''offchainreporting2'')]) [k..<k + n]), None)"
  using assms
proof (induction n arbitrary: k w)
  case (Suc n)
  have "[k..<k + Suc n] = k # [Suc k..<Suc k + n]" by (simp add: upt_conv_Cons del: upt_Suc)
  then show ?case using Suc.IH [of "Suc k"] Suc.prems by (simp add: jobs_log_def)
qed simp

text \<open>
  Functional: when no request fails, the first node gets the bootstrap job and nothing else, and
  every other node, in order, its bridge and then its oracle job.
\<close>

theorem jobs_for_all_nodes:
  assumes "nodes \<noteq> []" and "length keys = length nodes"
  shows "CreateJobsForContract jobs_log nodes keys chainId nodeName port mock juels a []
    = Done ((0, ''bootstrap'') # concat (List.map (\<lambda>i. [(i, ''mockserver-bridge''), (i, ''offchainreporting2'')]) [1..<length nodes]), None)"
proof -
  obtain n where n: "length nodes = Suc n" using assms(1) by (cases nodes) auto
  have "keys \<noteq> []" using assms by auto
  moreover have "[0..<Suc n] = 0 # [1..<1 + n]" by (simp add: upt_conv_Cons del: upt_Suc)
  moreover have "br_Name (source_bridge mock) = ''mockserver-bridge''" by (simp add: source_bridge_def)
  ultimately show ?thesis
    using assms(1) jobs_loop_log [where keys = keys and n = n and k = 1 and b = "source_bridge mock" and w = "[(0, ''bootstrap'')]"]
      assms(2) n
    by (simp add: CreateJobsForContract_def jobs_log_def)
qed

theorem jobs_for_all_nodes_witness:
  "\<exists>keys. CreateJobsForContract jobs_log [''h'', ''h''] keys ''5'' ''n'' ''1'' ''m'' ''j'' ''a'' []
    = Done ([(0, ''bootstrap''), (1, ''mockserver-bridge''), (1, ''offchainreporting2'')], None)"
proof -
  let ?k = "\<lparr>OffChainPublicKey = [], OnChainPublicKey = [], ConfigPublicKey = [], OCR2KeyID = [], TXKeyID = [], nk_PeerID = []\<rparr>"
  have up: "[1..<length [''h'', ''h'']] = [1]" by (simp add: upt_conv_Cons)
  show ?thesis
    using jobs_for_all_nodes [of "[''h'', ''h'']" "[?k, ?k]" "''5''" "''n''" "''1''" "''m''" "''j''" "''a''", unfolded up]
    by (intro exI [of _ "[?k, ?k]"]) simp
qed

end
