(* ===== verification/TestNode.thy ===== *)
theory TestNode
  imports TestUtils
begin

text \<open>
  The scripts and contracts of the tests (relayer/testutils, integration-tests/contract, the node
  configuration of integration-tests/common): finding the repository, starting and stopping the TRON node,
  loading compiled contracts and deploying them.

  The file system, processes, JSON and the ABI codec are parameters. A path is the list of its names, a child
  after its parent.
\<close>

subsection \<open>The repository root\<close>

text \<open>\<open>filepath.Dir\<close> of the root directory is the root directory, which ends the loop.\<close>

function FindGitRoot_loop :: "(string list \<Rightarrow> bool) \<Rightarrow> string list \<Rightarrow> string + string list" where
  "FindGitRoot_loop exists currentDir =
     (if exists (currentDir @ [''.git'']) then Inr currentDir
      else let parentDir = butlast currentDir
           in if parentDir = currentDir then Inl ''no Git repository found''
              else FindGitRoot_loop exists parentDir)"
  by auto
termination by (relation "measure (length \<circ> snd)") (auto intro!: diff_Suc_less)

declare FindGitRoot_loop.simps [simp del]

definition FindGitRoot :: "string + string list \<Rightarrow> (string list \<Rightarrow> bool) \<Rightarrow> string + string list" where
  "FindGitRoot Getwd exists = (case Getwd of Inl err \<Rightarrow> Inl err | Inr currentDir \<Rightarrow> FindGitRoot_loop exists currentDir)"

text \<open>The nearest directory above, the current one included, that has a repository in it.\<close>

lemma FindGitRoot_nearest:
  "FindGitRoot_loop exists d = Inr r \<longleftrightarrow>
     (\<exists>k \<le> length d. r = take k d \<and> exists (r @ [''.git'']) \<and> (\<forall>j. k < j \<longrightarrow> j \<le> length d \<longrightarrow> \<not> exists (take j d @ [''.git''])))"
proof (induction d rule: rev_induct)
  case Nil
  then show ?case by (subst FindGitRoot_loop.simps) auto
next
  case (snoc x d)
  show ?case
  proof (cases "exists (d @ [x] @ [''.git''])")
    case True
    have "k = Suc (length d)" if "k \<le> Suc (length d)" "\<forall>j. k < j \<longrightarrow> j \<le> Suc (length d) \<longrightarrow> \<not> exists (take j (d @ [x]) @ [''.git''])" for k
      using that True by (metis append_assoc le_neq_implies_less length_append_singleton order_refl take_all)
    then show ?thesis using True by (subst FindGitRoot_loop.simps) (fastforce intro: exI [of _ "Suc (length d)"])
  next
    case False
    have "FindGitRoot_loop exists (d @ [x]) = FindGitRoot_loop exists d"
      using False by (subst FindGitRoot_loop.simps) simp
    moreover have "(k \<le> Suc (length d) \<and> r = take k (d @ [x]) \<and> exists (r @ [''.git''])
        \<and> (\<forall>j. k < j \<longrightarrow> j \<le> Suc (length d) \<longrightarrow> \<not> exists (take j (d @ [x]) @ [''.git''])))
      \<longleftrightarrow> (k \<le> length d \<and> r = take k d \<and> exists (r @ [''.git'']) \<and> (\<forall>j. k < j \<longrightarrow> j \<le> length d \<longrightarrow> \<not> exists (take j d @ [''.git''])))"
      for k
      using False by (cases "k = Suc (length d)") (auto simp: le_Suc_eq)
    ultimately show ?thesis using snoc.IH by simp
  qed
qed

subsection \<open>tron_node.go\<close>

text \<open>A command gives its output and how it failed: with an exit code, or otherwise.\<close>

datatype command_failure = ExitCode int | OtherFailure string

datatype node_error = NoGitRoot string | BadExitCode string int | CommandFailed string string

definition run_script ::
  "string + string list \<Rightarrow> string \<Rightarrow> (string list \<Rightarrow> string list \<Rightarrow> command_failure option) \<Rightarrow> string \<Rightarrow> string list \<Rightarrow> string \<Rightarrow>
     node_error option" where
  "run_script root script Command what args badExit =
     (case root of
        Inl err \<Rightarrow> Some (NoGitRoot err)
      | Inr gitRoot \<Rightarrow>
          (case Command (gitRoot @ [''scripts'', script]) args of
             None \<Rightarrow> None
           | Some (ExitCode n) \<Rightarrow> Some (BadExitCode badExit n)
           | Some (OtherFailure e) \<Rightarrow> Some (CommandFailed what e)))"

definition StartTronNode ::
  "string + string list \<Rightarrow> (string list \<Rightarrow> string list \<Rightarrow> command_failure option) \<Rightarrow> string \<Rightarrow> node_error option" where
  "StartTronNode root Command genesisAddress =
     run_script root ''java-tron.sh'' Command ''Failed to start java-tron'' [genesisAddress] ''Failed to start java-tron, bad exit code''"

text \<open>The message for a bad exit code says start here, too.\<close>

definition StopTronNode ::
  "string + string list \<Rightarrow> (string list \<Rightarrow> string list \<Rightarrow> command_failure option) \<Rightarrow> node_error option" where
  "StopTronNode root Command =
     run_script root ''java-tron.down.sh'' Command ''Failed to stop java-tron'' [] ''Failed to start java-tron, bad exit code''"

definition GetTronNodeIpAddress :: "string \<Rightarrow> string" where
  "GetTronNodeIpAddress GOOS = (if GOOS = ''darwin'' then ''127.0.0.1'' else ''172.255.0.101'')"

subsection \<open>common.go: the configuration of the nodes\<close>

definition lines_of :: "string list \<Rightarrow> string" where
  "lines_of ls = concat (List.map (\<lambda>l. l @ [CHR 0x0A]) ls)"

definition quoted :: "string \<Rightarrow> string" where
  "quoted s = CHR 0x27 # s @ [CHR 0x27]"

definition chainlink_config :: "string \<Rightarrow> string \<Rightarrow> string \<Rightarrow> string" where
  "chainlink_config chainID internalFullNodeUrl internalSolidityUrl = lines_of
     [[], ''[[Tron]]'', ''Enabled = true'', ''ChainID = '' @ quoted chainID, [],
      ''[[Tron.Nodes]]'', ''Name = '' @ quoted ''primary'', ''URL = '' @ quoted internalFullNodeUrl,
      ''SolidityURL = '' @ quoted internalSolidityUrl, [],
      ''[Log]'', ''Level = '' @ quoted ''debug'', [],
      ''[OCR2]'', ''Enabled = true'', [],
      ''[P2P]'', ''[P2P.V2]'', ''Enabled = true'', ''DeltaDial = '' @ quoted ''5s'', ''DeltaReconcile = '' @ quoted ''5s'',
      ''ListenAddresses = ['' @ quoted ''0.0.0.0:6691'' @ '']'', [],
      ''[WebServer]'', ''HTTPPort = 6688'', ''[WebServer.TLS]'', ''HTTPSPort = 0'']"

subsection \<open>contract.go\<close>

record ('j, 'b) Artifact =
  art_Abi :: 'b
  art_AbiJson :: string
  art_Bytecode :: string

definition loadContract ::
  "string + string list \<Rightarrow> (string list \<Rightarrow> string + string) \<Rightarrow> (string \<Rightarrow> string + 'j \<times> string) \<Rightarrow> string \<Rightarrow> string + 'j \<times> string" where
  "loadContract root ReadFile Unmarshal jsonPath =
     (case root of
        Inl err \<Rightarrow> Inl err
      | Inr gitRoot \<Rightarrow>
          (case ReadFile (gitRoot @ [''integration-tests'', ''artifacts'', jsonPath]) of
             Inl err \<Rightarrow> Inl err
           | Inr d \<Rightarrow> Unmarshal d))"

text \<open>The ABI of the file is printed again and parsed by go-ethereum; a failure ends the test.\<close>

definition MustLoadArtifact ::
  "string + string list \<Rightarrow> (string list \<Rightarrow> string + string) \<Rightarrow> (string \<Rightarrow> string + 'j \<times> string) \<Rightarrow> ('j \<Rightarrow> string + string) \<Rightarrow>
     (string \<Rightarrow> string + 'b) \<Rightarrow> string \<Rightarrow> string + ('j, 'b) Artifact" where
  "MustLoadArtifact root ReadFile Unmarshal Marshal abi_JSON jsonPath =
     result_bind (loadContract root ReadFile Unmarshal jsonPath) (\<lambda>(j, bytecode).
     result_bind (Marshal j) (\<lambda>abiJson.
     result_bind (abi_JSON abiJson) (\<lambda>parsedAbi.
       Inr \<lparr>art_Abi = parsedAbi, art_AbiJson = abiJson, art_Bytecode = bytecode\<rparr>)))"

subsection \<open>txm.go: deploying\<close>

text \<open>\<open>require.NoError\<close> ends the test with the error. A response without an error is never nil.\<close>

definition SignAndDeployContract ::
  "lib \<Rightarrow> 'w CombinedClient \<Rightarrow> (string \<Rightarrow> bytes \<Rightarrow> 'w \<Rightarrow> 'w \<times> (string + bytes)) \<Rightarrow> address \<Rightarrow> string \<Rightarrow> string \<Rightarrow> string \<Rightarrow> int64 \<Rightarrow>
     goval list \<Rightarrow> 'w \<Rightarrow> ('w \<times> (string + string)) outcome" where
  "SignAndDeployContract L c sign_with fromAddress contractName abiJson codeHex feeLimit params w =
     outcome_bind (DeployContract c fromAddress contractName abiJson codeHex 1 100 feeLimit params w) (\<lambda>(w, resp, err).
       case err of
         Some e \<Rightarrow> Done (w, Inl e)
       | None \<Rightarrow>
     (case resp of
        None \<Rightarrow> Panic
      | Some deployResponse \<Rightarrow>
          let tx = dc_Transaction deployResponse
          in (case hex_DecodeString (TxID tx) of
                (txIdBytes, Some e) \<Rightarrow> Done (w, Inl ''hex'')
              | (txIdBytes, None) \<Rightarrow>
                  (case sign_with (Address_String L fromAddress) txIdBytes w of
                     (w, Inl e) \<Rightarrow> Done (w, Inl e)
                   | (w, Inr signature) \<Rightarrow>
                       outcome_bind (BroadcastTransaction c (Some (AddSignatureBytes signature tx)) w) (\<lambda>(w, resp, err).
                         case err of
                           Some e \<Rightarrow> Done (w, Inl e)
                         | None \<Rightarrow> (case resp of None \<Rightarrow> Panic | Some r \<Rightarrow> Done (w, Inr (br_TxID r))))))))"

definition CheckContractDeployed :: "'w CombinedClient \<Rightarrow> address \<Rightarrow> 'w \<Rightarrow> ('w \<times> (string + bool)) outcome" where
  "CheckContractDeployed c addr w =
     outcome_bind (GetContract c addr w) (\<lambda>(w, resp, err). Done (w, case err of Some e \<Rightarrow> Inl e | None \<Rightarrow> Inr True))"

text \<open>What is broadcast is the transaction that the node built, with one more signature, over its ID.\<close>

lemma deploy_signs_id:
  assumes "SignAndDeployContract L c ks a nm j code fee ps w = Done (w', Inr i)"
  shows "\<exists>w1 d idBytes w2 sg r. DeployContract c a nm j code 1 100 fee ps w = Done (w1, Some d, None)
    \<and> hex_DecodeString (TxID (dc_Transaction d)) = (idBytes, None)
    \<and> ks (Address_String L a) idBytes w1 = (w2, Inr sg)
    \<and> BroadcastTransaction c (Some (AddSignatureBytes sg (dc_Transaction d))) w2 = Done (w', Some r, None) \<and> br_TxID r = i"
proof -
  obtain w1 resp err where d: "DeployContract c a nm j code 1 100 fee ps w = Done (w1, resp, err)"
    using assms by (auto simp: SignAndDeployContract_def outcome_bind_eq_Done)
  then obtain dr where r: "err = None" "resp = Some dr"
    using assms by (cases err; cases resp) (auto simp: SignAndDeployContract_def)
  obtain b me where h: "hex_DecodeString (TxID (dc_Transaction dr)) = (b, me)" by fastforce
  obtain w2 sg where s: "ks (Address_String L a) b w1 = (w2, sg)" by fastforce
  have "me = None" using assms d r h by (cases me) (auto simp: SignAndDeployContract_def Let_def)
  moreover from this obtain g where g: "sg = Inr g"
    using assms d r h s by (cases sg) (auto simp: SignAndDeployContract_def Let_def)
  moreover obtain w3 resp' err' where b: "BroadcastTransaction c (Some (AddSignatureBytes g (dc_Transaction dr))) w2 = Done (w3, resp', err')"
    using assms d r h s calculation by (auto simp: SignAndDeployContract_def Let_def outcome_bind_eq_Done)
  moreover obtain r' where "err' = None" "resp' = Some r'" "w3 = w'" "br_TxID r' = i"
    using assms d r h s calculation by (cases err'; cases resp') (auto simp: SignAndDeployContract_def Let_def)
  ultimately show ?thesis using d r h s by blast
qed

end
