(* ===== verification/TestStack.thy ===== *)
theory TestStack
  imports TestEnv TestNode TestJobs HttpClient
begin

text \<open>
  Setting up and taking down the stack of the integration tests (integration-tests/utils/utils.go,
  integration-tests/common/common.go) and the keys made for tests (relayer/testutils/utils.go): which
  scripts run, in which order, and with which configuration.

  The state is the environment of the process and the world. A test that fails (\<open>require\<close>, \<open>t.Fatalf\<close>) ends
  with \<open>Inl\<close> of what failed. Processes, the parsing of addresses and durations, and the clients are parameters.
\<close>

record 'w stack =
  sk_environ :: environ
  sk_world :: 'w

text \<open>
  \<open>ex_Run\<close> runs a script of the tests, with the variable \<open>CL_CONFIG\<close> added where one is given; \<open>ex_Command\<close> is how a
  script of the repository fails in a world, and \<open>ex_after\<close> the world after it.
\<close>

record 'w Exec =
  ex_Run :: "string \<Rightarrow> string option \<Rightarrow> environ \<Rightarrow> 'w \<Rightarrow> 'w \<times> string option"
  ex_root :: "string + string list"
  ex_Command :: "'w \<Rightarrow> string list \<Rightarrow> string list \<Rightarrow> command_failure option"
  ex_after :: "'w \<Rightarrow> 'w"
  ex_GOOS :: string

datatype stack_failure = ScriptFailed string string | NodeFailed string node_error | UnknownNetwork string
  | BadUrl string | NoGenesis string | NoClient string

type_synonym ('w, 'a) stacked = "('w stack \<times> (stack_failure + 'a)) outcome"

definition stacked_bind :: "('w, 'a) stacked \<Rightarrow> ('a \<Rightarrow> 'w stack \<Rightarrow> ('w, 'b) stacked) \<Rightarrow> ('w, 'b) stacked" where
  "stacked_bind m f = outcome_bind m (\<lambda>(s, r). case r of Inl e \<Rightarrow> Done (s, Inl e) | Inr x \<Rightarrow> f x s)"

lemma stacked_bind_simps [simp]:
  "stacked_bind Panic f = Panic" "stacked_bind (Done (s, Inl e)) f = Done (s, Inl e)"
  "stacked_bind (Done (s, Inr x)) f = f x s"
  by (simp_all add: stacked_bind_def)

definition run_step :: "'w Exec \<Rightarrow> string \<Rightarrow> string option \<Rightarrow> string \<Rightarrow> 'w stack \<Rightarrow> ('w, unit) stacked" where
  "run_step X script cfg message s =
     (case ex_Run X script cfg (sk_environ s) (sk_world s) of
        (w, None) \<Rightarrow> Done (s\<lparr>sk_world := w\<rparr>, Inr ())
      | (w, Some err) \<Rightarrow> Done (s\<lparr>sk_world := w\<rparr>, Inl (ScriptFailed message err)))"

subsection \<open>common.go\<close>

definition chainName :: string where
  "chainName = ''tron''"

definition observationSource :: string where
  "observationSource = CHR 0x0A # concat (List.map (\<lambda>l. replicate 3 (CHR 0x09) @ l @ [CHR 0x0A])
     [''val [type=\"bridge\" name=\"bridge-coinmetrics\" requestData=<{\"data\": {\"from\":\"LINK\",\"to\":\"USD\"}}>]'',
      ''parse [type=\"jsonparse\" path=\"result\"]'', ''val -> parse'']) @ replicate 3 (CHR 0x09)"

definition juelsPerFeeCoinSource :: string where
  "juelsPerFeeCoinSource = ''\"\"\"'' @ [CHR 0x0A] @ concat (List.map (\<lambda>l. replicate 3 (CHR 0x09) @ l @ [CHR 0x0A])
     [''sum  [type=\"sum\" values=<[451000]> ]'', ''sum'', ''\"\"\"'']) @ replicate 3 (CHR 0x09)"

record Common =
  cm_IsSoak :: bool
  cm_ChainName :: string
  cm_ChainId :: string
  cm_NodeCount :: int
  cm_TTL :: duration
  cm_TestDuration :: duration
  cm_MockUrl :: string
  cm_Mnemonic :: string
  cm_ObservationSource :: string
  cm_JuelsPerFeeCoinSource :: string
  cm_ChainlinkConfig :: string
  cm_EnvTTL :: duration
  cm_NodeDetails :: "ChainlinkNodeDetail list"

definition NewCommon ::
  "(string \<Rightarrow> duration option) \<Rightarrow> (duration \<Rightarrow> string) \<Rightarrow> string \<Rightarrow> string \<Rightarrow> string \<Rightarrow> environ \<Rightarrow> (environ \<times> Common) outcome" where
  "NewCommon ParseDuration ShortDur chainID internalFullNodeUrl internalSolidityUrl env =
     outcome_bind (getTTL ParseDuration ShortDur env) (\<lambda>(env, ttl).
       let (env, soak) = getEnv ''SOAK'' env
       in outcome_bind (getNodeCount env) (\<lambda>(env, nodeCount).
            outcome_bind (getTTL ParseDuration ShortDur env) (\<lambda>(env, ttl').
              outcome_bind (getTestDuration ParseDuration ShortDur env) (\<lambda>(env, testDuration).
                let (env, mnemonic) = getEnv ''MNEMONIC'' env
                in Done (env,
                     \<lparr>cm_IsSoak = (soak \<noteq> []), cm_ChainName = chainName, cm_ChainId = chainID, cm_NodeCount = nodeCount,
                      cm_TTL = ttl', cm_TestDuration = testDuration, cm_MockUrl = ''http://host.docker.internal:6060'',
                      cm_Mnemonic = mnemonic, cm_ObservationSource = observationSource,
                      cm_JuelsPerFeeCoinSource = juelsPerFeeCoinSource,
                      cm_ChainlinkConfig = chainlink_config chainID internalFullNodeUrl internalSolidityUrl,
                      cm_EnvTTL = ttl, cm_NodeDetails = []\<rparr>)))))"

definition SetLocalEnvironment :: "'w Exec \<Rightarrow> Common \<Rightarrow> 'w stack \<Rightarrow> ('w, Common) stacked" where
  "SetLocalEnvironment X c s =
     stacked_bind (run_step X ''../scripts/postgres.sh'' None ''Could not start postgres container'' s) (\<lambda>_ s.
     stacked_bind (run_step X ''../scripts/mock-adapter.sh'' None ''Could not start mock adapter'' s) (\<lambda>_ s.
     stacked_bind (run_step X ''../scripts/core.sh'' (Some (cm_ChainlinkConfig c)) ''Could not start core nodes'' s) (\<lambda>_ s.
     Done (s, Inr (c\<lparr>cm_NodeDetails := SetLocalEnvironment_details (cm_NodeCount c)\<rparr>)))))"

definition TearDownLocalEnvironment :: "'w Exec \<Rightarrow> 'w stack \<Rightarrow> ('w, unit) stacked" where
  "TearDownLocalEnvironment X s =
     stacked_bind (run_step X ''../scripts/core.down.sh'' None ''Could not tear down core nodes'' s) (\<lambda>_ s.
     stacked_bind (run_step X ''../scripts/mock-adapter.down.sh'' None ''Could not tear down mock adapter'' s) (\<lambda>_ s.
     run_step X ''../scripts/postgres.down.sh'' None ''Could not tear down postgres container'' s))"

subsection \<open>utils.go\<close>

text \<open>
  What the set-up calls: the HTTP client and the encoders of the combined client, the parsing of URLs (its
  result is the text of the parsed one), and the requests to the Chainlink nodes in a world.
\<close>

record ('w, 'c) Lab =
  lb_Exec :: "'w Exec"
  lb_ParseDuration :: "string \<Rightarrow> duration option"
  lb_ShortDur :: "duration \<Rightarrow> string"
  lb_url_Parse :: "string \<Rightarrow> string + string"
  lb_Net :: "duration \<Rightarrow> 'w Net"
  lb_Codec :: Codec
  lb_lib :: lib
  lb_junk :: "string \<Rightarrow> int"
  lb_connect :: "'w \<Rightarrow> ChainlinkConfig \<Rightarrow> string + 'c"
  lb_Health :: "'w \<Rightarrow> 'c \<Rightarrow> string option"
  lb_CreateNodeKeysBundle :: "'w \<Rightarrow> 'c list \<Rightarrow> string \<Rightarrow> string \<Rightarrow> string + NodeKeysBundle list"

definition parse_url :: "('w, 'c) Lab \<Rightarrow> string \<Rightarrow> 'w stack \<Rightarrow> ('w, string) stacked" where
  "parse_url B u s = Done (s, case lb_url_Parse B u of Inl e \<Rightarrow> Inl (BadUrl e) | Inr v \<Rightarrow> Inr v)"

definition setUpTronEnvironment ::
  "('w, 'c) Lab \<Rightarrow> string \<Rightarrow> string \<Rightarrow> string \<Rightarrow> string \<Rightarrow> 'w stack \<Rightarrow>
     ('w, 'w CombinedClient \<times> ('c list \<times> NodeKeysBundle list) \<times> Common) stacked" where
  "setUpTronEnvironment B fullNodeUrl solidityNodeUrl internalFullNodeUrl internalSolidityNodeUrl s =
     stacked_bind (parse_url B fullNodeUrl s) (\<lambda>full s.
     stacked_bind (parse_url B solidityNodeUrl s) (\<lambda>sol s.
       let combinedClient = CreateCombinedClient (lb_Net B) (lb_Codec B) (lb_lib B) full sol
       in outcome_bind (setup_chainId combinedClient (lb_junk B) (sk_world s)) (\<lambda>(w, cid).
            let s = s\<lparr>sk_world := w\<rparr>
            in case cid of
                 Inl e \<Rightarrow> Done (s, Inl (NoGenesis e))
               | Inr chainId \<Rightarrow>
                   outcome_bind (NewCommon (lb_ParseDuration B) (lb_ShortDur B) chainId internalFullNodeUrl
                       internalSolidityNodeUrl (sk_environ s)) (\<lambda>(env, commonConfig).
                     stacked_bind (SetLocalEnvironment (lb_Exec B) commonConfig (s\<lparr>sk_environ := env\<rparr>)) (\<lambda>commonConfig s.
                       outcome_bind (setup_client (lb_connect B (sk_world s)) (lb_Health B (sk_world s))
                           (lb_CreateNodeKeysBundle B (sk_world s)) (cm_NodeDetails commonConfig) (cm_ChainId commonConfig)) (\<lambda>r.
                         case r of
                           Inl e \<Rightarrow> Done (s, Inl (NoClient e))
                         | Inr chainlinkClient \<Rightarrow>
                             outcome_bind (GetNodeAddresses (lb_lib B) (snd chainlinkClient) []) (\<lambda>_.
                               Done (s, Inr (combinedClient, chainlinkClient, commonConfig)))))))))"

definition DefaultInternalFullNodeUrl :: string where
  "DefaultInternalFullNodeUrl = ''http://host.docker.internal:16667/wallet''"

definition DefaultInternalSolidityNodeUrl :: string where
  "DefaultInternalSolidityNodeUrl = ''http://host.docker.internal:16668/walletsolidity''"

definition FullNodePort :: string where
  "FullNodePort = ''16667''"

definition SolidityNodePort :: string where
  "SolidityNodePort = ''16668''"

definition or_default :: "string \<Rightarrow> string \<Rightarrow> string" where
  "or_default d v = (if v = [] then d else v)"

text \<open>No command runs when the root of the repository is not found.\<close>

definition after_command :: "'w Exec \<Rightarrow> 'w \<Rightarrow> 'w" where
  "after_command X w = (case ex_root X of Inl _ \<Rightarrow> w | Inr _ \<Rightarrow> ex_after X w)"

definition SetupLocalStack ::
  "('w, 'c) Lab \<Rightarrow> string \<Rightarrow> 'w stack \<Rightarrow> ('w, 'w CombinedClient \<times> ('c list \<times> NodeKeysBundle list) \<times> Common) stacked" where
  "SetupLocalStack B genesisAddress s =
     (let X = lb_Exec B; env = sk_environ s; ip = GetTronNodeIpAddress (ex_GOOS X);
          fullNodeUrl = or_default (''http://'' @ ip @ '':'' @ FullNodePort @ ''/wallet'') (env ''FULL_NODE_URL'');
          solidityNodeUrl = or_default (''http://'' @ ip @ '':'' @ SolidityNodePort @ ''/walletsolidity'') (env ''SOLIDITY_URL'');
          internalFullNodeUrl = or_default DefaultInternalFullNodeUrl (env ''INTERNAL_FULL_NODE_URL'');
          internalSolidityNodeUrl = or_default DefaultInternalSolidityNodeUrl (env ''INTERNAL_SOLIDITY_NODE_URL'');
          err = StartTronNode (ex_root X) (ex_Command X (sk_world s)) genesisAddress;
          s = s\<lparr>sk_world := after_command X (sk_world s)\<rparr>
      in case err of
           Some e \<Rightarrow> Done (s, Inl (NodeFailed ''Could not start java-tron container'' e))
         | None \<Rightarrow> setUpTronEnvironment B fullNodeUrl solidityNodeUrl internalFullNodeUrl internalSolidityNodeUrl s)"

definition TeardownLocalStack :: "'w Exec \<Rightarrow> 'w stack \<Rightarrow> ('w, unit) stacked" where
  "TeardownLocalStack X s =
     stacked_bind (TearDownLocalEnvironment X s) (\<lambda>_ s.
       let err = StopTronNode (ex_root X) (ex_Command X (sk_world s));
           s = s\<lparr>sk_world := after_command X (sk_world s)\<rparr>
       in Done (s, case err of
            Some e \<Rightarrow> Inl (NodeFailed ''Could not tear down java-tron container'' e) | None \<Rightarrow> Inr ()))"

definition Shasta :: string where
  "Shasta = ''shasta''"

definition Nile :: string where
  "Nile = ''nile''"

definition ShastaFullNodeUrl :: string where
  "ShastaFullNodeUrl = ''https://api.shasta.trongrid.io/wallet''"

definition ShastaSolidityNodeUrl :: string where
  "ShastaSolidityNodeUrl = ''https://api.shasta.trongrid.io/walletsolidity''"

definition NileFullNodeUrl :: string where
  "NileFullNodeUrl = ''https://nile.trongrid.io/wallet''"

definition NileSolidityNodeUrl :: string where
  "NileSolidityNodeUrl = ''https://nile.trongrid.io/walletsolidity''"

definition SetupTestnetStack ::
  "('w, 'c) Lab \<Rightarrow> string \<Rightarrow> 'w stack \<Rightarrow> ('w, 'w CombinedClient \<times> ('c list \<times> NodeKeysBundle list) \<times> Common) stacked" where
  "SetupTestnetStack B network s =
     (if network = Shasta
      then setUpTronEnvironment B ShastaFullNodeUrl ShastaSolidityNodeUrl ShastaFullNodeUrl ShastaSolidityNodeUrl s
      else if network = Nile
      then setUpTronEnvironment B NileFullNodeUrl NileSolidityNodeUrl NileFullNodeUrl NileSolidityNodeUrl s
      else Done (s, Inl (UnknownNetwork network)))"

definition TeardownTestnetStack :: "'w Exec \<Rightarrow> 'w stack \<Rightarrow> ('w, unit) stacked" where
  "TeardownTestnetStack X s = TearDownLocalEnvironment X s"

subsection \<open>testutils/utils.go: keys\<close>

text \<open>
  \<open>rand.Read\<close> fills 64 bytes, which \<open>ecdsa.GenerateKey\<close> reads; the key is its public part (a point, given as
  bytes) and its secret \<open>'k\<close>. Every error is a panic.
\<close>

record 'k TestKey =
  tk_ID :: string
  tk_Address :: address
  tk_PrivateKey :: 'k

definition NewKeyFromECDSA ::
  "lib \<Rightarrow> ('w \<Rightarrow> 'w \<times> (string + string)) \<Rightarrow> ('k \<Rightarrow> bytes) \<Rightarrow> 'k \<Rightarrow> 'w \<Rightarrow> ('w \<times> 'k TestKey) outcome" where
  "NewKeyFromECDSA L uuid_NewRandom PublicKey privateKeyECDSA w =
     (case uuid_NewRandom w of
        (w, Inl err) \<Rightarrow> Panic
      | (w, Inr i) \<Rightarrow> Done (w, \<lparr>tk_ID = i, tk_Address = PubkeyToAddress L (PublicKey privateKeyECDSA), tk_PrivateKey = privateKeyECDSA\<rparr>))"

definition CreateKey ::
  "lib \<Rightarrow> (nat \<Rightarrow> 'w \<Rightarrow> 'w \<times> (string + bytes)) \<Rightarrow> (bytes \<Rightarrow> string + 'k) \<Rightarrow> ('w \<Rightarrow> 'w \<times> (string + string)) \<Rightarrow> ('k \<Rightarrow> bytes) \<Rightarrow>
     'w \<Rightarrow> ('w \<times> 'k TestKey) outcome" where
  "CreateKey L rand_Read GenerateKey uuid_NewRandom PublicKey w =
     (case rand_Read 64 w of
        (w, Inl err) \<Rightarrow> Panic
      | (w, Inr randBytes) \<Rightarrow>
          (case GenerateKey randBytes of
             Inl err \<Rightarrow> Panic
           | Inr privateKeyECDSA \<Rightarrow> NewKeyFromECDSA L uuid_NewRandom PublicKey privateKeyECDSA w))"

subsection \<open>What a set-up stack is\<close>

lemma stacked_bind_Inr:
  "stacked_bind m f = Done (s', Inr y) \<longleftrightarrow> (\<exists>s x. m = Done (s, Inr x) \<and> f x s = Done (s', Inr y))"
  by (auto simp: stacked_bind_def outcome_bind_eq_Done split: sum.split_asm)

lemma failure_or_Inr:
  "(case r of Inl e \<Rightarrow> Done (s, Inl (g e)) | Inr x \<Rightarrow> f x) = Done (s', Inr y) \<longleftrightarrow> (\<exists>x. r = Inr x \<and> f x = Done (s', Inr y))"
  by (cases r) auto

lemma SetLocalEnvironment_Inr:
  "SetLocalEnvironment X c s = Done (s', Inr c') \<Longrightarrow>
     c' = c\<lparr>cm_NodeDetails := SetLocalEnvironment_details (cm_NodeCount c)\<rparr>"
  by (auto simp: SetLocalEnvironment_def stacked_bind_Inr)

lemma NewCommon_Done:
  "NewCommon ParseDuration ShortDur chainID iful isol env = Done (env', c) \<Longrightarrow>
     cm_ChainId c = chainID \<and> cm_ChainlinkConfig c = chainlink_config chainID iful isol"
  by (auto simp: NewCommon_def outcome_bind_eq_Done Let_def split_beta)

text \<open>
  Functional: a set-up that succeeds has given the nodes the configuration of the chain whose ID it read
  from the network through the very client it returns, and one node's details for each node counted.
\<close>

theorem stack_configured:
  assumes "setUpTronEnvironment B full sol iful isol s = Done (s', Inr (c, cl, cm))"
  shows "(\<exists>w w'. setup_chainId c (lb_junk B) w = Done (w', Inr (cm_ChainId cm)))
    \<and> cm_ChainlinkConfig cm = chainlink_config (cm_ChainId cm) iful isol
    \<and> cm_NodeDetails cm = SetLocalEnvironment_details (cm_NodeCount cm)"
proof -
  obtain f so s1 w cid env cm0 s2 where
    c: "c = CreateCombinedClient (lb_Net B) (lb_Codec B) (lb_lib B) f so"
      "setup_chainId c (lb_junk B) (sk_world s1) = Done (w, Inr cid)" and
    n: "NewCommon (lb_ParseDuration B) (lb_ShortDur B) cid iful isol (sk_environ s1) = Done (env, cm0)" and
    l: "SetLocalEnvironment (lb_Exec B) cm0 (s1\<lparr>sk_world := w, sk_environ := env\<rparr>) = Done (s2, Inr cm)"
    using assms
    by (auto simp: setUpTronEnvironment_def stacked_bind_Inr outcome_bind_eq_Done Let_def failure_or_Inr)
  show ?thesis using c(2) NewCommon_Done [OF n] SetLocalEnvironment_Inr [OF l] by auto
qed

text \<open>The scripts of the set-up run in this order, those that take it down in the reverse one.\<close>

definition logged_scripts :: "(string list) Exec" where
  "logged_scripts = \<lparr>ex_Run = (\<lambda>script cfg env w. (w @ [script], None)), ex_root = Inr [], ex_Command = (\<lambda>_ _ _. None),
     ex_after = (\<lambda>w. w @ [''java-tron'']), ex_GOOS = ''linux''\<rparr>"

lemma scripts_in_order:
  "SetLocalEnvironment logged_scripts c \<lparr>sk_environ = env, sk_world = []\<rparr> = Done (\<lparr>sk_environ = env, sk_world =
     [''../scripts/postgres.sh'', ''../scripts/mock-adapter.sh'', ''../scripts/core.sh'']\<rparr>,
     Inr (c\<lparr>cm_NodeDetails := SetLocalEnvironment_details (cm_NodeCount c)\<rparr>))"
  "TeardownLocalStack logged_scripts \<lparr>sk_environ = env, sk_world = []\<rparr> = Done (\<lparr>sk_environ = env, sk_world =
     [''../scripts/core.down.sh'', ''../scripts/mock-adapter.down.sh'', ''../scripts/postgres.down.sh'', ''java-tron'']\<rparr>, Inr ())"
  by (simp_all add: SetLocalEnvironment_def TeardownLocalStack_def TearDownLocalEnvironment_def run_step_def logged_scripts_def
      StopTronNode_def run_script_def after_command_def Let_def)

end
