(* ===== verification/Spec2Isabelle.thy ===== *)
theory Spec2Isabelle
  imports AccountStore Energy Hex Address Abi HttpCommon Client HttpClient Serializer Txm_Spec Txm_Ops Txm_Node Txm_Stuck
    Utils Reader Ocr2_Reader Ocr2_Cache Ocr2_Digest Ocr2_Transmit Config Monitor Relayer Reports Wiring Plugin
    Services Managed Txm_Tick Pacing Sdk TestUtils TestEnv TestJobs TestNode TestStack
begin

text \<open>
  The TRON relayer: the transaction manager (relayer/txm), the SDK it stands on (relayer/sdk and
  relayer/gotron-sdk/pkg), the contract reader and the OCR2 services over it (relayer/reader,
  relayer/ocr2), the configuration, the balance monitor and the keystore adapter (relayer/config,
  relayer/monitor, relayer/keystore), and the relayer that puts them together (relayer/plugin).

  The program. Callers hand contract calls to \<open>Enqueue\<close>, which enters each as pending into the store of
  its account and sends it to the broadcast channel. The broadcast loop receives it, computes the fee
  limit and the reference block, serializes, signs and broadcasts it, and enters it as broadcast. The
  confirm loop asks the full node for the receipts of the broadcast transactions and confirms, retries
  or fails them, and asks the solidity node about the confirmed ones to finalize them, or to start them
  again after a reorganisation. The reap loop forgets finished transactions after the retention time.

  The relayer is built from a merged and validated configuration: a client that checks the chain ID
  before every call, the transaction manager, and the balance monitor. For OCR2 it makes a median
  provider. Its contract cache and transmissions cache poll the aggregator contract through the
  reader, which decodes calls and events with the contract's ABI; libocr reads the caches and checks
  configurations with the digester; reports that it wants on chain go through the transmitter to
  \<open>Enqueue\<close>.

  The theories, in the order of the code.

  \<^item> \<open>Prelude\<close>, \<open>GoValues\<close>, \<open>GoNum\<close>, \<open>GoFloat\<close>: outcomes (a call returns or panics), for-range loops, Go maps
    ranged over in any order, dynamic values, \<open>strings\<close>, \<open>strconv\<close> and \<open>math/big\<close>, and float64 arithmetic with
    its rounding.
  \<^item> \<open>TxStore\<close>, \<open>TxStore_Inv\<close>, \<open>TxStore_Spec\<close> (txm/tx.go, txm/txstore.go): the tables of one account over an
    explicit heap, because the code shares \<open>*TronTx\<close> pointers between the tables, the channel and the
    loops; the invariant; and the abstract lifecycle, stated as the locale \<open>lifecycle_store\<close> and
    interpreted on the store. \<open>AccountStore\<close> has the map of stores and interprets the same locale with
    account and ID as the key.
  \<^item> \<open>Hex\<close>, \<open>Lib\<close>, \<open>Address\<close> (gotron-sdk/pkg/common, pkg/address): hex, SHA-256 and base64 computed in the
    logic; base58, hashes, addresses. The record \<open>lib\<close> has the third-party functions (base58, Keccak,
    go-ethereum, protobuf marshalling) as parameters; what a theorem needs of one is a hypothesis.
  \<^item> \<open>Abi\<close>, \<open>HttpCommon\<close>, \<open>Client\<close>, \<open>HttpClient\<close> (pkg/abi, pkg/http, sdk/combined_client.go): parameter conversion,
    the JSON structures, the node clients as functions of an environment \<open>'w\<close> that stands for the nodes
    and everything outside, the HTTP request, the combined and the validated client.
  \<^item> \<open>Energy\<close>, \<open>Serializer\<close> (txm/energy.go, txm/seralizer.go).
  \<^item> \<open>Txm\<close>, \<open>Txm_Loops\<close> (txm/txm.go): the operations and loop bodies of the manager, over the record \<open>txm\<close> of
    the state the goroutines share. \<open>Txm_Inv\<close> and \<open>Txm_Steps\<close>: the invariant and its preservation by each
    piece of work; \<open>snapshot_loop\<close> is the loop rule of the passes and \<open>node_reads\<close> what they need of a client.
    \<open>Txm_Machine\<close> and \<open>Txm_Spec\<close>: the step relation over all interleavings, its refinement of the lifecycle and
    the properties of reachable states. \<open>Txm_Ops\<close>, \<open>Txm_Node\<close> and \<open>Txm_Stuck\<close>: the operations on the combined
    client, the decisions taken from the node's answers, and what becomes of transactions that drop out
    of the channel.

  \<^item> \<open>Utils\<close>, \<open>Reader\<close> (relayer/utils.go, relayer/reader/reader.go): event topics and public keys; calls,
    the ABI cache and the events of a block. A reader is a record of operations over the environment of
    the client and its ABI cache.
  \<^item> \<open>Ocr2_Reader\<close>, \<open>Ocr2_Cache\<close>, \<open>Ocr2_Digest\<close>, \<open>Ocr2_Transmit\<close> (relayer/ocr2): the decoded answers of the
    aggregator contract, the two caches, whose common contract is the locale \<open>ttl_cache\<close>, the digester,
    and the transmitter with the providers. \<open>poll_run\<close> is the run of a cache over arbitrary ticks.
  \<^item> \<open>Config\<close> (relayer/config): merging, defaults, validation; \<open>keyed_merge\<close> is the locale of the two merges
    of lists by key. \<open>Monitor\<close> (relayer/keystore, relayer/monitor): the adapter and the balance gauges.
    \<open>Relayer\<close> (relayer/plugin): construction, statuses and providers. \<open>Plugin\<close>
    (relayer/cmd/chainlink-tron/main.go): from the text of a configuration to a relayer.
  \<^item> \<open>Reports\<close> and \<open>Wiring\<close> have the lemmas that join components, for the last section of this theory: a
    transmitted report up to the transaction built from it; what the validated client and the manager do
    on nodes of another chain; and the digests of the configurations a provider's cache holds.

  \<^item> \<open>Services\<close>: starting and closing of the manager, the balance monitor, the providers and the relayer, as
    operations on groups of goroutines that share a stop channel, with a step relation for the goroutines;
    \<open>machine_field\<close> is the locale of a service that owns a state machine of chainlink-common.
    \<open>Managed\<close> takes the two step relations together: each step of the transaction manager is one of the
    outside or of a goroutine that must be running for it.
  \<^item> \<open>Txm_Tick\<close>: a whole tick of the confirm loop on nodes that answer steadily, equal to a reference function
    of the store (\<open>tick_status\<close>), and the delivery of a transaction that was accepted. \<open>Pacing\<close>: how long the loop
    waits between two ticks.
  \<^item> \<open>Sdk\<close> (pkg/abi, pkg/proto/api/api_extension.go, sdk/full_node_client.go): JSON parameters, memos, the
    creation of clients.
  \<^item> \<open>TestUtils\<close>, \<open>TestEnv\<close>, \<open>TestJobs\<close>, \<open>TestNode\<close>, \<open>TestStack\<close> (integration-tests, relayer/testutils): what the
    contract tests compute themselves, chiefly the raw words of a report, and their settings, waits, jobs and
    set-up.

  Conventions. A Go error is a value (\<open>Inl e\<close>, or \<open>Some e\<close> in the error position); a panic is the outcome
  \<open>Panic\<close> and ends the process. An operation under a mutex is one step. Pointers to transactions are heap
  indices, and a nil pointer in a response is \<open>None\<close>. Machine integers are words. A map that is ranged over
  takes the order of its keys as an argument, and the theorems hold for every order.

  Loops. Loops over slices are \<open>for_range\<close>. The retries of a broadcast are a \<open>partial_function\<close>, so that a
  loop that does not end is \<open>None\<close>; \<open>broadcast_ends\<close> shows that it ends. The reorganisation check has its
  three retries as the recursion's counter. No other fuel is used.

  Waiting. A call that may block for ever has a result of the type \<open>wait\<close>; what goroutines do while another one
  waits for their end is justified by the lemmas \<open>drains\<close> and \<open>never_ends\<close> of \<open>Services\<close>.

  Not modelled. Timers, logging, and metrics other than the balance gauges; JSON, TOML and
  protobuf encoding, the ABI codec of go-ethereum, base58 and Keccak, the state machines and configuration
  types of chainlink-common, and libocr, which are parameters; the generated protobuf code, mocks and
  documentation; of the integration tests, processes and the Kubernetes environment.
\<close>

section \<open>Properties that span components\<close>

text \<open>
  C1. Functional, from the oracle to the node: whatever happens after \<open>Transmit\<close> has returned without
  an error, if the broadcast loop prepares the transaction that it entered, that transaction calls the
  aggregator from the transmitter's account, and its data decode to the selector of \<open>transmit\<close> and the
  ABI encoding of exactly this report context, this report and these signatures; its ID, which is
  what gets signed, is the hash of the raw bytes it is sent with.
\<close>

theorem report_on_wire:
  assumes "reachable E t" and "uuid_fresh E (transmit_request oc []) t" and "knows_types (lib_of E)"
    and "Transmit U E oc ctx rep sigs t = Done (t1, None)" and "(txm_step E)\<^sup>*\<^sup>* t1 t2"
    and "prepare E (objects t2 (next_object t)) t2 = Done (t3, Prepared coreTx)"
  shows "\<exists>packed k. abi_PackValues (lib_of E) transmit_types
        (transmit_values (RawReportContext U ctx) rep (columns U oc sigs)) = Inr packed
    \<and> rd_Contract (RawData_of coreTx) = [k]
    \<and> hex_DecodeString (pv_Data (par_Value (con_Parameter k)))
        = (Selector (lib_of E) ''transmit(bytes32[3],bytes,bytes32[],bytes32[],bytes32)'' @ packed, None)
    \<and> pv_ContractAddress (par_Value (con_Parameter k)) = Address_String (lib_of E) (ct_contractAddress oc)
    \<and> pv_OwnerAddress (par_Value (con_Parameter k)) = Address_String (lib_of E) (ct_senderAddress oc)
    \<and> (\<exists>rawBytes. hex_DecodeString (RawDataHex coreTx) = (rawBytes, None)
        \<and> TxID coreTx = hex_EncodeToString (sha256 rawBytes))"
proof -
  let ?L = "lib_of E" and ?r = "next_object t" and ?cols = "columns U oc sigs"
  let ?req = "transmit_request oc (transmit_params (RawReportContext U ctx) rep ?cols)"
  have enq: "Enqueue E ?req t = Done (t1, None)" using Transmit_None [OF assms(4)] by blast
  have "uuid_fresh E ?req t" using assms(2) uuid_fresh_transmit by blast
  moreover have "req_ID ?req = []" by (simp add: transmit_request_def)
  ultimately have made: "made_from ?req (objects t1 ?r)" "?r < next_object t1"
    using Enqueue_made [OF reachable_inv [OF assms(1)] _ _ enq] by blast+
  have "call_of (objects t2 ?r) = call_of (objects t1 ?r)" by (rule steps_calls [OF assms(5) made(2)])
  then have tx: "FromAddress (objects t2 ?r) = ct_senderAddress oc" "ContractAddress (objects t2 ?r) = ct_contractAddress oc"
    "Method (objects t2 ?r) = ''transmit(bytes32[3],bytes,bytes32[],bytes32[],bytes32)''"
    "Params (objects t2 ?r) = transmit_params (RawReportContext U ctx) rep ?cols"
    using made(1) by (simp_all add: call_of_def made_from_def transmit_request_def)
  obtain fee b h now where "BuildTransaction ?L (serializer_for (objects t2 ?r) fee b h) now = Done (Inr coreTx)"
    using prepare_builds [OF assms(6)] by blast
  from built_call [OF this] show ?thesis
    unfolding tx Pack_transmit [OF assms(3)]
    by (cases "abi_PackValues ?L transmit_types (transmit_values (RawReportContext U ctx) rep ?cols)") auto
qed

theorem report_on_wire_witness:
  "\<exists>t1 t3 coreTx k. Transmit sample_util report_env sample_transmitter sample_context [1, 2] [replicate 65 4] (New 0) = Done (t1, None)
     \<and> prepare report_env (objects t1 0) t1 = Done (t3, Prepared coreTx) \<and> rd_Contract (RawData_of coreTx) = [k]
     \<and> hex_DecodeString (pv_Data (par_Value (con_Parameter k))) = ([7, 7, 7, 7, 1, 2, 3], None)"
proof -
  obtain t1 where t1: "Transmit sample_util report_env sample_transmitter sample_context [1, 2] [replicate 65 4] (New 0) = Done (t1, None)"
    using report_transmitted by blast
  have fresh: "uuid_fresh report_env (transmit_request sample_transmitter ps) (New 0)" for ps
    by (simp add: uuid_fresh_def account_status_New_txm del: account_status.simps)
  let ?req = "transmit_request sample_transmitter (transmit_params (RawReportContext sample_util sample_context) [1, 2]
    (columns sample_util sample_transmitter [replicate 65 4]))"
  have "made_from ?req (objects t1 0)"
    using Enqueue_made [OF txm_inv_New fresh _ Transmit_None [OF t1, THEN conjunct2, THEN conjunct2]]
    by (simp add: transmit_request_def New_def)
  then obtain t3 coreTx where p: "prepare report_env (objects t1 0) t1 = Done (t3, Prepared coreTx)"
    using report_prepared [OF refl, of "objects t1 0"] by (fastforce simp: made_from_def transmit_request_def)
  have r0: "next_object (New (0 :: nat)) = 0" by (simp add: New_def)
  have know: "knows_types (lib_of report_env)" by (simp add: report_lib_knows)
  have "\<exists>k. rd_Contract (RawData_of coreTx) = [k]
      \<and> hex_DecodeString (pv_Data (par_Value (con_Parameter k))) = ([7, 7, 7, 7, 1, 2, 3], None)"
    using report_on_wire [OF reachable.start fresh know t1 rtranclp.rtrancl_refl, unfolded r0, OF p]
    by (auto simp: report_lib_def sample_lib_def Selector_def numeral_eq_Suc)
  then show ?thesis using t1 p by blast
qed

text \<open>
  C7. Safety, from the configuration to the node: when every configured node serves another chain
  than the one configured, the broadcast loop prepares nothing: the transaction it received is never
  signed or sent but left stuck, and the client stays unvalidated.
\<close>

theorem foreign_chain_silent:
  assumes "NewRelayer perm net cod L cfg = Done (Inr rl)" and "client E = rl_client rl"
    and "\<And>n url surl. n \<in> set (toml_Nodes cfg) \<Longrightarrow> node_URL n = Some url \<Longrightarrow> node_SolidityURL n = Some surl \<Longrightarrow>
      foreign (CreateCombinedClient net cod L url surl) (rl_chainIdNum rl)"
    and "reachable E t" and "received t = Some r" and "unvalidated (snd (world t))"
  shows "(\<exists>u. prepare E (objects t r) t = Done (u, NotPrepared))
    \<and> (\<exists>t'. broadcast_one E r (t\<lparr>received := None\<rparr>) = Some (Done t') \<and> state_of t' = state_of t
         \<and> stuck E t' (key E (objects t r)) \<and> unvalidated (snd (world t')))"
proof -
  obtain n url surl where n: "n \<in> set (toml_Nodes cfg)" "node_URL n = Some url" "node_SolidityURL n = Some surl"
    "rl_client rl = NewValidatedCombinedClient (CreateCombinedClient net cod L url surl) (rl_chainIdNum rl)"
    using NewRelayer_Inr [OF assms(1)] by blast
  have E: "client E = NewValidatedCombinedClient (CreateCombinedClient net cod L url surl) (rl_chainIdNum rl)"
    using assms(2) n(4) by simp
  note f = assms(3) [OF n(1-3)]
  show ?thesis
    using foreign_prepare [OF E f assms(6), of "objects t r"] foreign_broadcast [OF assms(4,5) E f assms(6)] by blast
qed

theorem foreign_chain_silent_witness:
  "\<exists>rl t u. NewRelayer sample_perm foreign_net foreign_codec sample_lib (SetDefaults sample_toml_config) = Done (Inr rl)
     \<and> reachable (foreign_env rl) t \<and> prepare (foreign_env rl) (objects t 0) t = Done (u, NotPrepared)"
proof -
  have "toml_ChainID sample_toml_config = Some (dec_string 5)" by (simp add: sample_toml_config_def sample_toml_def)
  then obtain rl where rl: "NewRelayer sample_perm foreign_net foreign_codec sample_lib (SetDefaults sample_toml_config) = Done (Inr rl)"
    "rl_chainIdNum rl = 5"
    using relayer_starts [OF sample_toml_valid sample_perm_ok refl, of foreign_net foreign_codec sample_lib] parse_chain_id_decimal [of 5]
    by fastforce
  obtain t where t: "reachable (foreign_env rl) t" "received t = Some 0" "unvalidated (snd (world t))"
    using foreign_received by blast
  have "client (foreign_env rl) = rl_client rl" by (simp add: foreign_env_def)
  from foreign_chain_silent [OF rl(1) this _ t] show ?thesis using rl t(1) foreign_node by fastforce
qed

text \<open>
  C8. Safety, from the chain to libocr: over any run of the contract cache of a config
  provider, on a contract that hashes its configurations as OCR2 prescribes, the configuration it
  serves is the empty one of the start or one whose digest, recomputed by the provider's digester from
  the served fields, is the digest served with it.
\<close>

theorem provider_config_verifies:
  assumes "tron_libs L" and "NewConfigProvider L num a (NewReader L rpc) = Done (Inr p)"
    and "\<And>b s s' ev. GetEventsFromBlock (NewReader L rpc) a ''ConfigSet'' b s = Done (s', [ev], None) \<Longrightarrow> honest_event L (cp_digester p) ev"
    and "poll_run (contract_tick (cp_reader p)) ts (s, cp_contractCache p) = Done ((s', c), oks)"
    and "cc_LatestConfig ttl now b c = (cc, err)"
  shows "(cc = cfg_Config zero_config \<or> dg_ConfigDigest L (cp_digester p) cc = Done (Inr (cc_ConfigDigest cc)))
    \<and> dg_chainID (cp_digester p) = num"
proof -
  obtain e where e: "EthAddress L a = Done e" "result_bind (NewOffchainConfigDigester L num e) (\<lambda>d.
      Inr \<lparr>cp_reader = NewContractReader L a (NewReader L rpc), cp_contractCache = NewContractCache, cp_digester = d\<rparr>) = Inr p"
    using assms(2) by (auto simp: NewConfigProvider_def outcome_bind_eq_Done)
  then obtain d where d: "NewOffchainConfigDigester L num e = Inr d"
    "p = \<lparr>cp_reader = NewContractReader L a (NewReader L rpc), cp_contractCache = NewContractCache, cp_digester = d\<rparr>"
    by (auto simp: result_bind_eq_Inr)
  have "verified L d (snd (s', c))"
    by (rule run_verified [OF assms(1), where r = "NewReader L rpc" and a = a and ts = ts and s = "(s, NewContractCache)"])
      (use assms(3,4) d in \<open>auto simp: verified_def NewContractCache_def\<close>)
  moreover have "dg_chainID d = num" using d(1) by (auto simp: NewOffchainConfigDigester_def split: sum.splits)
  ultimately show ?thesis using assms(5) d(2) by (auto simp: verified_def cc_LatestConfig_def)
qed

theorem provider_config_verifies_witness:
  "\<exists>p w c cc err. NewConfigProvider (reader_lib honest_values) 5 sample_address
        (NewReader (reader_lib honest_values) (reader_client honest_values sample_address)) = Done (Inr p)
     \<and> poll_run (contract_tick (cp_reader p)) [10] ((0, Map.empty), cp_contractCache p) = Done ((w, c), [True])
     \<and> cc_LatestConfig 5 12 7 c = (cc, err) \<and> cc_Transmitters cc \<noteq> []
     \<and> dg_ConfigDigest (reader_lib honest_values) (cp_digester p) cc = Done (Inr (0 # 1 # replicate 30 7))"
proof -
  let ?V = honest_values
  let ?L = "reader_lib ?V" and ?rpc = "reader_client ?V sample_address"
  let ?R = "NewReader ?L ?rpc"
  let ?d = "\<lparr>dg_chainID = 5, dg_contractAddress = eth_BytesToAddress ?L (replicate 20 5), dg_configDigestArgs = []\<rparr>"
  let ?p = "\<lparr>cp_reader = NewContractReader ?L sample_address ?R, cp_contractCache = NewContractCache, cp_digester = ?d\<rparr>"
  have p: "NewConfigProvider ?L 5 sample_address ?R = Done (Inr ?p)"
    by (simp add: NewConfigProvider_def EthAddress_def sample_address_def NewOffchainConfigDigester_def)
      (simp add: reader_lib_def sample_lib_def)
  let ?abis = "[Address_String ?L sample_address \<mapsto> Some reader_abi]"
  have entry: "''latestConfigDetails'' \<in> entry_Name ` set (Entrys reader_abi)" by (simp add: reader_abi_def plain_entry_def)
  have "parse_LatestConfigDetails ?V = Inr \<lparr>cd_Block = 7, cd_Digest = 0 # 1 # replicate 30 7\<rparr>"
    by (simp add: parse_LatestConfigDetails_def asserted_def honest_values_def gomap_get_def)
  then have details: "cr_LatestConfigDetails (cp_reader ?p) (0, Map.empty) = Done ((2, ?abis), Inr (7, 0 # 1 # replicate 30 7))"
    using sample_call(1) [OF entry, of ?V sample_address sample_address 0]
    by (simp add: NewContractReader_def LatestConfigDetails_def parsed_def NewReader_def numeral_2_eq_2)
  obtain cc where cc: "parse_ConfigSet ?L ?V = Inr cc" "cc_Transmitters cc \<noteq> []" "cc_ConfigDigest cc = 0 # 1 # replicate 30 7"
    by (simp add: parse_ConfigSet_def asserted_def honest_values_def config_event_def gomap_get_def Let_def)
  have "getContractABI ?L ?rpc sample_address (2, ?abis) = Done ((2, ?abis), Some reader_abi, None)"
    by (rule getContractABI_cached) simp
  from sample_events_with [OF this] have config: "cr_LatestConfig (cp_reader ?p) 7 (2, ?abis) = Done ((4, ?abis), Inr cc)"
    using cc(1) by (simp add: NewContractReader_def ConfigFromEventAt_def NewReader_def)
  have height: "cr_LatestBlockHeight (cp_reader ?p) (4, ?abis) = Done ((5, ?abis), Inr 1)"
    by (simp add: NewContractReader_def NewReader_def rc_LatestBlockHeight_def reader_client_def NewCombinedClient_def
        sol_GetNowBlock_def reader_http_def sample_http_def after_rpc_def check_block_def sample_block_def sample_raw_def)
  obtain c where run: "poll_run (contract_tick (cp_reader ?p)) [10] ((0, Map.empty), cp_contractCache ?p) = Done (((5, ?abis), c), [True])"
    and c: "cfg_Config (c_contractConfig c) = cc"
    using details config height
    by (simp add: contract_tick_def updateConfig_def NewContractCache_def zero_config_def Let_def)
  obtain err where read: "cc_LatestConfig 5 12 7 c = (cc, err)" using c by (simp add: cc_LatestConfig_def)
  have honest: "honest_event ?L (cp_digester ?p) ev"
    if "GetEventsFromBlock ?R sample_address ''ConfigSet'' b s = Done (s', [ev], None)" for b s s' ev
    using reader_events_are [OF that] honest_values_event by simp
  have "cc \<noteq> cfg_Config zero_config" using cc(2) by (auto simp: zero_config_def)
  then have "dg_ConfigDigest ?L (cp_digester ?p) cc = Done (Inr (0 # 1 # replicate 30 7))"
    using provider_config_verifies [OF tron_reader_lib p honest run read] cc(3) by simp
  then show ?thesis using p run read cc(2) by blast
qed

end
